(* ===== verification/Prelude.thy ===== *)
theory Prelude
  imports Complex_Main "HOL-Library.Word" "HOL-Library.Countable"
begin

text \<open>
  Shared vocabulary of the RenderTrust development.

  The theory fixes the types every component uses (identifiers, instants, Python errors,
  Python floats, database sessions), the lemma collections the component theories extend,
  and the generic facts about rows of a table that carry the component proofs.

  \<^item> \<open>uuid\<close> is the 128-bit value of a Python \<open>uuid.UUID\<close>; \<open>instant\<close> is a UTC
    datetime as microseconds since the epoch, the resolution of \<open>datetime.datetime\<close>.
  \<^item> \<open>py_exc\<close> lists the exceptions the modelled code raises or lets through; an operation
    that may raise returns a value of \<open>py_exc + 'a\<close>.
  \<^item> \<open>pyfloat\<close> is a Python float with exact arithmetic on its finite values; \<open>py_less\<close>
    is Python's comparison (false whenever a NaN takes part), the \<open>linorder\<close> instance is
    the total order a database sorts a float column by (NaN last).
  \<^item> A table is the list of its rows; \<open>row_at\<close> and \<open>row_update\<close> are the primary-key
    SELECT and UPDATE, \<open>scalar_one_or_none\<close> and \<open>scalar_one\<close> are SQLAlchemy's result
    accessors.
  \<^item> \<open>session\<close> is a database session: what is committed and what the session sees.
\<close>

named_theorems table_simps
named_theorems op_defs
named_theorems inv_intros

section \<open>Identifiers, instants and exceptions\<close>

type_synonym uuid = "128 word"
type_synonym instant = int
type_synonym bytes = "8 word list"

abbreviation seconds :: "int \<Rightarrow> int" where
  "seconds n \<equiv> n * 1000000"

datatype py_exc =
    ValueError string
  | IndexError string
  | RuntimeError string
  | HTTPException nat string
  | InsufficientCreditsError uuid rat rat
  | MultipleResultsFound
  | NoResultFound
  | IntegrityError
  | DataError
  | OtherError string

fun is_error :: "py_exc + 'a \<Rightarrow> bool" where
  "is_error (Inl _) = True"
| "is_error (Inr _) = False"

fun err_bind :: "py_exc + 'a \<Rightarrow> ('a \<Rightarrow> py_exc + 'b) \<Rightarrow> py_exc + 'b" where
  "err_bind (Inl e) f = Inl e"
| "err_bind (Inr x) f = f x"

lemma err_bind_Inr: "err_bind m f = Inr y \<longleftrightarrow> (\<exists>x. m = Inr x \<and> f x = Inr y)"
  by (cases m) auto

section \<open>Python floats\<close>

datatype pyfloat = NInf | Fin rat | PInf | NaN

fun py_less :: "pyfloat \<Rightarrow> pyfloat \<Rightarrow> bool" where
  "py_less NaN y = False"
| "py_less x NaN = False"
| "py_less NInf NInf = False"
| "py_less NInf y = True"
| "py_less (Fin a) (Fin b) = (a < b)"
| "py_less (Fin a) PInf = True"
| "py_less (Fin a) NInf = False"
| "py_less PInf y = False"

text \<open>\<open>min(a, b)\<close> keeps \<open>a\<close> unless \<open>b < a\<close>; \<open>max(a, b)\<close> keeps \<open>a\<close> unless \<open>b > a\<close>.\<close>

definition py_min :: "pyfloat \<Rightarrow> pyfloat \<Rightarrow> pyfloat" where
  "py_min a b = (if py_less b a then b else a)"

definition py_max :: "pyfloat \<Rightarrow> pyfloat \<Rightarrow> pyfloat" where
  "py_max a b = (if py_less a b then b else a)"

fun py_add :: "pyfloat \<Rightarrow> pyfloat \<Rightarrow> pyfloat" where
  "py_add NaN y = NaN"
| "py_add x NaN = NaN"
| "py_add PInf NInf = NaN"
| "py_add NInf PInf = NaN"
| "py_add PInf y = PInf"
| "py_add x PInf = PInf"
| "py_add NInf y = NInf"
| "py_add x NInf = NInf"
| "py_add (Fin a) (Fin b) = Fin (a + b)"

text \<open>Division of a float by a positive count.\<close>

fun py_div_nat :: "pyfloat \<Rightarrow> nat \<Rightarrow> pyfloat" where
  "py_div_nat (Fin a) n = Fin (a / of_nat n)"
| "py_div_nat x n = x"

text \<open>The rank by which a database orders a float column.\<close>

fun pf_rank :: "pyfloat \<Rightarrow> nat \<times> rat" where
  "pf_rank NInf = (0, 0)"
| "pf_rank (Fin r) = (1, r)"
| "pf_rank PInf = (2, 0)"
| "pf_rank NaN = (3, 0)"

instantiation pyfloat :: linorder
begin

definition less_eq_pyfloat :: "pyfloat \<Rightarrow> pyfloat \<Rightarrow> bool" where
  "less_eq_pyfloat x y \<longleftrightarrow>
     fst (pf_rank x) < fst (pf_rank y) \<or>
     fst (pf_rank x) = fst (pf_rank y) \<and> snd (pf_rank x) \<le> snd (pf_rank y)"

definition less_pyfloat :: "pyfloat \<Rightarrow> pyfloat \<Rightarrow> bool" where
  "less_pyfloat x y \<longleftrightarrow> x \<le> y \<and> \<not> y \<le> x"

instance
proof
  fix x y z :: pyfloat
  show "x < y \<longleftrightarrow> x \<le> y \<and> \<not> y \<le> x"
    by (simp add: less_pyfloat_def)
  show "x \<le> x"
    by (simp add: less_eq_pyfloat_def)
  show "x \<le> y \<Longrightarrow> y \<le> z \<Longrightarrow> x \<le> z"
    by (auto simp: less_eq_pyfloat_def)
  show "x \<le> y \<Longrightarrow> y \<le> x \<Longrightarrow> x = y"
    by (cases x; cases y) (auto simp: less_eq_pyfloat_def)
  show "x \<le> y \<or> y \<le> x"
    by (auto simp: less_eq_pyfloat_def)
qed

end

lemma Fin_le_iff [simp]: "Fin a \<le> Fin b \<longleftrightarrow> a \<le> b"
  by (simp add: less_eq_pyfloat_def)

section \<open>JSON values\<close>

datatype json =
    JNull
  | JBool bool
  | JNum rat
  | JStr string
  | JArr "json list"
  | JObj "(string \<times> json) list"

instance json :: countable
  by countable_datatype

text \<open>\<open>d.get(k)\<close> on a decoded object (the last of repeated keys wins, and only objects have
  keys), and Python's truth value of a decoded value.\<close>

fun json_get :: "string \<Rightarrow> json \<Rightarrow> json option" where
  "json_get k (JObj kvs) = map_of (rev kvs) k"
| "json_get k j = None"

fun json_truthy :: "json \<Rightarrow> bool" where
  "json_truthy JNull = False"
| "json_truthy (JBool b) = b"
| "json_truthy (JNum n) = (n \<noteq> 0)"
| "json_truthy (JStr s) = (s \<noteq> [])"
| "json_truthy (JArr xs) = (xs \<noteq> [])"
| "json_truthy (JObj kvs) = (kvs \<noteq> [])"

section \<open>Tables as lists of rows\<close>

definition row_at :: "('r \<Rightarrow> 'k) \<Rightarrow> 'k \<Rightarrow> 'r list \<Rightarrow> 'r option" where
  "row_at key k rows = List.find (\<lambda>r. key r = k) rows"

definition row_update :: "('r \<Rightarrow> 'k) \<Rightarrow> 'k \<Rightarrow> ('r \<Rightarrow> 'r) \<Rightarrow> 'r list \<Rightarrow> 'r list" where
  "row_update key k f rows = map (\<lambda>r. if key r = k then f r else r) rows"

definition update_where :: "('r \<Rightarrow> bool) \<Rightarrow> ('r \<Rightarrow> 'r) \<Rightarrow> 'r list \<Rightarrow> 'r list" where
  "update_where P f rows = map (\<lambda>r. if P r then f r else r) rows"

fun scalar_one_or_none :: "'r list \<Rightarrow> py_exc + 'r option" where
  "scalar_one_or_none [] = Inr None"
| "scalar_one_or_none [x] = Inr (Some x)"
| "scalar_one_or_none (x # y # zs) = Inl MultipleResultsFound"

fun scalar_one :: "'r list \<Rightarrow> py_exc + 'r" where
  "scalar_one [] = Inl NoResultFound"
| "scalar_one [x] = Inr x"
| "scalar_one (x # y # zs) = Inl MultipleResultsFound"

lemma find_SomeD: "List.find P xs = Some x \<Longrightarrow> x \<in> set xs \<and> P x"
  by (induction xs) (auto split: if_splits)

lemma row_at_Nil [simp, table_simps]: "row_at key k [] = None"
  by (simp add: row_at_def)

lemma row_at_Cons [simp, table_simps]:
  "row_at key k (r # rs) = (if key r = k then Some r else row_at key k rs)"
  by (simp add: row_at_def)

lemma row_at_SomeD: "row_at key k rows = Some r \<Longrightarrow> r \<in> set rows \<and> key r = k"
  by (induction rows) (auto split: if_splits)

lemma row_at_None_iff: "row_at key k rows = None \<longleftrightarrow> k \<notin> key ` set rows"
  by (induction rows) auto

lemma row_at_append [table_simps]:
  "row_at key k (xs @ ys) = (case row_at key k xs of None \<Rightarrow> row_at key k ys | Some r \<Rightarrow> Some r)"
  by (induction xs) auto

lemma row_at_distinct:
  "distinct (map key rows) \<Longrightarrow> r \<in> set rows \<Longrightarrow> row_at key (key r) rows = Some r"
  by (induction rows) (auto simp: rev_image_eqI)

lemma row_update_Nil [simp, table_simps]: "row_update key k f [] = []"
  by (simp add: row_update_def)

lemma row_update_Cons [simp, table_simps]:
  "row_update key k f (r # rs) = (if key r = k then f r else r) # row_update key k f rs"
  by (simp add: row_update_def)

lemma length_row_update [simp, table_simps]: "length (row_update key k f rows) = length rows"
  by (simp add: row_update_def)

lemma row_update_keys [table_simps]:
  "(\<And>r. key (f r) = key r) \<Longrightarrow> map key (row_update key k f rows) = map key rows"
  by (induction rows) auto

lemma row_at_row_update [table_simps]:
  "(\<And>r. key (f r) = key r) \<Longrightarrow>
   row_at key k (row_update key k' f rows) =
     (if k = k' then map_option f (row_at key k rows) else row_at key k rows)"
  by (induction rows) auto

lemma row_update_in:
  "x \<in> set (row_update key k f rows) \<Longrightarrow>
   (x \<in> set rows \<and> key x \<noteq> k) \<or> (\<exists>r \<in> set rows. key r = k \<and> x = f r)"
  by (auto simp: row_update_def)

lemma row_at_update_where [table_simps]:
  "(\<And>r. key (f r) = key r) \<Longrightarrow>
   row_at key k (update_where P f rows) =
     map_option (\<lambda>r. if P r then f r else r) (row_at key k rows)"
  by (induction rows) (auto simp: update_where_def)

lemma update_where_keys [table_simps]:
  "(\<And>r. key (f r) = key r) \<Longrightarrow> map key (update_where P f rows) = map key rows"
  by (induction rows) (auto simp: update_where_def)

lemma scalar_one_or_none_None: "scalar_one_or_none xs = Inr None \<longleftrightarrow> xs = []"
  by (cases xs rule: scalar_one_or_none.cases) auto

lemma scalar_one_or_none_Some: "scalar_one_or_none xs = Inr (Some x) \<longleftrightarrow> xs = [x]"
  by (cases xs rule: scalar_one_or_none.cases) auto

text \<open>Selecting on a unique key finds at most the row of that key.\<close>

lemma filter_unique_key:
  "distinct (map key rows) \<Longrightarrow>
   filter (\<lambda>r. key r = k) rows = (case row_at key k rows of None \<Rightarrow> [] | Some r \<Rightarrow> [r])"
proof (induction rows)
  case Nil
  then show ?case by simp
next
  case (Cons r rs)
  show ?case
  proof (cases "key r = k")
    case True
    with Cons.prems have "row_at key k rs = None"
      by (auto simp: row_at_None_iff)
    with Cons True show ?thesis by simp
  next
    case False
    with Cons show ?thesis by simp
  qed
qed

lemma scalar_unique_key:
  "distinct (map key rows) \<Longrightarrow>
   scalar_one_or_none (filter (\<lambda>r. key r = k) rows) = Inr (row_at key k rows)"
  by (simp add: filter_unique_key split: option.splits)

section \<open>Database sessions\<close>

record 'd session =
  committed :: 'd
  working :: 'd

definition open_session :: "'d \<Rightarrow> 'd session" where
  "open_session d = \<lparr>committed = d, working = d\<rparr>"

definition commit :: "'d session \<Rightarrow> 'd session" where
  "commit s = s\<lparr>committed := working s\<rparr>"

definition rollback :: "'d session \<Rightarrow> 'd session" where
  "rollback s = s\<lparr>working := committed s\<rparr>"

lemma session_simps [simp]:
  "committed (open_session d) = d" "working (open_session d) = d"
  "committed (commit s) = working s" "working (commit s) = working s"
  "committed (rollback s) = committed s" "working (rollback s) = committed s"
  by (simp_all add: open_session_def commit_def rollback_def)

section \<open>Invariants of step relations\<close>

text \<open>The interface of an invariant: it holds initially and every step keeps it.\<close>

locale step_invariant =
  fixes init :: "'s \<Rightarrow> bool"
    and step :: "'s \<Rightarrow> 's \<Rightarrow> bool"
    and inv :: "'s \<Rightarrow> bool"
  assumes inv_init: "init s \<Longrightarrow> inv s"
    and inv_step: "inv s \<Longrightarrow> step s t \<Longrightarrow> inv t"
begin

lemma inv_steps: "step\<^sup>*\<^sup>* s t \<Longrightarrow> inv s \<Longrightarrow> inv t"
  by (induction rule: rtranclp_induct) (auto intro: inv_step)

lemma inv_reachable: "init s \<Longrightarrow> step\<^sup>*\<^sup>* s t \<Longrightarrow> inv t"
  by (rule inv_steps [OF _ inv_init])

end

section \<open>Fibers over shared data\<close>

text \<open>The interface of concurrent calls: a list of fibers advances one at a time over shared data,
  in an environment such as the locks held. A step of one fiber keeps the data well formed and is
  right for that fiber; what is right for the others stays right when the data moves on.\<close>

locale shared_fibers =
  fixes advance :: "'e \<Rightarrow> 'd \<Rightarrow> 'f \<Rightarrow> ('d \<times> 'f) option"
    and data_ok :: "'d \<Rightarrow> bool"
    and fib_ok :: "'d \<Rightarrow> 'f \<Rightarrow> bool"
    and later :: "'d \<Rightarrow> 'd \<Rightarrow> bool"
  assumes advance_ok: "data_ok d \<Longrightarrow> fib_ok d f \<Longrightarrow> advance e d f = Some (d', f') \<Longrightarrow>
      data_ok d' \<and> later d d' \<and> fib_ok d' f'"
    and fib_later: "fib_ok d f \<Longrightarrow> later d d' \<Longrightarrow> fib_ok d' f"
begin

lemma advance_all:
  assumes "data_ok d" and "\<forall>f \<in> set fs. fib_ok d f" and "i < length fs"
    and "advance e d (fs ! i) = Some (d', f')"
  shows "data_ok d' \<and> (\<forall>f \<in> set (fs[i := f']). fib_ok d' f)"
proof -
  have "fib_ok d (fs ! i)" using assms(2,3) by simp
  from advance_ok [OF assms(1) this assms(4)]
  have *: "data_ok d'" "later d d'" "fib_ok d' f'" by simp_all
  have "fib_ok d' f" if "f \<in> set (fs[i := f'])" for f
    using set_update_subset_insert [of fs i f'] that * assms(2) by (auto intro: fib_later)
  with * show ?thesis by simp
qed

end

section \<open>Functional refinement\<close>

text \<open>The interface of a refinement: an operation of the model commutes with its abstraction.\<close>

locale simulation =
  fixes step :: "'e \<Rightarrow> 's \<Rightarrow> 's"
    and astep :: "'e \<Rightarrow> 'a \<Rightarrow> 'a"
    and abs_of :: "'s \<Rightarrow> 'a"
    and ok :: "'s \<Rightarrow> bool"
  assumes ok_step: "ok s \<Longrightarrow> ok (step e s)"
    and sim_step: "ok s \<Longrightarrow> abs_of (step e s) = astep e (abs_of s)"
begin

lemma ok_fold: "ok s \<Longrightarrow> ok (fold step es s)"
  by (induction es arbitrary: s) (simp_all add: ok_step)

lemma sim_fold: "ok s \<Longrightarrow> abs_of (fold step es s) = fold astep es (abs_of s)"
  by (induction es arbitrary: s) (simp_all add: ok_step sim_step)

end

section \<open>Idempotent posting\<close>

text \<open>
  What a client of a ledger relies on: a request carries a key; a successful post marks its
  key, marks are never lost, and posting a marked key again changes nothing.
\<close>

fun post_all :: "('req \<Rightarrow> 's \<Rightarrow> (py_exc + 'e) \<times> 's) \<Rightarrow> 'req list \<Rightarrow> 's \<Rightarrow> (py_exc + 'e list) \<times> 's" where
  "post_all post [] s = (Inr [], s)"
| "post_all post (r # rs) s =
     (case post r s of
        (Inl x, s') \<Rightarrow> (Inl x, s')
      | (Inr e, s') \<Rightarrow>
          (case post_all post rs s' of
             (Inl x, t) \<Rightarrow> (Inl x, t)
           | (Inr es, t) \<Rightarrow> (Inr (e # es), t)))"

locale idempotent_posting =
  fixes post :: "'req \<Rightarrow> 's \<Rightarrow> (py_exc + 'e) \<times> 's"
    and key :: "'req \<Rightarrow> 'k"
    and valid :: "'req \<Rightarrow> bool"
    and marked :: "'s \<Rightarrow> 'k \<Rightarrow> bool"
    and ok :: "'s \<Rightarrow> bool"
  assumes ok_post: "ok s \<Longrightarrow> post r s = (Inr e, s') \<Longrightarrow> ok s'"
    and post_marks: "ok s \<Longrightarrow> post r s = (Inr e, s') \<Longrightarrow> marked s' (key r)"
    and post_keeps: "ok s \<Longrightarrow> post r s = (Inr e, s') \<Longrightarrow> marked s k \<Longrightarrow> marked s' k"
    and post_again: "ok s \<Longrightarrow> valid r \<Longrightarrow> marked s (key r) \<Longrightarrow> \<exists>e. post r s = (Inr e, s)"
begin

lemma post_all_marks:
  "ok s \<Longrightarrow> post_all post rs s = (Inr es, s') \<Longrightarrow>
   ok s' \<and> (\<forall>k. marked s k \<longrightarrow> marked s' k) \<and> (\<forall>r \<in> set rs. marked s' (key r))"
proof (induction rs arbitrary: s es)
  case Nil
  then show ?case by simp
next
  case (Cons r rs)
  then obtain e t es' where p: "post r s = (Inr e, t)" and q: "post_all post rs t = (Inr es', s')"
    by (auto split: prod.splits sum.splits)
  from p Cons.prems(1) have "ok t" by (rule ok_post [rotated])
  from Cons.IH [OF this q] show ?case
    using post_marks [OF Cons.prems(1) p] post_keeps [OF Cons.prems(1) p] by auto
qed

lemma post_all_again:
  "ok s \<Longrightarrow> \<forall>r \<in> set rs. valid r \<and> marked s (key r) \<Longrightarrow> \<exists>es. post_all post rs s = (Inr es, s)"
proof (induction rs)
  case Nil
  then show ?case by simp
next
  case (Cons r rs)
  then obtain es where "post_all post rs s = (Inr es, s)" by auto
  moreover from Cons.prems have "valid r" "marked s (key r)" by simp_all
  then obtain e where "post r s = (Inr e, s)"
    using post_again [OF Cons.prems(1)] by blast
  ultimately show ?case by auto
qed

text \<open>A batch that went through is posted: any batch over its keys leaves the state alone.\<close>

lemma post_all_twice:
  assumes "ok s" and "post_all post rs s = (Inr es, s')"
    and "\<forall>r \<in> set qs. valid r \<and> key r \<in> key ` set rs"
  shows "\<exists>es'. post_all post qs s' = (Inr es', s')"
  using assms post_all_marks [OF assms(1,2)] by (intro post_all_again) auto

end

end
