(* ===== verification/CreditLedger.thy ===== *)
theory CreditLedger
  imports Prelude "HOL-Library.Sublist" "HOL-Library.Multiset"
begin

text \<open>
  The credit ledger: the rows of \<^verbatim>\<open>core/models/base.py\<close> (\<open>CreditLedgerEntry\<close> with its
  UNIQUE, CHECK and foreign-key constraints) and the service of
  \<^verbatim>\<open>core/ledger/service.py\<close> (\<open>allocate_credits\<close>, \<open>deduct_credits\<close>, \<open>get_balance\<close>,
  \<open>get_history\<close>).

  Decimals are exact rationals. What a \<open>NUMERIC(12, 4)\<close> column keeps of a value is the
  parameter \<open>num\<close> (\<open>None\<close>: out of range); the identifier drawn by \<open>uuid4\<close> and the clock
  reading are arguments. Each service call is split where the code awaits: the reads
  (\<open>..._prepare\<close>) and the flush with its \<open>IntegrityError\<close> handler (\<open>ledger_finish\<close>), so
  that other transactions can run in between.
\<close>

section \<open>Rows and constraints\<close>

datatype transaction_direction = CREDIT | DEBIT

datatype transaction_source = STRIPE | USAGE | ADJUSTMENT | REFUND

record ledger_entry =
  le_id :: uuid
  le_user :: uuid
  le_amount :: rat
  le_direction :: transaction_direction
  le_source :: transaction_source
  le_reference :: string
  le_balance_after :: rat
  le_description :: "string option"
  le_created_at :: instant

record ledger_db =
  ld_users :: "uuid list"
  ld_entries :: "ledger_entry list"

type_synonym numeric = "rat \<Rightarrow> rat option"

definition entry_key :: "ledger_entry \<Rightarrow> string \<times> transaction_direction" where
  "entry_key e = (le_reference e, le_direction e)"

definition flush_entry :: "numeric \<Rightarrow> ledger_entry \<Rightarrow> ledger_db \<Rightarrow> py_exc + ledger_db" where
  "flush_entry num e db =
     (case (num (le_amount e), num (le_balance_after e)) of
        (Some a, Some b) \<Rightarrow>
          if 255 < length (le_reference e) then Inl DataError
          else if le_user e \<notin> set (ld_users db) \<or> entry_key e \<in> entry_key ` set (ld_entries db) \<or> b < 0
          then Inl IntegrityError
          else Inr (db\<lparr>ld_entries := ld_entries db @ [e\<lparr>le_amount := a, le_balance_after := b\<rparr>]\<rparr>)
      | _ \<Rightarrow> Inl DataError)"

section \<open>Queries\<close>

definition by_reference :: "string \<Rightarrow> transaction_direction \<Rightarrow> ledger_db \<Rightarrow> ledger_entry list" where
  "by_reference ref d db = filter (\<lambda>e. entry_key e = (ref, d)) (ld_entries db)"

definition newest_first :: "uuid \<Rightarrow> ledger_db \<Rightarrow> ledger_entry list" where
  "newest_first user db =
     sort_key (\<lambda>e. - le_created_at e) (filter (\<lambda>e. le_user e = user) (ld_entries db))"

definition last_entry :: "uuid \<Rightarrow> ledger_db \<Rightarrow> ledger_entry option" where
  "last_entry user db = (case newest_first user db of [] \<Rightarrow> None | e # _ \<Rightarrow> Some e)"

definition get_balance :: "ledger_db \<Rightarrow> uuid \<Rightarrow> rat" where
  "get_balance db user = (case last_entry user db of Some e \<Rightarrow> le_balance_after e | None \<Rightarrow> 0)"

definition max_history_limit :: int where
  "max_history_limit = 100"

definition get_history :: "ledger_db \<Rightarrow> uuid \<Rightarrow> int \<Rightarrow> int \<Rightarrow> py_exc + ledger_entry list" where
  "get_history db user limit offset =
     (let clamped = min limit max_history_limit
      in if clamped < 0 \<or> offset < 0 then Inl DataError
         else Inr (take (nat clamped) (drop (nat offset) (newest_first user db))))"

section \<open>Allocation and deduction\<close>

datatype prepared = Existing ledger_entry | Fresh ledger_entry

definition allocate_prepare ::
  "uuid \<Rightarrow> instant \<Rightarrow> uuid \<Rightarrow> rat \<Rightarrow> transaction_source \<Rightarrow> string \<Rightarrow> string option \<Rightarrow>
   ledger_db \<Rightarrow> py_exc + prepared" where
  "allocate_prepare nid now user amount source ref desc db =
     (if amount \<le> 0 then Inl (ValueError ''Credit amount must be positive'')
      else case scalar_one_or_none (by_reference ref CREDIT db) of
             Inl x \<Rightarrow> Inl x
           | Inr (Some e) \<Rightarrow> Inr (Existing e)
           | Inr None \<Rightarrow>
               Inr (Fresh \<lparr>le_id = nid, le_user = user, le_amount = amount, le_direction = CREDIT,
                      le_source = source, le_reference = ref,
                      le_balance_after = get_balance db user + amount,
                      le_description = desc, le_created_at = now\<rparr>))"

definition deduct_prepare ::
  "uuid \<Rightarrow> instant \<Rightarrow> uuid \<Rightarrow> rat \<Rightarrow> transaction_source \<Rightarrow> string \<Rightarrow> string option \<Rightarrow>
   ledger_db \<Rightarrow> py_exc + prepared" where
  "deduct_prepare nid now user amount source ref desc db =
     (if amount \<le> 0 then Inl (ValueError ''Debit amount must be positive'')
      else case scalar_one_or_none (by_reference ref DEBIT db) of
             Inl x \<Rightarrow> Inl x
           | Inr (Some e) \<Rightarrow> Inr (Existing e)
           | Inr None \<Rightarrow>
               let current = get_balance db user; new = current - amount
               in if new < 0 then Inl (InsufficientCreditsError user amount current)
                  else Inr (Fresh \<lparr>le_id = nid, le_user = user, le_amount = amount,
                         le_direction = DEBIT, le_source = source, le_reference = ref,
                         le_balance_after = new, le_description = desc, le_created_at = now\<rparr>))"

text \<open>The flush, and what the handler does: on \<open>IntegrityError\<close> it rolls the session back
  and reads the entry of the reference again with \<open>scalar_one\<close>. A flush that fails otherwise
  leaves the session rolled back and the exception propagates.\<close>

definition ledger_finish ::
  "numeric \<Rightarrow> prepared \<Rightarrow> ledger_db session \<Rightarrow> (py_exc + ledger_entry) \<times> ledger_db session" where
  "ledger_finish num p s =
     (case p of
        Existing e \<Rightarrow> (Inr e, s)
      | Fresh e \<Rightarrow>
          (case flush_entry num e (working s) of
             Inr db \<Rightarrow> (Inr e, s\<lparr>working := db\<rparr>)
           | Inl IntegrityError \<Rightarrow>
               (scalar_one (by_reference (le_reference e) (le_direction e) (working (rollback s))),
                rollback s)
           | Inl x \<Rightarrow> (Inl x, rollback s)))"

definition allocate_credits ::
  "numeric \<Rightarrow> uuid \<Rightarrow> instant \<Rightarrow> uuid \<Rightarrow> rat \<Rightarrow> transaction_source \<Rightarrow> string \<Rightarrow> string option \<Rightarrow>
   ledger_db session \<Rightarrow> (py_exc + ledger_entry) \<times> ledger_db session" where
  "allocate_credits num nid now user amount source ref desc s =
     (case allocate_prepare nid now user amount source ref desc (working s) of
        Inl x \<Rightarrow> (Inl x, s)
      | Inr p \<Rightarrow> ledger_finish num p s)"

definition deduct_credits ::
  "numeric \<Rightarrow> uuid \<Rightarrow> instant \<Rightarrow> uuid \<Rightarrow> rat \<Rightarrow> transaction_source \<Rightarrow> string \<Rightarrow> string option \<Rightarrow>
   ledger_db session \<Rightarrow> (py_exc + ledger_entry) \<times> ledger_db session" where
  "deduct_credits num nid now user amount source ref desc s =
     (case deduct_prepare nid now user amount source ref desc (working s) of
        Inl x \<Rightarrow> (Inl x, s)
      | Inr p \<Rightarrow> ledger_finish num p s)"

lemmas ledger_op_defs = allocate_credits_def deduct_credits_def allocate_prepare_def
  deduct_prepare_def ledger_finish_def

section \<open>Invariants\<close>

text \<open>What the constraints of the table keep: unique (reference, direction) pairs,
  non-negative balances, owners that exist.\<close>

definition ledger_ok :: "ledger_db \<Rightarrow> bool" where
  "ledger_ok db \<longleftrightarrow> distinct (map entry_key (ld_entries db)) \<and>
     (\<forall>e \<in> set (ld_entries db). 0 \<le> le_balance_after e \<and> le_user e \<in> set (ld_users db))"

text \<open>A session has seen what is committed and adds to it.\<close>

definition ledger_session_ok :: "ledger_db session \<Rightarrow> bool" where
  "ledger_session_ok s \<longleftrightarrow> prefix (ld_entries (committed s)) (ld_entries (working s)) \<and>
     ld_users (committed s) = ld_users (working s) \<and> ledger_ok (working s)"

lemma ledger_ok_prefix:
  "ledger_ok db \<Longrightarrow> prefix (ld_entries db') (ld_entries db) \<Longrightarrow> ld_users db' = ld_users db \<Longrightarrow>
   ledger_ok db'"
  by (auto simp: ledger_ok_def prefix_def)

lemma ledger_session_okD:
  assumes "ledger_session_ok s"
  shows "ledger_ok (working s)" and "ledger_ok (committed s)"
  using assms ledger_ok_prefix by (auto simp: ledger_session_ok_def)

lemma ledger_session_ok_open [inv_intros]: "ledger_ok db \<Longrightarrow> ledger_session_ok (open_session db)"
  by (simp add: ledger_session_ok_def)

lemma ledger_session_ok_commit [inv_intros]: "ledger_session_ok s \<Longrightarrow> ledger_session_ok (commit s)"
  by (simp add: ledger_session_ok_def)

lemma ledger_session_ok_rollback [inv_intros]:
  "ledger_session_ok s \<Longrightarrow> ledger_session_ok (rollback s)"
  by (simp add: ledger_session_ok_def ledger_session_okD(2))

text \<open>The entry of a key, when there is one.\<close>

definition posted :: "ledger_db \<Rightarrow> string \<times> transaction_direction \<Rightarrow> ledger_entry option" where
  "posted db k = row_at entry_key k (ld_entries db)"

lemma by_reference_posted:
  "ledger_ok db \<Longrightarrow>
   by_reference ref d db = (case posted db (ref, d) of None \<Rightarrow> [] | Some e \<Rightarrow> [e])"
  by (simp add: by_reference_def posted_def ledger_ok_def filter_unique_key)

lemma posted_NoneD: "posted db k = None \<Longrightarrow> k \<notin> entry_key ` set (ld_entries db)"
  by (simp add: posted_def row_at_None_iff)

lemma flush_entry_Inr:
  "flush_entry num e db = Inr db' \<longleftrightarrow>
     (\<exists>a b. num (le_amount e) = Some a \<and> num (le_balance_after e) = Some b \<and>
        length (le_reference e) \<le> 255 \<and> le_user e \<in> set (ld_users db) \<and>
        posted db (entry_key e) = None \<and> 0 \<le> b \<and>
        db' = db\<lparr>ld_entries := ld_entries db @ [e\<lparr>le_amount := a, le_balance_after := b\<rparr>]\<rparr>)"
  by (auto simp: flush_entry_def posted_def row_at_None_iff split: option.splits)

lemma flush_entry_ok [inv_intros]:
  "flush_entry num e db = Inr db' \<Longrightarrow> ledger_ok db \<Longrightarrow> ledger_ok db'"
  by (auto simp: flush_entry_Inr ledger_ok_def posted_def row_at_None_iff entry_key_def)

lemma entry_key_update [simp]:
  "entry_key (e\<lparr>le_amount := a, le_balance_after := b\<rparr>) = entry_key e"
  by (simp add: entry_key_def)

lemma ledger_finish_ok [inv_intros]:
  assumes "ledger_session_ok s"
  shows "ledger_session_ok (snd (ledger_finish num p s))"
proof (cases p)
  case (Existing e)
  with assms show ?thesis by (simp add: ledger_finish_def)
next
  case (Fresh e)
  show ?thesis
  proof (cases "flush_entry num e (working s)")
    case (Inl x)
    with Fresh assms show ?thesis
      by (cases x) (simp_all add: ledger_finish_def ledger_session_ok_rollback)
  next
    case (Inr db)
    then have "prefix (ld_entries (working s)) (ld_entries db)" "ld_users db = ld_users (working s)"
      by (auto simp: flush_entry_Inr)
    with Inr Fresh assms show ?thesis
      by (auto simp: ledger_finish_def ledger_session_ok_def
          intro: flush_entry_ok prefix_order.trans)
  qed
qed

lemma allocate_credits_ok [inv_intros]:
  "ledger_session_ok s \<Longrightarrow>
   ledger_session_ok (snd (allocate_credits num nid now user amount source ref desc s))"
  by (auto simp: allocate_credits_def split: sum.splits intro: ledger_finish_ok)

lemma deduct_credits_ok [inv_intros]:
  "ledger_session_ok s \<Longrightarrow>
   ledger_session_ok (snd (deduct_credits num nid now user amount source ref desc s))"
  by (auto simp: deduct_credits_def split: sum.splits intro: ledger_finish_ok)

section \<open>What one call does\<close>

lemma posted_append:
  "posted (db\<lparr>ld_entries := ld_entries db @ [e]\<rparr>) k =
     (case posted db k of None \<Rightarrow> (if entry_key e = k then Some e else None) | Some x \<Rightarrow> Some x)"
  by (simp add: posted_def row_at_append split: option.splits)

lemma posted_committed:
  assumes "ledger_session_ok s" and "posted (working s) k = None"
  shows "posted (committed s) k = None"
  using assms set_mono_prefix [of "ld_entries (committed s)" "ld_entries (working s)"]
  by (auto simp: ledger_session_ok_def posted_def row_at_None_iff)

text \<open>A flush either appends the entry of a fresh key, or the call fails.\<close>

lemma ledger_finish_Fresh:
  assumes ok: "ledger_session_ok s" and fresh: "posted (working s) (entry_key e) = None"
    and fin: "ledger_finish num (Fresh e) s = (Inr x, s')"
  obtains a b where "x = e" and "num (le_amount e) = Some a" and "num (le_balance_after e) = Some b"
    and "0 \<le> b" and "le_user e \<in> set (ld_users (working s))"
    and "s' = s\<lparr>working := (working s)\<lparr>ld_entries := ld_entries (working s) @
           [e\<lparr>le_amount := a, le_balance_after := b\<rparr>]\<rparr>\<rparr>"
proof (cases "flush_entry num e (working s)")
  case (Inl y)
  have "by_reference (le_reference e) (le_direction e) (committed s) = []"
    using posted_committed [OF ok fresh] ledger_session_okD(2) [OF ok]
    by (simp add: by_reference_posted entry_key_def)
  with Inl fin have False by (cases y) (auto simp: ledger_finish_def)
  then show ?thesis ..
next
  case (Inr db)
  with fin that show ?thesis by (auto simp: ledger_finish_def flush_entry_Inr)
qed

lemma allocate_Inr_cases:
  assumes ok: "ledger_session_ok s"
    and call: "allocate_credits num nid now user amount source ref desc s = (Inr e, s')"
  obtains (again) "0 < amount" "posted (working s) (ref, CREDIT) = Some e" "s' = s"
  | (new) a b where "0 < amount" "posted (working s) (ref, CREDIT) = None"
      "e = \<lparr>le_id = nid, le_user = user, le_amount = amount, le_direction = CREDIT,
            le_source = source, le_reference = ref,
            le_balance_after = get_balance (working s) user + amount,
            le_description = desc, le_created_at = now\<rparr>"
      "num amount = Some a" "num (get_balance (working s) user + amount) = Some b" "0 \<le> b"
      "user \<in> set (ld_users (working s))"
      "s' = s\<lparr>working := (working s)\<lparr>ld_entries := ld_entries (working s) @
             [e\<lparr>le_amount := a, le_balance_after := b\<rparr>]\<rparr>\<rparr>"
proof (cases "posted (working s) (ref, CREDIT)")
  case None
  with ok call have "0 < amount" and fin: "ledger_finish num (Fresh
      \<lparr>le_id = nid, le_user = user, le_amount = amount, le_direction = CREDIT,
        le_source = source, le_reference = ref,
        le_balance_after = get_balance (working s) user + amount,
        le_description = desc, le_created_at = now\<rparr>) s = (Inr e, s')"
    by (auto simp: allocate_credits_def allocate_prepare_def by_reference_posted
        ledger_session_okD split: if_splits)
  then show ?thesis
    by - (rule ledger_finish_Fresh [OF ok _ fin],
      use None in \<open>auto simp: entry_key_def intro!: new\<close>)
next
  case (Some x)
  with ok call again show ?thesis
    by (auto simp: allocate_credits_def allocate_prepare_def by_reference_posted
        ledger_finish_def ledger_session_okD split: if_splits)
qed

lemma deduct_Inr_cases:
  assumes ok: "ledger_session_ok s"
    and call: "deduct_credits num nid now user amount source ref desc s = (Inr e, s')"
  obtains (again) "0 < amount" "posted (working s) (ref, DEBIT) = Some e" "s' = s"
  | (new) a b where "0 < amount" "amount \<le> get_balance (working s) user"
      "posted (working s) (ref, DEBIT) = None"
      "e = \<lparr>le_id = nid, le_user = user, le_amount = amount, le_direction = DEBIT,
            le_source = source, le_reference = ref,
            le_balance_after = get_balance (working s) user - amount,
            le_description = desc, le_created_at = now\<rparr>"
      "num amount = Some a" "num (get_balance (working s) user - amount) = Some b" "0 \<le> b"
      "user \<in> set (ld_users (working s))"
      "s' = s\<lparr>working := (working s)\<lparr>ld_entries := ld_entries (working s) @
             [e\<lparr>le_amount := a, le_balance_after := b\<rparr>]\<rparr>\<rparr>"
proof (cases "posted (working s) (ref, DEBIT)")
  case None
  with ok call have "0 < amount" "amount \<le> get_balance (working s) user"
    and fin: "ledger_finish num (Fresh
      \<lparr>le_id = nid, le_user = user, le_amount = amount, le_direction = DEBIT,
        le_source = source, le_reference = ref,
        le_balance_after = get_balance (working s) user - amount,
        le_description = desc, le_created_at = now\<rparr>) s = (Inr e, s')"
    by (auto simp: deduct_credits_def deduct_prepare_def by_reference_posted Let_def
        ledger_session_okD split: if_splits)
  then show ?thesis
    by - (rule ledger_finish_Fresh [OF ok _ fin],
      use None in \<open>auto simp: entry_key_def intro!: new\<close>)
next
  case (Some x)
  with ok call again show ?thesis
    by (auto simp: deduct_credits_def deduct_prepare_def by_reference_posted
        ledger_finish_def ledger_session_okD split: if_splits)
qed

section \<open>Balances\<close>

text \<open>Amounts of at most four decimals, the scale of the columns, and a column type that keeps
  them exactly and yields nothing else.\<close>

definition scale4 :: "rat \<Rightarrow> bool" where
  "scale4 x \<longleftrightarrow> (\<exists>k. x = of_int k / 10000)"

definition keeps_scale4 :: "numeric \<Rightarrow> bool" where
  "keeps_scale4 num \<longleftrightarrow> (\<forall>x y. num x = Some y \<longrightarrow> scale4 y \<and> (scale4 x \<longrightarrow> y = x))"

lemma scale4_simps [simp]: "scale4 0"
  by (simp add: scale4_def exI [of _ 0])

lemma scale4_add: "scale4 x \<Longrightarrow> scale4 y \<Longrightarrow> scale4 (x + y)"
  unfolding scale4_def by (metis add_divide_distrib of_int_add)

lemma scale4_diff: "scale4 x \<Longrightarrow> scale4 y \<Longrightarrow> scale4 (x - y)"
  unfolding scale4_def by (metis diff_divide_distrib of_int_diff)

definition signed_amount :: "ledger_entry \<Rightarrow> rat" where
  "signed_amount e = (if le_direction e = CREDIT then le_amount e else - le_amount e)"

definition user_entries :: "uuid \<Rightarrow> ledger_db \<Rightarrow> ledger_entry list" where
  "user_entries u db = filter (\<lambda>e. le_user e = u) (ld_entries db)"

text \<open>What the account should hold: the credits minus the debits of its owner.\<close>

definition account_total :: "ledger_db \<Rightarrow> uuid \<Rightarrow> rat" where
  "account_total db u = sum_list (map signed_amount (user_entries u db))"

definition ledger_balanced :: "ledger_db \<Rightarrow> bool" where
  "ledger_balanced db \<longleftrightarrow> ledger_ok db \<and>
     (\<forall>u. sorted_wrt (<) (map le_created_at (user_entries u db)) \<and>
          scale4 (account_total db u) \<and> get_balance db u = account_total db u)"

definition clock_after :: "ledger_db \<Rightarrow> uuid \<Rightarrow> instant \<Rightarrow> bool" where
  "clock_after db u now \<longleftrightarrow> (\<forall>e \<in> set (user_entries u db). le_created_at e < now)"

lemma sort_key_rev:
  assumes "sorted_wrt (<) (map (le_created_at) xs)"
  shows "sort_key (\<lambda>e. - le_created_at e) xs = rev xs"
proof (rule properties_for_sort_key)
  show "mset (rev xs) = mset xs" by simp
  have "sorted_wrt (\<lambda>x y. - le_created_at y < - le_created_at x) xs"
    using assms by (simp add: sorted_wrt_map)
  then have "sorted_wrt (\<lambda>x y. - le_created_at x < - le_created_at y) (rev xs)"
    by (simp add: sorted_wrt_rev)
  then show "sorted (map (\<lambda>e. - le_created_at e) (rev xs))"
    unfolding sorted_wrt_map by (rule sorted_wrt_mono_rel [rotated]) auto
  have "distinct (map le_created_at xs)"
    using assms strict_sorted_iff by blast
  then have "filter (\<lambda>x. le_created_at k = le_created_at x) (rev xs) =
      filter (\<lambda>x. le_created_at k = le_created_at x) xs" for k
    using filter_unique_key [of le_created_at xs "le_created_at k"]
    by (simp add: rev_filter [symmetric] eq_commute split: option.splits)
  then show "filter (\<lambda>x. - le_created_at k = - le_created_at x) (rev xs) =
      filter (\<lambda>x. - le_created_at k = - le_created_at x) xs" if "k \<in> set (rev xs)" for k
    by simp
qed

lemma newest_first_rev:
  "sorted_wrt (<) (map le_created_at (user_entries u db)) \<Longrightarrow>
   newest_first u db = rev (user_entries u db)"
  by (simp add: newest_first_def user_entries_def sort_key_rev)

lemma user_entries_append [simp]:
  "user_entries u (db\<lparr>ld_entries := ld_entries db @ [e]\<rparr>) =
     user_entries u db @ (if le_user e = u then [e] else [])"
  by (simp add: user_entries_def)

lemma account_total_append [simp]:
  "account_total (db\<lparr>ld_entries := ld_entries db @ [e]\<rparr>) u =
     account_total db u + (if le_user e = u then signed_amount e else 0)"
  by (simp add: account_total_def)

lemma get_balance_append:
  assumes "ledger_balanced db" and "clock_after db (le_user e) (le_created_at e)"
  shows "get_balance (db\<lparr>ld_entries := ld_entries db @ [e]\<rparr>) u =
    (if u = le_user e then le_balance_after e else get_balance db u)"
proof -
  let ?db = "db\<lparr>ld_entries := ld_entries db @ [e]\<rparr>"
  have "sorted_wrt (<) (map le_created_at (user_entries u ?db))"
    using assms by (auto simp: ledger_balanced_def clock_after_def sorted_wrt_append)
  then show ?thesis
    using assms(1)
    by (simp add: get_balance_def last_entry_def newest_first_rev ledger_balanced_def)
qed

lemma ledger_balanced_append [inv_intros]:
  assumes bal: "ledger_balanced db" and clock: "clock_after db (le_user e) (le_created_at e)"
    and ok: "ledger_ok (db\<lparr>ld_entries := ld_entries db @ [e]\<rparr>)"
    and sc: "scale4 (le_balance_after e)"
    and eq: "le_balance_after e = get_balance db (le_user e) + signed_amount e"
  shows "ledger_balanced (db\<lparr>ld_entries := ld_entries db @ [e]\<rparr>)"
  using bal clock ok sc eq get_balance_append [OF bal clock]
  by (auto simp: ledger_balanced_def clock_after_def sorted_wrt_append)

lemma balanced_session [intro]: "ledger_balanced db \<Longrightarrow> ledger_session_ok (open_session db)"
  by (simp add: ledger_balanced_def ledger_session_ok_open)

text \<open>A successful call of either kind, on an account whose clock advances.\<close>

lemma allocate_balanced:
  assumes bal: "ledger_balanced db" and num: "keeps_scale4 num" and sc: "scale4 amount"
    and clock: "clock_after db user now"
    and call: "allocate_credits num nid now user amount source ref desc (open_session db) = (Inr e, s')"
  shows "ledger_balanced (working s') \<and> get_balance (working s') u =
     get_balance db u + (if u = user \<and> posted db (ref, CREDIT) = None then amount else 0)"
proof (rule allocate_Inr_cases [OF balanced_session [OF bal] call], goal_cases)
  case 1
  with bal show ?case by simp
next
  case (2 a b)
  have "scale4 (get_balance db user)" using bal by (simp add: ledger_balanced_def)
  with 2 num sc have ab: "a = amount" "b = get_balance db user + amount" "scale4 b"
    by (auto simp: keeps_scale4_def scale4_add)
  have ok: "ledger_ok (working s')"
    using allocate_credits_ok [OF balanced_session [OF bal], of num nid now user amount source ref desc]
      call by (simp add: ledger_session_okD)
  have "ledger_balanced (working s')"
    using bal clock ok ab unfolding 2(8)
    by (simp add: 2(3) signed_amount_def) (intro ledger_balanced_append, simp_all add: signed_amount_def)
  with 2 ab show ?case using bal clock by (simp add: get_balance_append)
qed

lemma deduct_balanced:
  assumes bal: "ledger_balanced db" and num: "keeps_scale4 num" and sc: "scale4 amount"
    and clock: "clock_after db user now"
    and call: "deduct_credits num nid now user amount source ref desc (open_session db) = (Inr e, s')"
  shows "ledger_balanced (working s') \<and> get_balance (working s') u =
     get_balance db u - (if u = user \<and> posted db (ref, DEBIT) = None then amount else 0)"
proof (rule deduct_Inr_cases [OF balanced_session [OF bal] call], goal_cases)
  case 1
  with bal show ?case by simp
next
  case (2 a b)
  have "scale4 (get_balance db user)" using bal by (simp add: ledger_balanced_def)
  with 2 num sc have ab: "a = amount" "b = get_balance db user - amount" "scale4 b"
    by (auto simp: keeps_scale4_def scale4_diff)
  have ok: "ledger_ok (working s')"
    using deduct_credits_ok [OF balanced_session [OF bal], of num nid now user amount source ref desc]
      call by (simp add: ledger_session_okD)
  have "ledger_balanced (working s')"
    using bal clock ok ab unfolding 2(9)
    by (simp add: 2(4) signed_amount_def) (intro ledger_balanced_append, simp_all add: signed_amount_def)
  with 2 ab show ?case using bal clock by (simp add: get_balance_append)
qed

text \<open>A fresh deduction is refused exactly when the amount exceeds the balance.\<close>

lemma deduct_decides:
  assumes bal: "ledger_balanced db" and num: "keeps_scale4 num" and sc: "scale4 amount"
    and clock: "clock_after db user now" and pos: "0 < amount" and fresh: "posted db (ref, DEBIT) = None"
    and call: "deduct_credits num nid now user amount source ref desc (open_session db) = (r, s')"
  shows "(get_balance db user < amount \<longleftrightarrow>
       r = Inl (InsufficientCreditsError user amount (get_balance db user))) \<and>
    (get_balance db user < amount \<longrightarrow> s' = open_session db) \<and>
    (\<forall>e. r = Inr e \<longrightarrow>
       get_balance (working s') = (get_balance db)(user := get_balance db user - amount))"
proof -
  have ok: "ledger_ok db" using bal by (simp add: ledger_balanced_def)
  have res: "r = Inl (InsufficientCreditsError user amount (get_balance db user)) \<and>
      s' = open_session db" if "get_balance db user < amount"
    using that call pos fresh ok
    by (auto simp: deduct_credits_def deduct_prepare_def by_reference_posted Let_def)
  have fin: "r = Inl IntegrityError \<or> r = Inl DataError \<or> r = Inl NoResultFound \<or> (\<exists>e. r = Inr e)"
    if "\<not> get_balance db user < amount"
    using that call pos fresh ok
    by (auto simp: deduct_credits_def deduct_prepare_def by_reference_posted Let_def
        ledger_finish_def flush_entry_def split: option.splits if_splits)
  have "get_balance (working s') = (get_balance db)(user := get_balance db user - amount)"
    if "r = Inr e" for e
    using deduct_balanced [OF bal num sc clock, of nid source ref desc e s'] that call fresh
    by (auto simp: fun_eq_iff)
  with res fin show ?thesis by (cases "get_balance db user < amount") auto
qed

section \<open>The ledger as a transition system\<close>

text \<open>A step is a transaction that ran one service call and committed. Amounts have the
  scale of the columns and the clock has advanced since the account's last entry.\<close>

inductive ledger_step :: "numeric \<Rightarrow> ledger_db \<Rightarrow> ledger_db \<Rightarrow> bool" for num where
  allocate: "scale4 amount \<Longrightarrow> clock_after db user now \<Longrightarrow>
     allocate_credits num nid now user amount source ref desc (open_session db) = (Inr e, s') \<Longrightarrow>
     ledger_step num db (committed (commit s'))"
| deduct: "scale4 amount \<Longrightarrow> clock_after db user now \<Longrightarrow>
     deduct_credits num nid now user amount source ref desc (open_session db) = (Inr e, s') \<Longrightarrow>
     ledger_step num db (committed (commit s'))"

definition empty_ledger :: "uuid list \<Rightarrow> ledger_db" where
  "empty_ledger users = \<lparr>ld_users = users, ld_entries = []\<rparr>"

lemma ledger_balanced_empty: "ledger_balanced (empty_ledger users)"
  by (simp add: empty_ledger_def ledger_balanced_def ledger_ok_def user_entries_def
      account_total_def get_balance_def last_entry_def newest_first_def)

lemma ledger_step_balanced:
  "ledger_step num db db' \<Longrightarrow> keeps_scale4 num \<Longrightarrow> ledger_balanced db \<Longrightarrow> ledger_balanced db'"
  by (induction rule: ledger_step.induct) (auto dest: allocate_balanced deduct_balanced)

interpretation ledger_inv: step_invariant "\<lambda>db. \<exists>users. db = empty_ledger users" "ledger_step num"
    "\<lambda>db. keeps_scale4 num \<longrightarrow> ledger_balanced db"
  for num
  by unfold_locales (auto simp: ledger_balanced_empty intro: ledger_step_balanced)

section \<open>Posting is idempotent\<close>

record credit_request =
  cr_id :: uuid
  cr_now :: instant
  cr_user :: uuid
  cr_amount :: rat
  cr_source :: transaction_source
  cr_reference :: string
  cr_description :: "string option"

definition post_credit ::
  "numeric \<Rightarrow> credit_request \<Rightarrow> ledger_db session \<Rightarrow> (py_exc + ledger_entry) \<times> ledger_db session" where
  "post_credit num r s = allocate_credits num (cr_id r) (cr_now r) (cr_user r) (cr_amount r)
     (cr_source r) (cr_reference r) (cr_description r) s"

definition post_debit ::
  "numeric \<Rightarrow> credit_request \<Rightarrow> ledger_db session \<Rightarrow> (py_exc + ledger_entry) \<times> ledger_db session" where
  "post_debit num r s = deduct_credits num (cr_id r) (cr_now r) (cr_user r) (cr_amount r)
     (cr_source r) (cr_reference r) (cr_description r) s"

lemma allocate_posted_again:
  "ledger_session_ok s \<Longrightarrow> 0 < amount \<Longrightarrow> posted (working s) (ref, CREDIT) = Some e \<Longrightarrow>
   allocate_credits num nid now user amount source ref desc s = (Inr e, s)"
  by (simp add: allocate_credits_def allocate_prepare_def by_reference_posted
      ledger_finish_def ledger_session_okD)

lemma deduct_posted_again:
  "ledger_session_ok s \<Longrightarrow> 0 < amount \<Longrightarrow> posted (working s) (ref, DEBIT) = Some e \<Longrightarrow>
   deduct_credits num nid now user amount source ref desc s = (Inr e, s)"
  by (simp add: deduct_credits_def deduct_prepare_def by_reference_posted
      ledger_finish_def ledger_session_okD)

interpretation credits: idempotent_posting "post_credit num" cr_reference "\<lambda>r. 0 < cr_amount r"
    "\<lambda>s ref. posted (working s) (ref, CREDIT) \<noteq> None" ledger_session_ok
  for num
proof unfold_locales
  fix s r e and s' :: "ledger_db session"
  assume ok: "ledger_session_ok s" and call: "post_credit num r s = (Inr e, s')"
  show "ledger_session_ok s'"
    using call allocate_credits_ok [OF ok] unfolding post_credit_def by (metis snd_conv)
  show "posted (working s') (cr_reference r, CREDIT) \<noteq> None"
    using call unfolding post_credit_def
    by (rule allocate_Inr_cases [OF ok]) (simp_all add: posted_append entry_key_def)
  show "posted (working s') (k, CREDIT) \<noteq> None" if "posted (working s) (k, CREDIT) \<noteq> None" for k
    using call unfolding post_credit_def
    by (rule allocate_Inr_cases [OF ok]) (use that in \<open>auto simp: posted_append\<close>)
next
  fix s and r :: credit_request
  assume "ledger_session_ok s" "0 < cr_amount r" "posted (working s) (cr_reference r, CREDIT) \<noteq> None"
  then show "\<exists>e. post_credit num r s = (Inr e, s)"
    unfolding post_credit_def by (auto intro: allocate_posted_again)
qed

interpretation debits: idempotent_posting "post_debit num" cr_reference "\<lambda>r. 0 < cr_amount r"
    "\<lambda>s ref. posted (working s) (ref, DEBIT) \<noteq> None" ledger_session_ok
  for num
proof unfold_locales
  fix s r e and s' :: "ledger_db session"
  assume ok: "ledger_session_ok s" and call: "post_debit num r s = (Inr e, s')"
  show "ledger_session_ok s'"
    using call deduct_credits_ok [OF ok] unfolding post_debit_def by (metis snd_conv)
  show "posted (working s') (cr_reference r, DEBIT) \<noteq> None"
    using call unfolding post_debit_def
    by (rule deduct_Inr_cases [OF ok]) (simp_all add: posted_append entry_key_def)
  show "posted (working s') (k, DEBIT) \<noteq> None" if "posted (working s) (k, DEBIT) \<noteq> None" for k
    using call unfolding post_debit_def
    by (rule deduct_Inr_cases [OF ok]) (use that in \<open>auto simp: posted_append\<close>)
next
  fix s and r :: credit_request
  assume "ledger_session_ok s" "0 < cr_amount r" "posted (working s) (cr_reference r, DEBIT) \<noteq> None"
  then show "\<exists>e. post_debit num r s = (Inr e, s)"
    unfolding post_debit_def by (auto intro: deduct_posted_again)
qed

section \<open>A concrete column\<close>

text \<open>PostgreSQL's \<open>NUMERIC(12, 4)\<close>: rounds half away from zero to four decimals and refuses
  values of more than twelve digits. The witnesses use it.\<close>

definition half_away :: "rat \<Rightarrow> int" where
  "half_away x = (if 0 \<le> x then \<lfloor>x + 1 / 2\<rfloor> else - \<lfloor>1 / 2 - x\<rfloor>)"

definition numeric_12_4 :: numeric where
  "numeric_12_4 x =
     (let k = half_away (x * 10000)
      in if \<bar>k\<bar> < 1000000000000 then Some (of_int k / 10000) else None)"

lemma half_away_of_int [simp]: "half_away (of_int k) = k"
proof -
  have "\<lfloor>rat_of_int k + 1 / 2\<rfloor> = k" "\<lfloor>1 / 2 - rat_of_int k\<rfloor> = - k"
    by (simp_all add: floor_eq_iff)
  then show ?thesis by (simp add: half_away_def)
qed

lemma keeps_scale4_numeric: "keeps_scale4 numeric_12_4"
  unfolding keeps_scale4_def
proof (intro allI impI conjI)
  fix x y assume xy: "numeric_12_4 x = Some y"
  then show "scale4 y"
    unfolding scale4_def by (intro exI [of _ "half_away (x * 10000)"])
      (simp add: numeric_12_4_def Let_def split: if_splits)
  show "y = x" if "scale4 x"
    using that xy by (auto simp: scale4_def numeric_12_4_def Let_def split: if_splits)
qed

lemma numeric_12_4_int: "\<bar>k\<bar> < 100000000 \<Longrightarrow> numeric_12_4 (of_int k) = Some (of_int k)"
  using half_away_of_int [of "k * 10000"] by (simp add: numeric_12_4_def Let_def)

lemma numeric_12_4_numeral:
  "(numeral n :: int) < 100000000 \<Longrightarrow> numeric_12_4 (numeral n) = Some (numeral n)"
  using numeric_12_4_int [of "numeral n"] by simp

definition demo_entry :: ledger_entry where
  "demo_entry = \<lparr>le_id = 1, le_user = 7, le_amount = 12, le_direction = CREDIT, le_source = STRIPE,
     le_reference = ''a'', le_balance_after = 12, le_description = None, le_created_at = 5\<rparr>"

definition demo_ledger :: ledger_db where
  "demo_ledger = \<lparr>ld_users = [7], ld_entries = [demo_entry]\<rparr>"

lemmas demo_ledger_defs = ledger_op_defs flush_entry_def by_reference_def empty_ledger_def
  demo_ledger_def demo_entry_def get_balance_def last_entry_def newest_first_def
  open_session_def user_entries_def clock_after_def posted_def entry_key_def numeric_12_4_numeral

lemma demo_allocate:
  "allocate_credits numeric_12_4 1 5 7 12 STRIPE ''a'' None (open_session (empty_ledger [7])) =
     (Inr demo_entry, (open_session (empty_ledger [7]))\<lparr>working := demo_ledger\<rparr>)"
  by (simp add: demo_ledger_defs)

lemma scale4_numeral [simp]: "scale4 (numeral n)"
  unfolding scale4_def by (intro exI [of _ "numeral n * 10000"]) simp

lemma demo_ledger_balanced: "ledger_balanced demo_ledger"
  using allocate_balanced [OF ledger_balanced_empty keeps_scale4_numeric scale4_numeral _ demo_allocate]
  by (simp add: clock_after_def user_entries_def empty_ledger_def posted_def)

section \<open>Properties\<close>



text \<open>C2: \<open>allocate_credits\<close> refines the abstract account: on a balanced ledger a call that
  returns adds exactly the amount to the account when its reference is new, and changes nothing
  (it returns the entry already posted) when the reference was used; no other account moves.\<close>

theorem allocate_refines_account:
  assumes "ledger_balanced db" and "keeps_scale4 num" and "scale4 amount" and "clock_after db user now"
    and "allocate_credits num nid now user amount source ref desc (open_session db) = (Inr e, s')"
  shows "(case posted db (ref, CREDIT) of
      Some x \<Rightarrow> e = x \<and> s' = open_session db
    | None \<Rightarrow> ledger_balanced (working s') \<and>
        get_balance (working s') = (get_balance db)(user := get_balance db user + amount))"
proof (cases "posted db (ref, CREDIT)")
  case None
  with allocate_balanced [OF assms] show ?thesis by (auto simp: fun_eq_iff)
next
  case (Some x)
  with assms(5) show ?thesis
    using balanced_session [OF assms(1)] by (elim allocate_Inr_cases [rotated]) simp_all
qed

theorem allocate_refines_account_witness:
  "case posted (empty_ledger [7]) (''a'', CREDIT) of
     Some x \<Rightarrow> demo_entry = x \<and>
       (open_session (empty_ledger [7]))\<lparr>working := demo_ledger\<rparr> = open_session (empty_ledger [7])
   | None \<Rightarrow> ledger_balanced demo_ledger \<and>
       get_balance demo_ledger =
         (get_balance (empty_ledger [7]))(7 := get_balance (empty_ledger [7]) 7 + 12)"
  using allocate_refines_account [OF ledger_balanced_empty keeps_scale4_numeric scale4_numeral _ demo_allocate]
  by (simp add: clock_after_def user_entries_def empty_ledger_def posted_def)



text \<open>A batch of credits is idempotent: once a batch of allocations has gone through, any
  batch of positive requests over the same references, whatever the amounts and the accounts
  they name, returns existing entries and leaves the ledger as it is.\<close>

theorem credits_batch_idempotent:
  assumes "ledger_session_ok s" and "post_all (post_credit num) rs s = (Inr es, s')"
    and "\<forall>r \<in> set qs. 0 < cr_amount r \<and> cr_reference r \<in> cr_reference ` set rs"
  shows "\<exists>es'. post_all (post_credit num) qs s' = (Inr es', s')"
  using assms by (rule credits.post_all_twice)

theorem credits_batch_idempotent_witness:
  "\<exists>es'. post_all (post_credit numeric_12_4)
     [\<lparr>cr_id = 3, cr_now = 8, cr_user = 9, cr_amount = 40, cr_source = ADJUSTMENT,
       cr_reference = ''a'', cr_description = None\<rparr>]
     ((open_session (empty_ledger [7]))\<lparr>working := demo_ledger\<rparr>) =
     (Inr es', (open_session (empty_ledger [7]))\<lparr>working := demo_ledger\<rparr>)"
  by (rule credits_batch_idempotent [where s = "open_session (empty_ledger [7])" and
        rs = "[\<lparr>cr_id = 1, cr_now = 5, cr_user = 7, cr_amount = 12, cr_source = STRIPE,
               cr_reference = ''a'', cr_description = None\<rparr>]" and es = "[demo_entry]"])
     (simp_all add: post_credit_def demo_allocate balanced_session ledger_balanced_empty)

text \<open>The history is paged without loss: two consecutive pages are the page of twice the
  size, no page is longer than 100, and every page holds only entries of the account.\<close>

theorem history_pages:
  assumes "0 \<le> n" and "2 * n \<le> max_history_limit" and "0 \<le> off"
    and "get_history db user n off = Inr p1" and "get_history db user n (off + n) = Inr p2"
  shows "get_history db user (2 * n) off = Inr (p1 @ p2) \<and> length (p1 @ p2) \<le> 100 \<and>
    (\<forall>e \<in> set (p1 @ p2). e \<in> set (ld_entries db) \<and> le_user e = user)"
proof -
  let ?l = "newest_first user db"
  obtain m k where n: "n = int m" and off: "off = int k"
    using assms(1,3) by (metis nonneg_int_cases)
  have page: "get_history db user (int j) (int i) = Inr (take j (drop i ?l))"
    if "int j \<le> max_history_limit" for i j
    using that by (simp add: get_history_def min_absorb1)
  have le: "int m \<le> max_history_limit" "int (2 * m) \<le> max_history_limit"
    using assms(2) n by simp_all
  have p1: "p1 = take m (drop k ?l)"
    using assms(4) page [OF le(1), of k] by (simp add: n off)
  have p2: "p2 = take m (drop m (drop k ?l))"
    using assms(5) page [OF le(1), of "k + m"] by (simp add: n off add.commute)
  have both: "p1 @ p2 = take (2 * m) (drop k ?l)"
    unfolding p1 p2 by (simp only: take_add mult_2)
  have "set (p1 @ p2) \<subseteq> set ?l"
    unfolding both by (meson in_set_dropD in_set_takeD subsetI)
  then have mem: "\<forall>e \<in> set (p1 @ p2). e \<in> set (ld_entries db) \<and> le_user e = user"
    by (auto simp: newest_first_def)
  have "get_history db user (2 * n) off = Inr (p1 @ p2)"
    unfolding both using page [OF le(2), of k] by (simp add: n off)
  moreover have "length (p1 @ p2) \<le> 100"
    unfolding both using le by (simp add: max_history_limit_def)
  ultimately show ?thesis using mem by blast
qed

theorem history_pages_witness:
  "get_history demo_ledger 7 (2 * 1) 0 = Inr ([demo_entry] @ [])"
  using history_pages [of 1 0 demo_ledger 7 "[demo_entry]" "[]"]
  by (simp add: max_history_limit_def get_history_def newest_first_def demo_ledger_def demo_entry_def)

end
