(* ===== verification/LedgerConcurrency.thy ===== *)
theory LedgerConcurrency
  imports CreditLedger
begin

text \<open>
  Concurrent calls of \<^verbatim>\<open>core/ledger/service.py\<close>'s \<open>allocate_credits\<close>.

  A fiber is one request of \<open>credit_request\<close> in its own transaction. It awaits twice: for the
  reads (\<open>allocate_prepare\<close> on what is committed) and for the flush, which the transaction then
  commits (\<open>ledger_finish\<close>, with its \<open>IntegrityError\<close> branch). A step of \<open>conc_step\<close> is
  one of the two in any fiber, so a run is any interleaving. The row locks, which \<^verbatim>\<open>LedgerLocks\<close> adds
  for the deductions, are left out here: the \<open>FOR UPDATE\<close> of the reads can only lock an entry that
  exists, so a run where two transactions read an account without entries is possible in PostgreSQL,
  and the safety result holds for more interleavings than the locks allow.
\<close>

section \<open>Fibers and their steps\<close>

datatype fiber =
    Waiting credit_request
  | Reads credit_request prepared
  | Finished credit_request "py_exc + ledger_entry"

record conc =
  shared :: ledger_db
  fibers :: "fiber list"

fun fiber_request :: "fiber \<Rightarrow> credit_request" where
  "fiber_request (Waiting r) = r"
| "fiber_request (Reads r p) = r"
| "fiber_request (Finished r x) = r"

definition read_phase :: "credit_request \<Rightarrow> ledger_db \<Rightarrow> py_exc + prepared" where
  "read_phase r db = allocate_prepare (cr_id r) (cr_now r) (cr_user r) (cr_amount r) (cr_source r)
     (cr_reference r) (cr_description r) db"

definition fiber_step :: "numeric \<Rightarrow> ledger_db \<Rightarrow> fiber \<Rightarrow> (ledger_db \<times> fiber) option" where
  "fiber_step num db f =
     (case f of
        Waiting r \<Rightarrow>
          (case read_phase r db of
             Inl x \<Rightarrow> Some (db, Finished r (Inl x))
           | Inr p \<Rightarrow> Some (db, Reads r p))
      | Reads r p \<Rightarrow>
          (case ledger_finish num p (open_session db) of
             (res, s) \<Rightarrow> Some (committed (commit s), Finished r res))
      | Finished r x \<Rightarrow> None)"

inductive conc_step :: "numeric \<Rightarrow> conc \<Rightarrow> conc \<Rightarrow> bool" for num where
  fiber: "i < length (fibers c) \<Longrightarrow> fiber_step num (shared c) (fibers c ! i) = Some (db, f) \<Longrightarrow>
     conc_step num c \<lparr>shared = db, fibers = (fibers c)[i := f]\<rparr>"

inductive_cases conc_stepE: "conc_step num c c'"

definition conc_start :: "ledger_db \<Rightarrow> credit_request list \<Rightarrow> conc" where
  "conc_start db rs = \<lparr>shared = db, fibers = map Waiting rs\<rparr>"

text \<open>A schedule names the fiber of each step; a finished fiber stays as it is.\<close>

fun run_schedule :: "numeric \<Rightarrow> nat list \<Rightarrow> conc \<Rightarrow> conc" where
  "run_schedule num [] c = c"
| "run_schedule num (i # is) c =
     (if i < length (fibers c) then
        (case fiber_step num (shared c) (fibers c ! i) of
           Some (db, f) \<Rightarrow> run_schedule num is \<lparr>shared = db, fibers = (fibers c)[i := f]\<rparr>
         | None \<Rightarrow> run_schedule num is c)
      else run_schedule num is c)"

lemma run_schedule_steps: "(conc_step num)\<^sup>*\<^sup>* c (run_schedule num is c)"
proof (induction num "is" c rule: run_schedule.induct)
  case (1 num c)
  then show ?case by simp
next
  case (2 num i "is" c)
  show ?case
    using 2 by (auto split: option.splits
        intro: converse_rtranclp_into_rtranclp conc_step.fiber)
qed

section \<open>The invariant of all interleavings\<close>

definition settled :: "transaction_direction \<Rightarrow> ledger_db \<Rightarrow> credit_request \<Rightarrow> ledger_entry \<Rightarrow> bool" where
  "settled d db r e \<longleftrightarrow> (\<exists>x. posted db (cr_reference r, d) = Some x \<and> le_id x = le_id e)"

fun fiber_ok :: "ledger_db \<Rightarrow> fiber \<Rightarrow> bool" where
  "fiber_ok db (Waiting r) = True"
| "fiber_ok db (Reads r (Existing e)) = settled CREDIT db r e"
| "fiber_ok db (Reads r (Fresh e)) = (entry_key e = (cr_reference r, CREDIT))"
| "fiber_ok db (Finished r (Inl x)) = True"
| "fiber_ok db (Finished r (Inr e)) = settled CREDIT db r e"

definition conc_ok :: "conc \<Rightarrow> bool" where
  "conc_ok c \<longleftrightarrow> ledger_ok (shared c) \<and> (\<forall>f \<in> set (fibers c). fiber_ok (shared c) f)"

definition extends_db :: "ledger_db \<Rightarrow> ledger_db \<Rightarrow> bool" where
  "extends_db db db' \<longleftrightarrow> (\<forall>k x. posted db k = Some x \<longrightarrow> posted db' k = Some x)"

lemma extends_db_refl [simp]: "extends_db db db"
  by (simp add: extends_db_def)

lemma fiber_ok_mono: "fiber_ok db f \<Longrightarrow> extends_db db db' \<Longrightarrow> fiber_ok db' f"
  by (cases "(db, f)" rule: fiber_ok.cases) (auto simp: settled_def extends_db_def)

lemma read_phase_ok:
  "ledger_ok db \<Longrightarrow> read_phase r db = Inr p \<Longrightarrow> fiber_ok db (Reads r p)"
  by (auto simp: read_phase_def allocate_prepare_def by_reference_posted settled_def entry_key_def
      split: if_splits option.splits)

lemma settled_mono: "settled d db r e \<Longrightarrow> extends_db db db' \<Longrightarrow> settled d db' r e"
  by (auto simp: settled_def extends_db_def)

lemma finish_Fresh_ok:
  assumes ok: "ledger_ok db" and key: "entry_key e = (ref, d)"
    and fin: "ledger_finish num (Fresh e) (open_session db) = (res, s)"
  shows "ledger_ok (working s) \<and> extends_db db (working s) \<and>
    (\<forall>x. res = Inr x \<longrightarrow> (\<exists>y. posted (working s) (ref, d) = Some y \<and> le_id y = le_id x))"
proof (cases "flush_entry num e db")
  case (Inr db')
  then have "res = Inr e" "working s = db'"
    using fin by (auto simp: ledger_finish_def)
  then show ?thesis
    using flush_entry_ok [OF Inr ok] Inr key
    by (auto simp: flush_entry_Inr posted_append extends_db_def)
next
  case (Inl y)
  have "by_reference ref d db = (case posted db (ref, d) of None \<Rightarrow> [] | Some e \<Rightarrow> [e])"
    using ok by (rule by_reference_posted)
  with Inl fin ok key show ?thesis
    by (cases y) (auto simp: ledger_finish_def entry_key_def split: option.splits)
qed

lemma fiber_step_ok:
  assumes ok: "ledger_ok db" and f: "fiber_ok db f" and step: "fiber_step num db f = Some (db', f')"
  shows "ledger_ok db' \<and> extends_db db db' \<and> fiber_ok db' f' \<and> fiber_request f' = fiber_request f"
proof (cases f)
  case (Waiting r)
  with ok step show ?thesis
    by (auto simp: fiber_step_def read_phase_ok split: sum.splits)
next
  case (Reads r p)
  show ?thesis
  proof (cases p)
    case (Existing e)
    with Reads ok f step show ?thesis by (auto simp: fiber_step_def ledger_finish_def)
  next
    case (Fresh e)
    obtain res s where fin: "ledger_finish num (Fresh e) (open_session db) = (res, s)"
      by fastforce
    with Reads Fresh step have "db' = working s" "f' = Finished r res"
      by (auto simp: fiber_step_def)
    moreover have "entry_key e = (cr_reference r, CREDIT)"
      using Reads Fresh f by simp
    ultimately show ?thesis
      using finish_Fresh_ok [OF ok _ fin] Reads by (cases res) (auto simp: settled_def)
  qed
next
  case (Finished r x)
  with step show ?thesis by (simp add: fiber_step_def)
qed

interpretation conc_fibers: shared_fibers "\<lambda>_. fiber_step num" ledger_ok fiber_ok extends_db
  for num
  by unfold_locales (blast dest: fiber_step_ok intro: fiber_ok_mono)+

lemma conc_step_ok [inv_intros]:
  assumes "conc_ok c" and "conc_step num c c'"
  shows "conc_ok c'"
  using assms(2)
proof (rule conc_stepE)
  fix i db f
  assume c': "c' = \<lparr>shared = db, fibers = (fibers c)[i := f]\<rparr>" and i: "i < length (fibers c)"
    and step: "fiber_step num (shared c) (fibers c ! i) = Some (db, f)"
  with assms(1) conc_fibers.advance_all [OF _ _ i step] show ?thesis by (simp add: conc_ok_def)
qed

lemma conc_start_ok [inv_intros]: "ledger_ok db \<Longrightarrow> conc_ok (conc_start db rs)"
  by (auto simp: conc_start_def conc_ok_def)

interpretation races: step_invariant "\<lambda>c. \<exists>db rs. ledger_ok db \<and> c = conc_start db rs"
    "conc_step num" conc_ok
  for num
  by unfold_locales (blast intro: conc_start_ok conc_step_ok)+

section \<open>Properties\<close>


definition race_request :: "uuid \<Rightarrow> string \<Rightarrow> rat \<Rightarrow> uuid \<Rightarrow> credit_request" where
  "race_request nid ref amount user =
     \<lparr>cr_id = nid, cr_now = 5 + uint nid, cr_user = user, cr_amount = amount, cr_source = STRIPE,
      cr_reference = ref, cr_description = None\<rparr>"

lemmas race_defs = race_request_def conc_start_def fiber_step_def read_phase_def demo_ledger_defs


text \<open>The first two credits of an account can lose an update. For an account without entries
  there is no row for \<open>FOR UPDATE\<close> to lock, and there is an interleaving of two allocations with
  different references in which both are posted and both callers succeed, but the balance is the
  second amount alone.\<close>

theorem first_allocations_lose_update:
  "\<exists>c e1 e2. (conc_step numeric_12_4)\<^sup>*\<^sup>* (conc_start (empty_ledger [7])
       [race_request 1 ''a'' 12 7, race_request 2 ''b'' 30 7]) c \<and>
     fibers c = [Finished (race_request 1 ''a'' 12 7) (Inr e1), Finished (race_request 2 ''b'' 30 7) (Inr e2)] \<and>
     get_balance (shared c) 7 = 30 \<and> account_total (shared c) 7 = 42"
proof -
  let ?c = "conc_start (empty_ledger [7]) [race_request 1 ''a'' 12 7, race_request 2 ''b'' 30 7]"
  let ?d = "run_schedule numeric_12_4 [0, 1, 0, 1] ?c"
  have "\<exists>e1 e2. fibers ?d = [Finished (race_request 1 ''a'' 12 7) (Inr e1),
      Finished (race_request 2 ''b'' 30 7) (Inr e2)]"
    by (simp add: race_defs)
  moreover have "get_balance (shared ?d) 7 = 30 \<and> account_total (shared ?d) 7 = 42"
    by (simp add: race_defs account_total_def signed_amount_def)
  ultimately show ?thesis using run_schedule_steps by blast
qed

end
