(* ===== verification/Py_Strings.thy ===== *)
theory Py_Strings
  imports Prelude
begin

text \<open>
  The string renderings the code builds keys and references from: \<open>str(uuid)\<close> (8-4-4-4-12
  hexadecimal digits), decimal numbers, and \<open>date.isoformat()\<close>. What the components rely on is
  that each is injective, so that a composed key (\<open>queue:node:<id>\<close>, \<open>job-<id>\<close>,
  \<open>payout-<node>-<month>\<close>) determines its parts.

  A \<open>date\<close> is the proleptic Gregorian date of Python's \<open>datetime\<close> module, with its ordinal
  (\<open>toordinal\<close>) and its UTC midnight.
\<close>

section \<open>Digits\<close>

fun fixed_digits :: "nat \<Rightarrow> nat \<Rightarrow> nat \<Rightarrow> nat list" where
  "fixed_digits b 0 x = []"
| "fixed_digits b (Suc n) x = fixed_digits b n (x div b) @ [x mod b]"

lemma length_fixed_digits [simp]: "length (fixed_digits b n x) = n"
  by (induction n arbitrary: x) auto

lemma fixed_digits_less: "0 < b \<Longrightarrow> d \<in> set (fixed_digits b n x) \<Longrightarrow> d < b"
  by (induction n arbitrary: x) auto

lemma fixed_digits_inj:
  "fixed_digits b n x = fixed_digits b n y \<Longrightarrow> x < b ^ n \<Longrightarrow> y < b ^ n \<Longrightarrow> x = y"
proof (induction n arbitrary: x y)
  case 0
  then show ?case by simp
next
  case (Suc n)
  then have "x div b = y div b"
    by (auto simp: less_mult_imp_div_less mult.commute)
  with Suc.prems(1) show ?case
    by (metis append1_eq_conv fixed_digits.simps(2) mod_mult_div_eq)
qed

definition digit_char :: "nat \<Rightarrow> char" where
  "digit_char d = ''0123456789abcdef'' ! d"

lemma digit_char_inj: "d < 16 \<Longrightarrow> e < 16 \<Longrightarrow> digit_char d = digit_char e \<Longrightarrow> d = e"
proof -
  have "distinct ''0123456789abcdef''" by simp
  then show "d < 16 \<Longrightarrow> e < 16 \<Longrightarrow> digit_char d = digit_char e \<Longrightarrow> d = e"
    unfolding digit_char_def by (subst (asm) nth_eq_iff_index_eq) simp_all
qed

lemma digit_char_neq [simp]: "d < 16 \<Longrightarrow> digit_char d \<noteq> CHR ''-''"
proof -
  assume "d < 16"
  then have "digit_char d \<in> set ''0123456789abcdef''"
    unfolding digit_char_def by (intro nth_mem) simp
  moreover have "CHR ''-'' \<notin> set ''0123456789abcdef''" by simp
  ultimately show ?thesis by metis
qed

lemma map_digit_char_inj:
  assumes "map digit_char xs = map digit_char ys" and "\<forall>d \<in> set xs. d < 16" and "\<forall>d \<in> set ys. d < 16"
  shows "xs = ys"
  using assms(1) by (rule map_inj_on) (use assms(2,3) in \<open>auto intro!: inj_onI digit_char_inj\<close>)

lemma render_fixed_inj:
  assumes "map digit_char (fixed_digits b n x) = map digit_char (fixed_digits b n y)"
    and "0 < b" "b \<le> 16" "x < b ^ n" "y < b ^ n"
  shows "x = y"
proof (rule fixed_digits_inj [OF _ assms(4,5)], rule map_digit_char_inj [OF assms(1)])
  show "\<forall>d \<in> set (fixed_digits b n x). d < 16" "\<forall>d \<in> set (fixed_digits b n y). d < 16"
    using fixed_digits_less [OF assms(2)] less_le_trans [OF _ assms(3)] by blast+
qed

section \<open>String methods\<close>

text \<open>\<open>s.lower()\<close>, \<open>s.strip()\<close>, \<open>s.rstrip(c)\<close>, \<open>p in s\<close>, \<open>s.startswith(p)\<close> and \<open>s.split(c)\<close>, on
  ASCII text: a character outside ASCII is neither changed by \<open>lower\<close> nor blank.\<close>

definition lower_char :: "char \<Rightarrow> char" where
  "lower_char c = (if 65 \<le> (of_char c :: nat) \<and> of_char c \<le> (90 :: nat) then char_of (of_char c + 32 :: nat) else c)"

definition py_lower :: "string \<Rightarrow> string" where
  "py_lower s = map lower_char s"

definition py_space :: "char \<Rightarrow> bool" where
  "py_space c \<longleftrightarrow> of_char c \<in> ({9, 10, 11, 12, 13, 28, 29, 30, 31, 32, 133, 160} :: nat set)"

definition py_strip :: "string \<Rightarrow> string" where
  "py_strip s = rev (dropWhile py_space (rev (dropWhile py_space s)))"

definition rstrip_char :: "char \<Rightarrow> string \<Rightarrow> string" where
  "rstrip_char c s = rev (dropWhile (\<lambda>x. x = c) (rev s))"

definition starts_with :: "string \<Rightarrow> string \<Rightarrow> bool" where
  "starts_with p s \<longleftrightarrow> take (length p) s = p"

fun has_sub :: "string \<Rightarrow> string \<Rightarrow> bool" where
  "has_sub p [] = (p = [])"
| "has_sub p (c # cs) = (starts_with p (c # cs) \<or> has_sub p cs)"

fun split_on :: "char \<Rightarrow> string \<Rightarrow> string list" where
  "split_on c [] = [[]]"
| "split_on c (x # xs) =
     (if x = c then [] # split_on c xs
      else (case split_on c xs of [] \<Rightarrow> [[x]] | w # ws \<Rightarrow> (x # w) # ws))"

fun join_with :: "char \<Rightarrow> string list \<Rightarrow> string" where
  "join_with c [] = []"
| "join_with c [w] = w"
| "join_with c (w # v # ws) = w @ c # join_with c (v # ws)"

lemma has_sub_iff: "has_sub p s \<longleftrightarrow> (\<exists>a b. s = a @ p @ b)"
proof (induction s)
  case Nil
  then show ?case by auto
next
  case (Cons c cs)
  have "starts_with p (c # cs) \<longleftrightarrow> (\<exists>b. c # cs = p @ b)"
    by (metis append_eq_conv_conj starts_with_def)
  with Cons show ?case
    by (auto simp: Cons_eq_append_conv)
qed

lemma has_sub_single [simp]: "has_sub [c] s \<longleftrightarrow> c \<in> set s"
  by (induction s) (auto simp: starts_with_def)

lemma starts_with_sep: "c \<notin> set p \<Longrightarrow> starts_with p (a @ c # b) = starts_with p a"
proof -
  assume c: "c \<notin> set p"
  show ?thesis
  proof (cases "length p \<le> length a")
    case True
    then show ?thesis by (simp add: starts_with_def)
  next
    case False
    then obtain k where k: "length p - length a = Suc k" by (metis Suc_diff_Suc not_le)
    with False c show ?thesis by (auto simp: starts_with_def)
  qed
qed

lemma has_sub_sep:
  "c \<notin> set p \<Longrightarrow> p \<noteq> [] \<Longrightarrow> has_sub p (a @ c # b) \<longleftrightarrow> has_sub p a \<or> has_sub p b"
proof (induction a)
  case Nil
  then show ?case using starts_with_sep [of c p "[]" b] by (simp add: starts_with_def)
next
  case (Cons x a)
  then show ?case using starts_with_sep [of c p "x # a" b] by simp
qed

lemma py_strip_empty_iff: "py_strip s = [] \<longleftrightarrow> (\<forall>c \<in> set s. py_space c)"
proof -
  have "py_strip s = [] \<longleftrightarrow> (\<forall>c \<in> set (dropWhile py_space s). py_space c)"
    unfolding py_strip_def rev_is_Nil_conv dropWhile_eq_Nil_conv set_rev ..
  also have "\<dots> \<longleftrightarrow> dropWhile py_space s = []"
    by (metis hd_dropWhile list.set_sel(1) empty_iff list.set(1))
  also have "\<dots> \<longleftrightarrow> (\<forall>c \<in> set s. py_space c)"
    by (rule dropWhile_eq_Nil_conv)
  finally show ?thesis .
qed

lemma split_on_nonempty [simp]: "split_on c s \<noteq> []"
  by (induction s) (auto split: list.splits)

lemma join_split [simp]: "join_with c (split_on c s) = s"
proof (induction s)
  case Nil
  then show ?case by simp
next
  case (Cons x xs)
  obtain w ws where s: "split_on c xs = w # ws" by (cases "split_on c xs") auto
  with Cons show ?case by (cases ws) auto
qed

lemma split_on_free: "w \<in> set (split_on c s) \<Longrightarrow> c \<notin> set w"
proof (induction s arbitrary: w)
  case Nil
  then show ?case by simp
next
  case (Cons x xs)
  obtain v ws where s: "split_on c xs = v # ws" by (cases "split_on c xs") auto
  from Cons.prems s Cons.IH show ?case by (auto split: if_splits)
qed

lemma split_on_no_sep: "c \<notin> set s \<Longrightarrow> split_on c s = [s]"
  by (induction s) auto

lemma split_on_append: "c \<notin> set w \<Longrightarrow> split_on c (w @ c # s) = w # split_on c s"
  by (induction w) auto

lemma split_join: "ws \<noteq> [] \<Longrightarrow> \<forall>w \<in> set ws. c \<notin> set w \<Longrightarrow> split_on c (join_with c ws) = ws"
  by (induction c ws rule: join_with.induct) (auto simp: split_on_append split_on_no_sep)

text \<open>\<open>s.replace(p, '')\<close>.\<close>

function remove_sub :: "string \<Rightarrow> string \<Rightarrow> string" where
  "remove_sub p s =
     (case s of
        [] \<Rightarrow> []
      | c # cs \<Rightarrow> if p \<noteq> [] \<and> starts_with p s then remove_sub p (drop (length p) s) else c # remove_sub p cs)"
  by pat_completeness auto
termination by (relation "measure (\<lambda>(p, s). length s)") auto

declare remove_sub.simps [simp del]

lemma remove_sub_none: "\<not> has_sub p s \<Longrightarrow> remove_sub p s = s"
  by (induction s) (simp_all add: remove_sub.simps)

section \<open>Identifiers\<close>

definition uuid_hex :: "uuid \<Rightarrow> string" where
  "uuid_hex u = map digit_char (fixed_digits 16 32 (unat u))"

definition uuid_str :: "uuid \<Rightarrow> string" where
  "uuid_str u =
     (let h = uuid_hex u
      in take 8 h @ ''-'' @ take 4 (drop 8 h) @ ''-'' @ take 4 (drop 12 h) @ ''-'' @
         take 4 (drop 16 h) @ ''-'' @ drop 20 h)"

lemma length_uuid_hex [simp]: "length (uuid_hex u) = 32"
  by (simp add: uuid_hex_def del: fixed_digits.simps)

lemma length_uuid_str [simp]: "length (uuid_str u) = 36"
  by (simp add: uuid_str_def Let_def)

lemma uuid_hex_inj: "uuid_hex u = uuid_hex v \<Longrightarrow> u = v"
proof -
  assume "uuid_hex u = uuid_hex v"
  moreover have "unat w < 16 ^ 32" for w :: uuid
    using unsigned_less [of w, where ?'a = nat] by simp
  ultimately have "unat u = unat v"
    unfolding uuid_hex_def by (intro render_fixed_inj [of 16 32]) simp_all
  then show "u = v" by (rule unsigned_word_eqI)
qed

lemma take_drop_glue: "take a (drop i xs) @ drop (i + a) xs = drop i xs"
  by (metis append_take_drop_id drop_drop add.commute)

lemma uuid_str_hex: "filter (\<lambda>c. c \<noteq> CHR ''-'') (uuid_str u) = uuid_hex u"
proof -
  have all: "c \<noteq> CHR ''-''" if "c \<in> set (uuid_hex u)" for c
    using that fixed_digits_less [of 16] unfolding uuid_hex_def
    by (auto simp del: fixed_digits.simps)
  have f: "filter (\<lambda>c. c \<noteq> CHR ''-'') xs = xs" if "set xs \<subseteq> set (uuid_hex u)" for xs
    using that all by (intro filter_True) blast
  have sub: "set (take a (drop i (uuid_hex u))) \<subseteq> set (uuid_hex u)"
    "set (drop i (uuid_hex u)) \<subseteq> set (uuid_hex u)" "set (take a (uuid_hex u)) \<subseteq> set (uuid_hex u)" for a i
    by (meson in_set_takeD in_set_dropD subsetI)+
  have "filter (\<lambda>c. c \<noteq> CHR ''-'') (uuid_str u) =
      take 8 (uuid_hex u) @ take 4 (drop 8 (uuid_hex u)) @ take 4 (drop 12 (uuid_hex u)) @
      take 4 (drop 16 (uuid_hex u)) @ drop 20 (uuid_hex u)"
    by (simp add: uuid_str_def Let_def f [OF sub(1)] f [OF sub(2)] f [OF sub(3)])
  also have "\<dots> = uuid_hex u"
    using take_drop_glue [of 4 8 "uuid_hex u"] take_drop_glue [of 4 12 "uuid_hex u"]
      take_drop_glue [of 4 16 "uuid_hex u"] by simp
  finally show ?thesis .
qed

lemma uuid_str_inj [simp]: "uuid_str u = uuid_str v \<longleftrightarrow> u = v"
  by (metis uuid_str_hex uuid_hex_inj)

lemma uuid_str_append_inj [simp]: "uuid_str u @ xs = uuid_str v @ ys \<longleftrightarrow> u = v \<and> xs = ys"
  by (subst append_eq_append_conv) auto

text \<open>\<open>int(s, 16)\<close>: blanks stripped, an optional sign and an optional prefix \<open>0x\<close>, digits of either
  case, single underscores between them (\<open>None\<close>: \<open>ValueError\<close>).\<close>

definition digit_value :: "char \<Rightarrow> nat option" where
  "digit_value c = List.find (\<lambda>d. digit_char d = lower_char c) [0..<16]"

fun parse_hex :: "nat \<Rightarrow> string \<Rightarrow> nat option" where
  "parse_hex acc [] = Some acc"
| "parse_hex acc (c # cs) =
     (case digit_value c of None \<Rightarrow> None | Some d \<Rightarrow> parse_hex (acc * 16 + d) cs)"

definition strip_braces :: "string \<Rightarrow> string" where
  "strip_braces s = rev (dropWhile (\<lambda>c. c \<in> set ''{}'') (rev (dropWhile (\<lambda>c. c \<in> set ''{}'') s)))"

fun lone_underscores :: "string \<Rightarrow> bool" where
  "lone_underscores [] = True"
| "lone_underscores [c] = (c \<noteq> CHR ''_'')"
| "lone_underscores (c # d # cs) = (\<not> (c = CHR ''_'' \<and> d = CHR ''_'') \<and> lone_underscores (d # cs))"

definition int16_digits :: "string \<Rightarrow> nat option" where
  "int16_digits s =
     (if s = [] \<or> starts_with ''_'' s \<or> \<not> lone_underscores s then None
      else parse_hex 0 (filter (\<lambda>c. c \<noteq> CHR ''_'') s))"

definition int16 :: "string \<Rightarrow> int option" where
  "int16 s =
     (let t = py_strip s;
          u = (if starts_with ''-'' t \<or> starts_with ''+'' t then drop 1 t else t);
          v = (if starts_with ''0x'' (py_lower u)
               then (if starts_with ''_'' (drop 2 u) then drop 3 u else drop 2 u) else u)
      in map_option (\<lambda>n. if starts_with ''-'' t then - int n else int n) (int16_digits v))"

text \<open>\<open>uuid.UUID(s)\<close>: the prefixes \<open>urn:\<close> and \<open>uuid:\<close>, the braces around and the hyphens are
  dropped; exactly 32 characters remain, which \<open>int(s, 16)\<close> reads as a number of 128 bits
  (\<open>None\<close>: \<open>ValueError\<close>).\<close>

definition uuid_parse :: "string \<Rightarrow> uuid option" where
  "uuid_parse s =
     (let h = filter (\<lambda>c. c \<noteq> CHR ''-'') (strip_braces (remove_sub ''uuid:'' (remove_sub ''urn:'' s)))
      in if length h \<noteq> 32 then None
         else (case int16 h of
                 None \<Rightarrow> None
               | Some i \<Rightarrow> if 0 \<le> i \<and> i < 2 ^ 128 then Some (word_of_int i) else None))"

lemma digit_value_char [simp]: "d < 16 \<Longrightarrow> digit_value (digit_char d) = Some d"
proof -
  assume d: "d < 16"
  have "\<forall>d \<in> set [0..<16]. digit_value (digit_char d) = Some d" by code_simp
  with d show ?thesis by simp
qed

lemma parse_hex_digits:
  "\<forall>d \<in> set ds. d < 16 \<Longrightarrow>
   parse_hex acc (map digit_char ds) = Some (foldl (\<lambda>a d. a * 16 + d) acc ds)"
  by (induction ds arbitrary: acc) simp_all

lemma foldl_fixed_digits: "x < b ^ n \<Longrightarrow> foldl (\<lambda>a d. a * b + d) 0 (fixed_digits b n x) = x"
proof (induction n arbitrary: x)
  case 0
  then show ?case by simp
next
  case (Suc n)
  then have "x div b < b ^ n" by (simp add: less_mult_imp_div_less mult.commute)
  with Suc.IH show ?case by simp
qed

lemma hex_chars: "c \<in> set (uuid_hex u) \<Longrightarrow> c \<in> set ''0123456789abcdef''"
proof -
  assume "c \<in> set (uuid_hex u)"
  then obtain d where "d \<in> set (fixed_digits 16 32 (unat u))" and c: "c = digit_char d"
    by (auto simp: uuid_hex_def simp del: fixed_digits.simps)
  then have "d < length ''0123456789abcdef''" using fixed_digits_less [of 16] by fastforce
  then show ?thesis unfolding c digit_char_def by (rule nth_mem)
qed

lemma uuid_str_ends:
  "\<exists>a m z. uuid_str u = a # m @ [z] \<and> a \<in> set (uuid_hex u) \<and> z \<in> set (uuid_hex u)"
proof -
  let ?h = "uuid_hex u"
  have "take 8 ?h \<noteq> []" by (simp flip: length_0_conv)
  then obtain a m where a: "take 8 ?h = a # m" by (cases "take 8 ?h") auto
  have "drop 20 ?h \<noteq> []" by simp
  then obtain m' z where z: "drop 20 ?h = m' @ [z]" by (metis rev_exhaust)
  have "a \<in> set ?h" by (metis a in_set_takeD list.set_intros(1))
  moreover have "z \<in> set ?h" by (metis z in_set_dropD in_set_conv_decomp)
  ultimately show ?thesis using a z by (auto simp: uuid_str_def Let_def)
qed

lemma uuid_str_no_colon: "CHR '':'' \<notin> set (uuid_str u)"
proof
  assume "CHR '':'' \<in> set (uuid_str u)"
  then have "CHR '':'' \<in> set (filter (\<lambda>c. c \<noteq> CHR ''-'') (uuid_str u))" by simp
  then have "CHR '':'' \<in> set (uuid_hex u)" by (simp only: uuid_str_hex)
  from hex_chars [OF this] show False by simp
qed

lemma py_strip_id: "\<forall>c \<in> set s. \<not> py_space c \<Longrightarrow> py_strip s = s"
proof -
  assume s: "\<forall>c \<in> set s. \<not> py_space c"
  have d: "dropWhile py_space xs = xs" if "\<forall>c \<in> set xs. \<not> py_space c" for xs
    using that by (cases xs) simp_all
  from s have r: "\<forall>c \<in> set (rev s). \<not> py_space c" by simp
  show "py_strip s = s" unfolding py_strip_def d [OF s] d [OF r] rev_rev_ident ..
qed

lemma lone_underscores_none: "CHR ''_'' \<notin> set s \<Longrightarrow> lone_underscores s"
  by (induction s rule: lone_underscores.induct) auto

lemma int16_hex:
  assumes "parse_hex 0 (uuid_hex u) = Some n"
  shows "int16 (uuid_hex u) = Some (int n)"
proof -
  let ?h = "uuid_hex u"
  have c: "c \<in> set ''0123456789abcdef''" if "c \<in> set ?h" for c using that by (rule hex_chars)
  have no: "c \<notin> set ?h" if "c \<notin> set ''0123456789abcdef''" for c using c that by blast
  have "length ?h = 32" by simp
  then obtain a b r where h: "?h = a # b # r" by (cases ?h; cases "tl ?h") auto
  have blank: "\<not> py_space c" if "c \<in> set ?h" for c
    using c [OF that] by (auto simp: py_space_def)
  have strip: "py_strip ?h = ?h" by (rule py_strip_id) (use blank in blast)
  have mem: "a \<in> set ?h" "b \<in> set ?h" by (simp_all add: h)
  have sign: "a \<noteq> CHR ''-''" "a \<noteq> CHR ''+''" "a \<noteq> CHR ''_''" using c [OF mem(1)] by auto
  have "lower_char b = b" "b \<noteq> CHR ''x''" using c [OF mem(2)] by (auto simp: lower_char_def)
  then have pre: "\<not> starts_with ''0x'' (py_lower ?h)" by (simp add: h starts_with_def py_lower_def)
  have us: "CHR ''_'' \<notin> set ?h" by (rule no) simp
  then have f: "filter (\<lambda>c. c \<noteq> CHR ''_'') ?h = ?h" by (intro filter_True) blast
  have st: "\<not> starts_with ''-'' ?h" "\<not> starts_with ''+'' ?h" "\<not> starts_with ''_'' ?h" "?h \<noteq> []"
    using sign by (simp_all add: h starts_with_def)
  have "int16_digits ?h = Some n"
    unfolding int16_digits_def f assms using st lone_underscores_none [OF us] by simp
  then show ?thesis
    unfolding int16_def strip Let_def using st pre by simp
qed

lemma uuid_parse_str [simp]: "uuid_parse (uuid_str u) = Some u"
proof -
  obtain a m z where e: "uuid_str u = a # m @ [z]" and mem: "a \<in> set (uuid_hex u)" "z \<in> set (uuid_hex u)"
    using uuid_str_ends by blast
  have "c \<notin> set ''{}''" if "c \<in> set (uuid_hex u)" for c
    using hex_chars [OF that] by auto
  with mem have "strip_braces (uuid_str u) = uuid_str u"
    by (simp add: strip_braces_def e)
  moreover have "remove_sub ''urn:'' (uuid_str u) = uuid_str u" "remove_sub ''uuid:'' (uuid_str u) = uuid_str u"
    using uuid_str_no_colon [of u] by (auto intro!: remove_sub_none simp: has_sub_iff)
  moreover have "parse_hex 0 (uuid_hex u) = Some (unat u)"
    using unsigned_less [of u, where ?'a = nat] fixed_digits_less [of 16]
    by (auto simp: uuid_hex_def parse_hex_digits foldl_fixed_digits simp del: fixed_digits.simps)
  then have "int16 (uuid_hex u) = Some (int (unat u))" by (rule int16_hex)
  moreover have "int (unat u) < 2 ^ 128"
    using unsigned_less [of u, where ?'a = int] by simp
  ultimately show ?thesis
    by (simp add: uuid_parse_def uuid_str_hex)
qed

section \<open>Hexadecimal bytes\<close>

text \<open>\<open>bytes.hex()\<close> and \<open>bytes.fromhex\<close> (here without blanks).\<close>

definition byte_hex :: "8 word \<Rightarrow> string" where
  "byte_hex b = map digit_char (fixed_digits 16 2 (unat b))"

definition hex_of :: "bytes \<Rightarrow> string" where
  "hex_of bs = concat (map byte_hex bs)"

fun from_hex :: "string \<Rightarrow> bytes option" where
  "from_hex [] = Some []"
| "from_hex [c] = None"
| "from_hex (c # d # cs) =
     (case (digit_value c, digit_value d, from_hex cs) of
        (Some x, Some y, Some bs) \<Rightarrow> Some (of_nat (x * 16 + y) # bs)
      | _ \<Rightarrow> None)"

lemma byte_hex_chars: "byte_hex b = [digit_char (unat b div 16), digit_char (unat b mod 16)]"
  "unat b div 16 < 16"
proof -
  have "unat b < 256" using unsigned_less [of b, where ?'a = nat] by simp
  then show "unat b div 16 < 16" by simp
  then show "byte_hex b = [digit_char (unat b div 16), digit_char (unat b mod 16)]"
    unfolding byte_hex_def numeral_2_eq_2 by simp
qed

lemma hex_of_simps [simp]: "hex_of [] = []" "hex_of (b # bs) = byte_hex b @ hex_of bs"
  by (simp_all add: hex_of_def)

lemma from_hex_of [simp]: "from_hex (hex_of bs) = Some bs"
  using byte_hex_chars by (induction bs) (simp_all add: div_mult_mod_eq)

lemma hex_of_inj [simp]: "hex_of a = hex_of b \<longleftrightarrow> a = b"
  by (metis from_hex_of option.inject)

lemma length_hex_of [simp]: "length (hex_of bs) = 2 * length bs"
  by (induction bs) (simp_all add: byte_hex_chars)

section \<open>Values of JSON as Python prints and reads them\<close>

text \<open>\<open>str(j)\<close> of a decoded value: a string is itself, anything else prints as \<open>py_str\<close> has it.\<close>

definition str_of :: "(json \<Rightarrow> string) \<Rightarrow> json \<Rightarrow> string" where
  "str_of py_str j = (case j of JStr s \<Rightarrow> s | _ \<Rightarrow> py_str j)"

text \<open>\<open>d[k]\<close> and \<open>d.get(k)\<close>: a missing key raises \<open>KeyError\<close>, another value than an object
  has no keys.\<close>

definition get_item :: "string \<Rightarrow> json \<Rightarrow> py_exc + json" where
  "get_item k j =
     (case j of
        JObj kvs \<Rightarrow> (case json_get k j of None \<Rightarrow> Inl (OtherError ''KeyError'') | Some v \<Rightarrow> Inr v)
      | _ \<Rightarrow> Inl (OtherError ''TypeError''))"

definition get_default :: "string \<Rightarrow> json \<Rightarrow> json \<Rightarrow> py_exc + json" where
  "get_default k d j =
     (case j of
        JObj kvs \<Rightarrow> Inr (case json_get k j of None \<Rightarrow> d | Some v \<Rightarrow> v)
      | _ \<Rightarrow> Inl (OtherError ''AttributeError''))"

section \<open>Decimal numbers\<close>

fun show_nat :: "nat \<Rightarrow> string" where
  "show_nat n = (if n < 10 then [digit_char n] else show_nat (n div 10) @ [digit_char (n mod 10)])"

declare show_nat.simps [simp del]

definition show_int :: "int \<Rightarrow> string" where
  "show_int i = (if i < 0 then ''-'' @ show_nat (nat (- i)) else show_nat (nat i))"

definition pad_nat :: "nat \<Rightarrow> nat \<Rightarrow> string" where
  "pad_nat n x = map digit_char (fixed_digits 10 n x)"

lemma length_pad_nat [simp]: "length (pad_nat n x) = n"
  by (simp add: pad_nat_def)

lemma pad_nat_inj: "pad_nat n x = pad_nat n y \<Longrightarrow> x < 10 ^ n \<Longrightarrow> y < 10 ^ n \<Longrightarrow> x = y"
  unfolding pad_nat_def by (rule render_fixed_inj) simp_all

text \<open>\<open>int(s)\<close>: blanks around, a sign, ASCII digits with single underscores between them, at most
  4300 of them.\<close>

definition all_digits :: "string \<Rightarrow> bool" where
  "all_digits s \<longleftrightarrow> (\<forall>c \<in> set s. c \<in> set ''0123456789'')"

definition digits_value :: "string \<Rightarrow> nat" where
  "digits_value s = foldl (\<lambda>a c. a * 10 + the (digit_value c)) 0 s"

definition strip_sign :: "string \<Rightarrow> bool \<times> string" where
  "strip_sign s = (if starts_with ''-'' s then (True, drop 1 s)
     else if starts_with ''+'' s then (False, drop 1 s) else (False, s))"

definition py_int_str :: "string \<Rightarrow> int option" where
  "py_int_str s =
     (case strip_sign (py_strip s) of (neg, t) \<Rightarrow>
        let ds = filter (\<lambda>c. c \<noteq> CHR ''_'') t
        in if ds = [] \<or> \<not> all_digits ds \<or> \<not> lone_underscores t \<or> starts_with ''_'' t \<or>
              4300 < length ds then None
           else Some (if neg then - int (digits_value ds) else int (digits_value ds)))"

text \<open>\<open>int(j)\<close> of a decoded value (\<open>None\<close>: \<open>TypeError\<close> or \<open>ValueError\<close>); a number is truncated.\<close>

fun py_int :: "json \<Rightarrow> int option" where
  "py_int (JNum n) = Some (if 0 \<le> n then floor n else - floor (- n))"
| "py_int (JBool b) = Some (if b then 1 else 0)"
| "py_int (JStr s) = py_int_str s"
| "py_int j = None"

text \<open>The elements of a printed list of strings.\<close>

fun join_quoted :: "string list \<Rightarrow> string" where
  "join_quoted [] = ''''"
| "join_quoted [x] = [CHR 39] @ x @ [CHR 39]"
| "join_quoted (x # y # zs) = [CHR 39] @ x @ [CHR 39] @ '', '' @ join_quoted (y # zs)"

section \<open>Dates\<close>

record date =
  d_year :: nat
  d_month :: nat
  d_day :: nat

definition leap :: "nat \<Rightarrow> bool" where
  "leap y \<longleftrightarrow> 4 dvd y \<and> (\<not> 100 dvd y \<or> 400 dvd y)"

definition days_in_month :: "nat \<Rightarrow> nat \<Rightarrow> nat" where
  "days_in_month y m = (if m = 2 \<and> leap y then 29 else [31,28,31,30,31,30,31,31,30,31,30,31] ! (m - 1))"

definition valid_date :: "date \<Rightarrow> bool" where
  "valid_date d \<longleftrightarrow> 1 \<le> d_year d \<and> d_year d \<le> 9999 \<and> 1 \<le> d_month d \<and> d_month d \<le> 12 \<and>
     1 \<le> d_day d \<and> d_day d \<le> days_in_month (d_year d) (d_month d)"

definition days_before_year :: "nat \<Rightarrow> int" where
  "days_before_year y =
     (let p = int y - 1 in p * 365 + p div 4 - p div 100 + p div 400)"

fun days_before_month :: "nat \<Rightarrow> nat \<Rightarrow> nat" where
  "days_before_month y 0 = 0"
| "days_before_month y (Suc m) = (if m = 0 then 0 else days_before_month y m + days_in_month y m)"

definition toordinal :: "date \<Rightarrow> int" where
  "toordinal d = days_before_year (d_year d) + int (days_before_month (d_year d) (d_month d)) + int (d_day d)"

text \<open>Midnight UTC of a date, on the clock whose zero is 1970-01-01 (ordinal 719163).\<close>

definition midnight :: "date \<Rightarrow> instant" where
  "midnight d = seconds ((toordinal d - 719163) * 86400)"

definition isoformat :: "date \<Rightarrow> string" where
  "isoformat d = pad_nat 4 (d_year d) @ ''-'' @ pad_nat 2 (d_month d) @ ''-'' @ pad_nat 2 (d_day d)"

lemma days_in_month_le: "days_in_month y m \<le> 31" if "1 \<le> m" "m \<le> 12"
proof -
  have "m - 1 < 12" using that by linarith
  then have "[31,28,31,30,31,30,31,31,30,31,30,31::nat] ! (m - 1) \<in> set [31,28,31,30,31,30,31,31,30,31,30,31]"
    by (intro nth_mem) simp
  then show ?thesis by (auto simp: days_in_month_def)
qed

lemma isoformat_inj:
  assumes "valid_date d" "valid_date e" "isoformat d = isoformat e"
  shows "d = e"
proof -
  from assms(3) have "pad_nat 4 (d_year d) = pad_nat 4 (d_year e)" "pad_nat 2 (d_month d) = pad_nat 2 (d_month e)"
    "pad_nat 2 (d_day d) = pad_nat 2 (d_day e)"
    by (simp_all add: isoformat_def)
  moreover have "d_year d < 10 ^ 4" "d_year e < 10 ^ 4" "d_month d < 10 ^ 2" "d_month e < 10 ^ 2"
    "d_day d < 10 ^ 2" "d_day e < 10 ^ 2"
    using assms(1,2) days_in_month_le [of "d_month d" "d_year d"] days_in_month_le [of "d_month e" "d_year e"]
    by (simp_all add: valid_date_def)
  ultimately show ?thesis by (auto intro!: date.equality dest: pad_nat_inj)
qed

end
