(* ===== verification/Scheduler_Models.thy ===== *)
theory Scheduler_Models
  imports Py_Strings
begin

text \<open>
  The tables of \<^verbatim>\<open>core/scheduler/models.py\<close>: edge nodes, job dispatches and the dead
  letter queue, with their status enumerations. \<open>sched_db\<close> is what a session sees of the three
  tables; rows are kept in insertion order and found by their primary key. JSON columns hold
  \<open>json\<close> values (a SQL NULL is \<open>JNull\<close>).
\<close>

section \<open>Rows\<close>

datatype node_status = REGISTERED | HEALTHY | UNHEALTHY | OFFLINE

datatype job_status = QUEUED | DISPATCHED | RUNNING | COMPLETED | FAILED

fun node_status_value :: "node_status \<Rightarrow> string" where
  "node_status_value REGISTERED = ''REGISTERED''"
| "node_status_value HEALTHY = ''HEALTHY''"
| "node_status_value UNHEALTHY = ''UNHEALTHY''"
| "node_status_value OFFLINE = ''OFFLINE''"

fun job_status_value :: "job_status \<Rightarrow> string" where
  "job_status_value QUEUED = ''QUEUED''"
| "job_status_value DISPATCHED = ''DISPATCHED''"
| "job_status_value RUNNING = ''RUNNING''"
| "job_status_value COMPLETED = ''COMPLETED''"
| "job_status_value FAILED = ''FAILED''"

definition all_job_status :: "job_status list" where
  "all_job_status = [QUEUED, DISPATCHED, RUNNING, COMPLETED, FAILED]"

definition all_node_status :: "node_status list" where
  "all_node_status = [REGISTERED, HEALTHY, UNHEALTHY, OFFLINE]"

text \<open>\<open>JobStatus(s)\<close> and \<open>NodeStatus(s)\<close>: the member of a value (\<open>None\<close>: \<open>ValueError\<close>).\<close>

definition job_status_of :: "string \<Rightarrow> job_status option" where
  "job_status_of s = List.find (\<lambda>x. job_status_value x = s) all_job_status"

definition node_status_of :: "string \<Rightarrow> node_status option" where
  "node_status_of s = List.find (\<lambda>x. node_status_value x = s) all_node_status"

lemma job_status_roundtrip [simp]: "job_status_of (job_status_value x) = Some x"
  by (cases x) (simp_all add: job_status_of_def all_job_status_def)

lemma node_status_roundtrip [simp]: "node_status_of (node_status_value x) = Some x"
  by (cases x) (simp_all add: node_status_of_def all_node_status_def)

record edge_node =
  en_id :: uuid
  en_public_key :: string
  en_name :: string
  en_capabilities :: json
  en_status :: node_status
  en_last_heartbeat :: "instant option"
  en_current_load :: pyfloat
  en_metadata :: json
  en_created_at :: instant

record job =
  j_id :: uuid
  j_node :: uuid
  j_type :: string
  j_payload :: string
  j_status :: job_status
  j_queued_at :: instant
  j_dispatched_at :: "instant option"
  j_completed_at :: "instant option"
  j_result :: "string option"
  j_error :: "string option"
  j_retry :: int
  j_created_at :: instant

record dead_letter =
  dl_id :: uuid
  dl_job :: uuid
  dl_payload :: string
  dl_errors :: "string list"
  dl_failed_at :: instant
  dl_retry :: int

record sched_db =
  sd_nodes :: "edge_node list"
  sd_jobs :: "job list"
  sd_dlq :: "dead_letter list"

section \<open>Rows by key\<close>

abbreviation job_at :: "uuid \<Rightarrow> sched_db \<Rightarrow> job option" where
  "job_at i db \<equiv> row_at j_id i (sd_jobs db)"

abbreviation node_at :: "uuid \<Rightarrow> sched_db \<Rightarrow> edge_node option" where
  "node_at i db \<equiv> row_at en_id i (sd_nodes db)"

definition put_job :: "job \<Rightarrow> sched_db \<Rightarrow> sched_db" where
  "put_job j db = db\<lparr>sd_jobs := row_update j_id (j_id j) (\<lambda>_. j) (sd_jobs db)\<rparr>"

definition put_node :: "edge_node \<Rightarrow> sched_db \<Rightarrow> sched_db" where
  "put_node n db = db\<lparr>sd_nodes := row_update en_id (en_id n) (\<lambda>_. n) (sd_nodes db)\<rparr>"

lemma row_update_const_at:
  "row_at key i (row_update key (key x) (\<lambda>_. x) rows) =
     (if i = key x then map_option (\<lambda>_. x) (row_at key i rows) else row_at key i rows)"
  by (induction rows) auto

lemma row_update_const_keys:
  "map key (row_update key (key x) (\<lambda>_. x) rows) = map key rows"
  by (induction rows) auto

lemma put_job_simps [simp, table_simps]:
  "sd_nodes (put_job j db) = sd_nodes db"
  "sd_dlq (put_job j db) = sd_dlq db"
  "job_at i (put_job j db) = (if i = j_id j then map_option (\<lambda>_. j) (job_at i db) else job_at i db)"
  "map j_id (sd_jobs (put_job j db)) = map j_id (sd_jobs db)"
  by (simp_all add: put_job_def row_update_const_at row_update_const_keys)

lemma put_node_simps [simp, table_simps]:
  "sd_jobs (put_node n db) = sd_jobs db"
  "sd_dlq (put_node n db) = sd_dlq db"
  "node_at i (put_node n db) =
     (if i = en_id n then map_option (\<lambda>_. n) (node_at i db) else node_at i db)"
  "map en_id (sd_nodes (put_node n db)) = map en_id (sd_nodes db)"
  by (simp_all add: put_node_def row_update_const_at row_update_const_keys)

lemma put_job_in: "x \<in> set (sd_jobs (put_job j db)) \<Longrightarrow> x = j \<or> x \<in> set (sd_jobs db)"
  by (auto simp: put_job_def dest: row_update_in)

lemma put_node_in: "x \<in> set (sd_nodes (put_node n db)) \<Longrightarrow> x = n \<or> x \<in> set (sd_nodes db)"
  by (auto simp: put_node_def dest: row_update_in)

lemma job_at_id: "job_at i db = Some j \<Longrightarrow> j_id j = i"
  by (drule row_at_SomeD) simp

lemma put_job_same [simp]: "job_at (j_id j) db \<noteq> None \<Longrightarrow> job_at (j_id j) (put_job j db) = Some j"
  by auto

end
