(* ===== verification/Jobs.thy ===== *)
theory Jobs
  imports Scheduler_Models
begin

text \<open>
  The job life cycle of \<^verbatim>\<open>core/scheduler/job_service.py\<close>: the transition table and the service
  functions on the job table. A function that raises leaves the database as it is and is
  the value \<open>Inl\<close>; one that returns gives its result and the new database. The clock reading
  \<open>now\<close> is an argument.
\<close>

section \<open>The state machine\<close>

fun valid_transitions :: "job_status \<Rightarrow> job_status set" where
  "valid_transitions QUEUED = {DISPATCHED, FAILED}"
| "valid_transitions DISPATCHED = {RUNNING, FAILED, QUEUED}"
| "valid_transitions RUNNING = {COMPLETED, FAILED}"
| "valid_transitions COMPLETED = {}"
| "valid_transitions FAILED = {QUEUED}"

text \<open>The allowed targets as the error message lists them: sorted by value.\<close>

definition status_order :: "job_status list" where
  "status_order = [COMPLETED, DISPATCHED, FAILED, QUEUED, RUNNING]"

definition allowed_targets :: "job_status \<Rightarrow> string" where
  "allowed_targets old =
     (if valid_transitions old = {} then ''(terminal)''
      else ''['' @ join_quoted (map job_status_value
             (filter (\<lambda>s. s \<in> valid_transitions old) status_order)) @ '']'')"

definition job_not_found :: "uuid \<Rightarrow> py_exc" where
  "job_not_found i = ValueError (''Job not found: '' @ uuid_str i)"

definition invalid_transition :: "job_status \<Rightarrow> job_status \<Rightarrow> py_exc" where
  "invalid_transition old new = ValueError (''Invalid transition: '' @ job_status_value old @
     '' -> '' @ job_status_value new @ ''. Allowed targets: '' @ allowed_targets old)"

section \<open>Service functions\<close>

definition transition_job ::
  "instant \<Rightarrow> job_status \<Rightarrow> string option \<Rightarrow> string option \<Rightarrow> job \<Rightarrow> job" where
  "transition_job now new result err j =
     (let j1 = (if new = DISPATCHED then j\<lparr>j_dispatched_at := Some now\<rparr> else j);
          j2 = (if new \<in> {COMPLETED, FAILED} then j1\<lparr>j_completed_at := Some now\<rparr> else j1);
          j3 = (if new = COMPLETED \<and> result \<noteq> None then j2\<lparr>j_result := result\<rparr> else j2);
          j4 = (if new = FAILED \<and> err \<noteq> None then j3\<lparr>j_error := err\<rparr> else j3);
          j5 = (if new = QUEUED \<and> j_status j \<in> {FAILED, DISPATCHED}
                then j4\<lparr>j_retry := j_retry j + 1\<rparr> else j4)
      in j5\<lparr>j_status := new\<rparr>)"

definition update_job_status ::
  "instant \<Rightarrow> uuid \<Rightarrow> job_status \<Rightarrow> string option \<Rightarrow> string option \<Rightarrow> sched_db \<Rightarrow>
   py_exc + job \<times> sched_db" where
  "update_job_status now i new result err db =
     (case job_at i db of
        None \<Rightarrow> Inl (job_not_found i)
      | Some j \<Rightarrow>
          if new \<notin> valid_transitions (j_status j) then Inl (invalid_transition (j_status j) new)
          else let j' = transition_job now new result err j in Inr (j', put_job j' db))"

definition get_job :: "uuid \<Rightarrow> sched_db \<Rightarrow> job option" where
  "get_job i db = job_at i db"

definition list_jobs :: "job_status option \<Rightarrow> nat \<Rightarrow> nat \<Rightarrow> sched_db \<Rightarrow> job list" where
  "list_jobs status limit offset db =
     (let rows = sort_key (\<lambda>j. - j_created_at j) (sd_jobs db);
          rows = (case status of None \<Rightarrow> rows | Some s \<Rightarrow> filter (\<lambda>j. j_status j = s) rows)
      in take limit (drop offset rows))"

definition cannot_cancel :: "job_status \<Rightarrow> py_exc" where
  "cannot_cancel s = ValueError (''Cannot cancel job in '' @ job_status_value s @
     '' state. Only QUEUED or DISPATCHED jobs can be cancelled.'')"

definition cancelled :: "instant \<Rightarrow> job \<Rightarrow> job" where
  "cancelled now j = j\<lparr>j_status := FAILED, j_completed_at := Some now,
     j_error := Some ''Cancelled by user''\<rparr>"

definition cancel_job :: "instant \<Rightarrow> uuid \<Rightarrow> sched_db \<Rightarrow> py_exc + job \<times> sched_db" where
  "cancel_job now i db =
     (case job_at i db of
        None \<Rightarrow> Inl (job_not_found i)
      | Some j \<Rightarrow>
          if j_status j \<notin> {QUEUED, DISPATCHED} then Inl (cannot_cancel (j_status j))
          else Inr (cancelled now j, put_job (cancelled now j) db))"

section \<open>Facts of one call\<close>

lemma transition_job_simps [simp]:
  "j_id (transition_job now new r e j) = j_id j"
  "j_node (transition_job now new r e j) = j_node j"
  "j_type (transition_job now new r e j) = j_type j"
  "j_payload (transition_job now new r e j) = j_payload j"
  "j_status (transition_job now new r e j) = new"
  "j_queued_at (transition_job now new r e j) = j_queued_at j"
  "j_created_at (transition_job now new r e j) = j_created_at j"
  "j_retry (transition_job now new r e j) =
     (if new = QUEUED \<and> j_status j \<in> {FAILED, DISPATCHED} then j_retry j + 1 else j_retry j)"
  "j_dispatched_at (transition_job now new r e j) =
     (if new = DISPATCHED then Some now else j_dispatched_at j)"
  "j_completed_at (transition_job now new r e j) =
     (if new = COMPLETED \<or> new = FAILED then Some now else j_completed_at j)"
  "j_result (transition_job now new r e j) =
     (if new = COMPLETED \<and> r \<noteq> None then r else j_result j)"
  "j_error (transition_job now new r e j) = (if new = FAILED \<and> e \<noteq> None then e else j_error j)"
  by (auto simp: transition_job_def Let_def)

lemma cancelled_simps [simp]:
  "j_id (cancelled now j) = j_id j"
  "j_status (cancelled now j) = FAILED"
  "j_retry (cancelled now j) = j_retry j"
  "j_dispatched_at (cancelled now j) = j_dispatched_at j"
  "j_completed_at (cancelled now j) = Some now"
  by (simp_all add: cancelled_def)

lemma update_job_status_Inr:
  "update_job_status now i new r e db = Inr (j', db') \<longleftrightarrow>
     (\<exists>j. job_at i db = Some j \<and> new \<in> valid_transitions (j_status j) \<and>
        j' = transition_job now new r e j \<and> db' = put_job j' db)"
  by (auto simp: update_job_status_def Let_def split: option.splits)

lemma cancel_job_Inr:
  "cancel_job now i db = Inr (j', db') \<longleftrightarrow>
     (\<exists>j. job_at i db = Some j \<and> j_status j \<in> {QUEUED, DISPATCHED} \<and>
        j' = cancelled now j \<and> db' = put_job j' db)"
  by (auto simp: cancel_job_def split: option.splits)

text \<open>The cancellable states are those from which the state machine reaches \<open>FAILED\<close> before
  the job runs.\<close>

lemma cancel_is_transition:
  "cancel_job now i db = Inr (j', db') \<Longrightarrow>
   update_job_status now i FAILED None (Some ''Cancelled by user'') db = Inr (j', db')"
  by (auto simp: cancel_job_Inr update_job_status_Inr transition_job_def cancelled_def Let_def)

section \<open>Well-formed jobs\<close>

text \<open>What the life cycle keeps of a row: a job that runs or completed was dispatched, a job
  that ended has its completion time, and the retry counter is not negative.\<close>

definition job_ok :: "job \<Rightarrow> bool" where
  "job_ok j \<longleftrightarrow> 0 \<le> j_retry j \<and>
     (j_status j \<in> {DISPATCHED, RUNNING, COMPLETED} \<longrightarrow> j_dispatched_at j \<noteq> None) \<and>
     (j_status j \<in> {COMPLETED, FAILED} \<longrightarrow> j_completed_at j \<noteq> None)"

definition jobs_ok :: "sched_db \<Rightarrow> bool" where
  "jobs_ok db \<longleftrightarrow> distinct (map j_id (sd_jobs db)) \<and> (\<forall>j \<in> set (sd_jobs db). job_ok j)"

lemma jobs_okD: "jobs_ok db \<Longrightarrow> job_at i db = Some j \<Longrightarrow> job_ok j"
  by (auto simp: jobs_ok_def dest: row_at_SomeD)

lemma put_job_ok [inv_intros]: "jobs_ok db \<Longrightarrow> job_ok j \<Longrightarrow> jobs_ok (put_job j db)"
  by (auto simp: jobs_ok_def dest: put_job_in)

lemma transition_job_ok [inv_intros]:
  "job_ok j \<Longrightarrow> new \<in> valid_transitions (j_status j) \<Longrightarrow> job_ok (transition_job now new r e j)"
  by (cases "j_status j") (auto simp: job_ok_def)

lemma update_job_status_ok [inv_intros]:
  "update_job_status now i new r e db = Inr (j', db') \<Longrightarrow> jobs_ok db \<Longrightarrow> jobs_ok db'"
  by (auto simp: update_job_status_Inr intro: put_job_ok transition_job_ok jobs_okD)

lemma cancelled_ok [inv_intros]: "job_ok j \<Longrightarrow> job_ok (cancelled now j)"
  by (auto simp: job_ok_def)

lemma cancel_job_ok [inv_intros]:
  "cancel_job now i db = Inr (j', db') \<Longrightarrow> jobs_ok db \<Longrightarrow> jobs_ok db'"
  by (auto simp: cancel_job_Inr intro: put_job_ok cancelled_ok jobs_okD)

end
