(* ===== verification/Dispatch.thy ===== *)
theory Dispatch
  imports Jobs
begin

text \<open>
  The scheduler of \<^verbatim>\<open>core/scheduler/dispatch.py\<close>: node selection, the per-node Redis queue and
  the dispatch of a job, with its endpoint. \<open>queues\<close> is what Redis holds under each list key;
  \<open>up\<close> says whether Redis answers a call. A queued message is the JSON object the code dumps.
\<close>

section \<open>Node selection\<close>

fun has_capability :: "string \<Rightarrow> json \<Rightarrow> bool" where
  "has_capability job_type (JArr xs) = (JStr job_type \<in> set xs)"
| "has_capability job_type j = False"

definition find_best_node :: "string \<Rightarrow> sched_db \<Rightarrow> edge_node option" where
  "find_best_node job_type db =
     List.find (\<lambda>n. has_capability job_type (en_capabilities n))
       (sort_key en_current_load (filter (\<lambda>n. en_status n = HEALTHY) (sd_nodes db)))"

definition eligible :: "string \<Rightarrow> sched_db \<Rightarrow> edge_node \<Rightarrow> bool" where
  "eligible job_type db n \<longleftrightarrow>
     n \<in> set (sd_nodes db) \<and> en_status n = HEALTHY \<and> has_capability job_type (en_capabilities n)"

lemma find_sorted_least:
  "sorted (map f xs) \<Longrightarrow> List.find P xs = Some x \<Longrightarrow> y \<in> set xs \<Longrightarrow> P y \<Longrightarrow> f x \<le> f y"
  by (induction xs) (auto split: if_splits)

lemma find_best_node_None: "find_best_node t db = None \<longleftrightarrow> (\<forall>n. \<not> eligible t db n)"
  by (auto simp: find_best_node_def eligible_def find_None_iff)

lemma find_best_node_Some:
  assumes "find_best_node t db = Some n"
  shows "eligible t db n" and "eligible t db m \<Longrightarrow> en_current_load n \<le> en_current_load m"
proof -
  let ?xs = "sort_key en_current_load (filter (\<lambda>n. en_status n = HEALTHY) (sd_nodes db))"
  have f: "List.find (\<lambda>n. has_capability t (en_capabilities n)) ?xs = Some n"
    using assms by (simp add: find_best_node_def)
  then show "eligible t db n"
    by (auto simp: eligible_def dest: find_SomeD)
  show "en_current_load n \<le> en_current_load m" if "eligible t db m"
    by (rule find_sorted_least [OF _ f]) (use that in \<open>auto simp: eligible_def\<close>)
qed

lemma find_best_node_at:
  "find_best_node t db = Some n \<Longrightarrow> \<exists>m. node_at (en_id n) db = Some m"
  using find_best_node_Some(1) [of t db n] row_at_None_iff [of en_id "en_id n" "sd_nodes db"]
  by (auto simp: eligible_def)

section \<open>The queue\<close>

type_synonym queues = "string \<Rightarrow> json list"

definition queue_key :: "uuid \<Rightarrow> string" where
  "queue_key node = ''queue:node:'' @ uuid_str node"

definition queue_message :: "uuid \<Rightarrow> string \<Rightarrow> string \<Rightarrow> json" where
  "queue_message job_id job_type payload =
     JObj [(''job_id'', JStr (uuid_str job_id)), (''job_type'', JStr job_type),
           (''payload_ref'', JStr payload)]"

definition push_to_queue ::
  "bool \<Rightarrow> uuid \<Rightarrow> uuid \<Rightarrow> string \<Rightarrow> string \<Rightarrow> queues \<Rightarrow> bool \<times> queues" where
  "push_to_queue up node job_id job_type payload q =
     (if up then (True, q(queue_key node := q (queue_key node) @ [queue_message job_id job_type payload]))
      else (False, q))"

lemma queue_key_inj [simp]: "queue_key a = queue_key b \<longleftrightarrow> a = b"
  by (simp add: queue_key_def)

lemma queue_message_inj [simp]:
  "queue_message i t p = queue_message i' t' p' \<longleftrightarrow> i = i' \<and> t = t' \<and> p = p'"
  by (simp add: queue_message_def)

section \<open>Dispatch\<close>

definition no_node :: "string \<Rightarrow> py_exc" where
  "no_node job_type = HTTPException 503 (''No healthy nodes available for job type: '' @ job_type)"

definition new_job :: "uuid \<Rightarrow> instant \<Rightarrow> uuid \<Rightarrow> string \<Rightarrow> string \<Rightarrow> job" where
  "new_job jid now node job_type payload =
     \<lparr>j_id = jid, j_node = node, j_type = job_type, j_payload = payload, j_status = DISPATCHED,
      j_queued_at = now, j_dispatched_at = Some now, j_completed_at = None, j_result = None,
      j_error = None, j_retry = 0, j_created_at = now\<rparr>"

definition add_job :: "job \<Rightarrow> sched_db \<Rightarrow> sched_db" where
  "add_job j db = db\<lparr>sd_jobs := sd_jobs db @ [j]\<rparr>"

definition dispatch_job ::
  "uuid \<Rightarrow> instant \<Rightarrow> bool \<Rightarrow> string \<Rightarrow> string \<Rightarrow> sched_db \<times> queues \<Rightarrow>
   (py_exc + job) \<times> sched_db \<times> queues" where
  "dispatch_job jid now up job_type payload w =
     (case find_best_node job_type (fst w) of
        None \<Rightarrow> (Inl (no_node job_type), w)
      | Some n \<Rightarrow>
          let j = new_job jid now (en_id n) job_type payload
          in (Inr j, add_job j (fst w), snd (push_to_queue up (en_id n) jid job_type payload (snd w))))"

text \<open>The endpoint \<open>POST /jobs/dispatch\<close>: request validation, the service call, the commit
  (\<open>commit_ok\<close>: whether the database accepts it) and the response.\<close>

record dispatch_response =
  dr_job :: string
  dr_node :: string
  dr_status :: string

definition valid_dispatch_request :: "string \<Rightarrow> string \<Rightarrow> bool" where
  [simp]: "valid_dispatch_request job_type payload \<longleftrightarrow>
     job_type \<noteq> [] \<and> length job_type \<le> 100 \<and> payload \<noteq> [] \<and> length payload \<le> 500"

definition dispatch ::
  "uuid \<Rightarrow> instant \<Rightarrow> bool \<Rightarrow> bool \<Rightarrow> string \<Rightarrow> string \<Rightarrow> sched_db session \<times> queues \<Rightarrow>
   (py_exc + dispatch_response) \<times> sched_db session \<times> queues" where
  "dispatch jid now up commit_ok job_type payload w =
     (if \<not> valid_dispatch_request job_type payload
      then (Inl (HTTPException 422 ''validation error''), w)
      else case dispatch_job jid now up job_type payload (working (fst w), snd w) of
             (Inl x, _) \<Rightarrow> (Inl x, w)
           | (Inr j, db, q) \<Rightarrow>
               let s = (fst w)\<lparr>working := db\<rparr>
               in if commit_ok
                  then (Inr \<lparr>dr_job = uuid_str (j_id j), dr_node = uuid_str (j_node j),
                             dr_status = job_status_value (j_status j)\<rparr>, commit s, q)
                  else (Inl (OtherError ''commit''), rollback s, q))"

lemma new_job_simps [simp]:
  "j_id (new_job i now n t p) = i" "j_node (new_job i now n t p) = n"
  "j_type (new_job i now n t p) = t" "j_payload (new_job i now n t p) = p"
  "j_status (new_job i now n t p) = DISPATCHED" "j_retry (new_job i now n t p) = 0"
  "job_ok (new_job i now n t p)"
  by (simp_all add: new_job_def job_ok_def)

lemma add_job_simps [simp, table_simps]:
  "sd_nodes (add_job j db) = sd_nodes db" "sd_dlq (add_job j db) = sd_dlq db"
  "job_at i (add_job j db) =
     (case job_at i db of None \<Rightarrow> (if j_id j = i then Some j else None) | Some x \<Rightarrow> Some x)"
  by (simp_all add: add_job_def row_at_append split: option.splits)

lemma add_job_ok [inv_intros]:
  "jobs_ok db \<Longrightarrow> job_ok j \<Longrightarrow> job_at (j_id j) db = None \<Longrightarrow> jobs_ok (add_job j db)"
  by (auto simp: jobs_ok_def add_job_def row_at_None_iff)

lemma dispatch_job_ok [inv_intros]:
  "dispatch_job i now up t p (db, q) = (r, db', q') \<Longrightarrow> jobs_ok db \<Longrightarrow> job_at i db = None \<Longrightarrow>
   jobs_ok db'"
  by (auto simp: dispatch_job_def Let_def split: option.splits intro: add_job_ok)

section \<open>Properties\<close>

text \<open>\<open>find_best_node\<close> is least-loaded scheduling: it finds a node exactly when a HEALTHY node
  lists the job type among its capabilities, the node found is one, and no eligible node has a
  smaller load (in the column's order, where a NaN load comes last).\<close>

theorem find_best_node_least_loaded:
  "(find_best_node t db = None \<longleftrightarrow> (\<forall>n. \<not> eligible t db n)) \<and>
   (\<forall>n m. find_best_node t db = Some n \<longrightarrow> eligible t db m \<longrightarrow>
      eligible t db n \<and> en_current_load n \<le> en_current_load m)"
  using find_best_node_None find_best_node_Some by blast

definition demo_node :: "uuid \<Rightarrow> rat \<Rightarrow> string \<Rightarrow> edge_node" where
  "demo_node i load cap = \<lparr>en_id = i, en_public_key = ''pk'', en_name = ''n'',
     en_capabilities = JArr [JStr cap], en_status = HEALTHY, en_last_heartbeat = Some 0,
     en_current_load = Fin load, en_metadata = JObj [], en_created_at = 0\<rparr>"

definition demo_fleet :: sched_db where
  "demo_fleet = \<lparr>sd_nodes = [demo_node 1 (1/2) ''render'', demo_node 2 (1/4) ''render'',
     demo_node 3 0 ''echo''], sd_jobs = [], sd_dlq = []\<rparr>"

lemma demo_best: "find_best_node ''render'' demo_fleet = Some (demo_node 2 (1/4) ''render'')"
  by (simp add: find_best_node_def demo_fleet_def demo_node_def)

theorem find_best_node_least_loaded_witness:
  "eligible ''render'' demo_fleet (demo_node 2 (1/4) ''render'') \<and>
   en_current_load (demo_node 2 (1/4) ''render'') \<le> en_current_load (demo_node 1 (1/2) ''render'')"
proof -
  have "eligible ''render'' demo_fleet (demo_node 1 (1/2) ''render'')"
    by (simp add: eligible_def demo_fleet_def demo_node_def)
  then show ?thesis
    using find_best_node_least_loaded [of "''render''" demo_fleet] demo_best by blast
qed

text \<open>C18: a dispatch records one job and queues it once. When it returns, the job is DISPATCHED on
  an eligible node and is the only change of the database; if Redis answers, the queue of that
  node, and no other, gains exactly the message of that job, and if Redis does not answer the
  job is recorded all the same and no queue changes. Without an eligible node the call raises
  503 and changes nothing.\<close>

theorem dispatch_job_effect:
  assumes "job_at jid db = None"
    and "dispatch_job jid now up job_type payload (db, q) = (r, db', q')"
  shows "(case r of
      Inl x \<Rightarrow> x = no_node job_type \<and> (\<forall>n. \<not> eligible job_type db n) \<and> db' = db \<and> q' = q
    | Inr j \<Rightarrow> (\<exists>n. eligible job_type db n \<and> j_node j = en_id n) \<and> j_status j = DISPATCHED \<and>
        job_at jid db' = Some j \<and> (\<forall>i. i \<noteq> jid \<longrightarrow> job_at i db' = job_at i db) \<and>
        sd_nodes db' = sd_nodes db \<and>
        (\<forall>node. q' (queue_key node) = q (queue_key node) @
           (if up \<and> node = j_node j then [queue_message jid job_type payload] else [])))"
proof (cases "find_best_node job_type db")
  case None
  with assms show ?thesis by (auto simp: dispatch_job_def find_best_node_None)
next
  case (Some n)
  with assms find_best_node_Some(1) [OF Some] show ?thesis
    by (auto simp: dispatch_job_def push_to_queue_def Let_def split: option.splits)
qed

theorem dispatch_job_effect_witness:
  "\<exists>db' q' j. dispatch_job 9 100 True ''render'' ''s3://a'' (demo_fleet, \<lambda>_. []) = (Inr j, db', q') \<and>
     job_at 9 db' = Some j \<and> q' (queue_key (j_node j)) = [queue_message 9 ''render'' ''s3://a'']"
proof -
  obtain r db' q' where call:
    "dispatch_job 9 100 True ''render'' ''s3://a'' (demo_fleet, \<lambda>_. []) = (r, db', q')"
    using prod_cases3 by blast
  then obtain j where "r = Inr j" by (auto simp: dispatch_job_def demo_best Let_def)
  with call dispatch_job_effect [OF _ call] show ?thesis by (simp add: demo_fleet_def)
qed

text \<open>The queue is written before the commit. When the commit of an otherwise valid dispatch
  fails, the database has no job, but the node's queue holds the message of that job: a worker
  may run a job the gateway does not know.\<close>

theorem dispatch_queues_before_commit:
  assumes "job_type \<noteq> []" "length job_type \<le> 100" "payload \<noteq> []" "length payload \<le> 500"
    and "find_best_node job_type db = Some n" and "job_at jid db = None"
  shows "\<exists>x s q'. dispatch jid now True False job_type payload (open_session db, q) = (Inl x, s, q') \<and>
     job_at jid (committed s) = None \<and> job_at jid (working s) = None \<and>
     queue_message jid job_type payload \<in> set (q' (queue_key (en_id n)))"
  using assms by (simp add: dispatch_def dispatch_job_def push_to_queue_def Let_def)

theorem dispatch_queues_before_commit_witness:
  "\<exists>x s q'. dispatch 9 100 True False ''render'' ''s3://a'' (open_session demo_fleet, \<lambda>_. []) =
       (Inl x, s, q') \<and>
     job_at 9 (committed s) = None \<and> job_at 9 (working s) = None \<and>
     queue_message 9 ''render'' ''s3://a'' \<in>
       set (q' (queue_key (en_id (demo_node 2 (1/4) ''render''))))"
  by (rule dispatch_queues_before_commit) (simp_all add: demo_best, simp add: demo_fleet_def)

end
