(* ===== verification/Retry.thy ===== *)
theory Retry
  imports Dispatch
begin

text \<open>
  Retries and the dead letter queue of \<^verbatim>\<open>core/scheduler/retry.py\<close>. The job argument is the
  session's object of the row, so it is the row of its identifier. \<open>schedule_retry\<close> composes
  \<open>update_job_status\<close>, \<open>find_best_node\<close> and \<open>push_to_queue\<close> as the code does; the backoff is only
  computed for the log, the re-dispatch happens at once.
\<close>

definition max_retries :: int where
  "max_retries = 3"

definition should_retry :: "job \<Rightarrow> bool" where
  "should_retry j \<longleftrightarrow> j_retry j < max_retries"

definition calculate_backoff :: "int \<Rightarrow> rat" where
  "calculate_backoff n = (if 0 \<le> n then 2 ^ nat n else 1 / 2 ^ nat (- n))"

section \<open>The dead letter queue\<close>

definition error_history :: "job \<Rightarrow> string \<Rightarrow> string list" where
  "error_history j err =
     (case j_error j of
        Some m \<Rightarrow> (if m \<noteq> [] \<and> m \<noteq> err then [m] else [])
      | None \<Rightarrow> []) @ [err]"

definition add_dead_letter :: "dead_letter \<Rightarrow> sched_db \<Rightarrow> sched_db" where
  "add_dead_letter d db = db\<lparr>sd_dlq := sd_dlq db @ [d]\<rparr>"

definition move_to_dlq ::
  "uuid \<Rightarrow> instant \<Rightarrow> job \<Rightarrow> string \<Rightarrow> sched_db \<Rightarrow> py_exc + dead_letter \<times> sched_db" where
  "move_to_dlq did now j err db =
     err_bind
       (if j_status j \<noteq> FAILED then update_job_status now (j_id j) FAILED None (Some err) db
        else let j' = j\<lparr>j_error := Some err\<rparr> in Inr (j', put_job j' db))
       (\<lambda>(j', db').
          let d = \<lparr>dl_id = did, dl_job = j_id j', dl_payload = j_payload j',
                   dl_errors = error_history j err, dl_failed_at = now, dl_retry = j_retry j'\<rparr>
          in Inr (d, add_dead_letter d db'))"

section \<open>Retries\<close>

datatype retry_result = Retried job | Dead dead_letter

definition requeue :: "instant \<Rightarrow> job \<Rightarrow> string \<Rightarrow> sched_db \<Rightarrow> py_exc + job \<times> sched_db" where
  "requeue now j err db =
     err_bind
       (if j_status j \<noteq> FAILED then update_job_status now (j_id j) FAILED None (Some err) db
        else Inr (j, db))
       (\<lambda>(j1, db1). update_job_status now (j_id j1) QUEUED None None db1)"

definition redispatch :: "bool \<Rightarrow> job \<Rightarrow> sched_db \<times> queues \<Rightarrow> job \<times> sched_db \<times> queues" where
  "redispatch up j w =
     (case find_best_node (j_type j) (fst w) of
        None \<Rightarrow> (j, w)
      | Some n \<Rightarrow>
          let j' = j\<lparr>j_node := en_id n\<rparr>
          in (j', put_job j' (fst w),
              snd (push_to_queue up (en_id n) (j_id j') (j_type j') (j_payload j') (snd w))))"

definition schedule_retry ::
  "uuid \<Rightarrow> instant \<Rightarrow> bool \<Rightarrow> job \<Rightarrow> string \<Rightarrow> sched_db \<times> queues \<Rightarrow>
   py_exc + retry_result \<times> sched_db \<times> queues" where
  "schedule_retry did now up j err w =
     (if should_retry j then
        err_bind (requeue now j err (fst w))
          (\<lambda>(j1, db1). case redispatch up j1 (db1, snd w) of (j2, w2) \<Rightarrow> Inr (Retried j2, w2))
      else err_bind (move_to_dlq did now j err (fst w)) (\<lambda>(d, db1). Inr (Dead d, db1, snd w)))"

section \<open>Facts of one call\<close>

lemma requeue_row:
  assumes "job_at (j_id j) db = Some j" and "j_status j \<noteq> COMPLETED" and "jobs_ok db"
  obtains j1 where "requeue now j err db = Inr (j1, put_job j1 db)" and "j_id j1 = j_id j"
    and "j_status j1 = QUEUED" and "j_retry j1 = j_retry j + 1" and "j_type j1 = j_type j"
    and "j_payload j1 = j_payload j" and "job_ok j1"
proof -
  let ?f = "transition_job now FAILED None (Some err) j"
  define jf where "jf = (if j_status j = FAILED then j else ?f)"
  let ?q = "transition_job now QUEUED None None jf"
  have okj: "job_ok j" using assms by (simp add: jobs_okD)
  have put2: "put_job ?q (put_job ?f db) = put_job ?q db"
    by (auto simp: put_job_def row_update_def jf_def)
  have "FAILED \<in> valid_transitions (j_status j)" if "j_status j \<noteq> FAILED"
    using that assms(2) by (cases "j_status j") auto
  then have "requeue now j err db = Inr (?q, put_job ?q db)"
    using assms(1) put2
    by (auto simp: requeue_def update_job_status_def Let_def jf_def)
  moreover have "job_ok jf"
    using okj by (auto simp: jf_def job_ok_def)
  then have "job_ok ?q" by (rule transition_job_ok) (simp add: jf_def)
  ultimately show ?thesis
    by (intro that [of ?q]) (simp_all add: jf_def)
qed

lemma redispatch_row:
  "case redispatch up j (put_job j db, q) of (j', db', q') \<Rightarrow>
     j_id j' = j_id j \<and> j_status j' = j_status j \<and> j_retry j' = j_retry j \<and>
     db' = put_job j' db \<and> (job_ok j \<longrightarrow> job_ok j')"
proof -
  have "put_job (j\<lparr>j_node := n\<rparr>) (put_job j db) = put_job (j\<lparr>j_node := n\<rparr>) db" for n
    by (auto simp: put_job_def row_update_def)
  then show ?thesis
    by (auto simp: redispatch_def Let_def job_ok_def split: option.splits)
qed

text \<open>A failure of a job that is not COMPLETED, with retries left.\<close>

lemma schedule_retry_retries:
  assumes "job_at (j_id j) db = Some j" "j_status j \<noteq> COMPLETED" "jobs_ok db" "should_retry j"
  obtains j' q' where "schedule_retry did now up j err (db, q) = Inr (Retried j', put_job j' db, q')"
    and "j_id j' = j_id j" and "j_status j' = QUEUED" and "j_retry j' = j_retry j + 1" and "job_ok j'"
proof -
  obtain j1 where j1: "requeue now j err db = Inr (j1, put_job j1 db)" "j_id j1 = j_id j"
      "j_status j1 = QUEUED" "j_retry j1 = j_retry j + 1" "job_ok j1"
    by (rule requeue_row [OF assms(1-3)])
  obtain j' db' q' where "redispatch up j1 (put_job j1 db, q) = (j', db', q')"
    using prod_cases3 by blast
  with redispatch_row [where up = up and j = j1 and db = db and q = q] j1 show ?thesis
    using assms(4) by (intro that [of j' q']) (auto simp: schedule_retry_def)
qed

text \<open>A failure of a job that is not COMPLETED and has no retries left.\<close>

lemma schedule_retry_dead:
  assumes "job_at (j_id j) db = Some j" "j_status j \<noteq> COMPLETED" "jobs_ok db" "\<not> should_retry j"
  obtains j' d where "schedule_retry did now up j err (db, q) =
      Inr (Dead d, add_dead_letter d (put_job j' db), q)"
    and "j_id j' = j_id j" and "j_status j' = FAILED" and "j_retry j' = j_retry j" and "job_ok j'"
    and "dl_job d = j_id j" and "dl_retry d = j_retry j" and "last (dl_errors d) = err"
    and "dl_payload d = j_payload j"
proof -
  have okj: "job_ok j" using assms by (simp add: jobs_okD)
  have tr: "FAILED \<in> valid_transitions (j_status j)" if "j_status j \<noteq> FAILED"
    using that assms(2) by (cases "j_status j") auto
  define jf where "jf = (if j_status j = FAILED then j\<lparr>j_error := Some err\<rparr>
      else transition_job now FAILED None (Some err) j)"
  have "job_ok jf"
    using okj tr by (auto simp: jf_def job_ok_def)
  then show ?thesis
    using assms tr by (intro that [of _ jf])
      (auto simp: schedule_retry_def move_to_dlq_def update_job_status_def Let_def jf_def error_history_def)
qed

lemma schedule_retry_completed:
  assumes "job_at (j_id j) db = Some j" "j_status j = COMPLETED"
  shows "schedule_retry did now up j err (db, q) = Inl (invalid_transition COMPLETED FAILED)"
  using assms
  by (simp add: schedule_retry_def requeue_def move_to_dlq_def update_job_status_def)

lemma add_dead_letter_simps [simp, table_simps]:
  "sd_jobs (add_dead_letter d db) = sd_jobs db"
  "sd_nodes (add_dead_letter d db) = sd_nodes db"
  "sd_dlq (add_dead_letter d db) = sd_dlq db @ [d]"
  by (simp_all add: add_dead_letter_def)

section \<open>A job that keeps failing\<close>

text \<open>The failures of one job, one after the other: each error is reported for the row as it
  is then. \<open>draws\<close> gives each call its identifier, clock reading and Redis answer.\<close>

fun fail_all ::
  "(uuid \<times> instant \<times> bool \<times> string) list \<Rightarrow> uuid \<Rightarrow> sched_db \<times> queues \<Rightarrow> py_exc + sched_db \<times> queues" where
  "fail_all [] i w = Inr w"
| "fail_all ((did, now, up, err) # fs) i w =
     (case job_at i (fst w) of
        None \<Rightarrow> Inl (job_not_found i)
      | Some j \<Rightarrow> err_bind (schedule_retry did now up j err w) (\<lambda>(r, w'). fail_all fs i w'))"

definition dead_letters :: "uuid \<Rightarrow> sched_db \<Rightarrow> nat" where
  "dead_letters i db = length (filter (\<lambda>d. dl_job d = i) (sd_dlq db))"

lemma jobs_ok_add_dead_letter [simp]: "jobs_ok (add_dead_letter d db) = jobs_ok db"
  by (simp add: jobs_ok_def)

lemma fail_all_spec:
  assumes "job_at i db = Some j" "jobs_ok db" "j_status j \<noteq> COMPLETED" "j_retry j \<le> max_retries"
  shows "\<exists>db' q' j'. fail_all fs i (db, q) = Inr (db', q') \<and> job_at i db' = Some j' \<and> jobs_ok db' \<and>
     j_retry j' = min max_retries (j_retry j + int (length fs)) \<and>
     int (dead_letters i db') = int (dead_letters i db) + max 0 (j_retry j + int (length fs) - max_retries)"
  using assms
proof (induction fs arbitrary: db q j)
  case Nil
  then show ?case by simp
next
  case (Cons f fs)
  obtain did now up err where f: "f = (did, now, up, err)" by (cases f)
  have row: "job_at (j_id j) db = Some j" and i: "j_id j = i"
    using Cons.prems(1) job_at_id by auto
  show ?case
  proof (cases "should_retry j")
    case True
    obtain j' q' where c: "schedule_retry did now up j err (db, q) = Inr (Retried j', put_job j' db, q')"
      "j_id j' = j_id j" "j_status j' = QUEUED" "j_retry j' = j_retry j + 1" "job_ok j'"
      by (rule schedule_retry_retries [OF row Cons.prems(3,2) True])
    have "job_at i (put_job j' db) = Some j'" using c(2) i Cons.prems(1) by simp
    moreover have "j_retry j' \<le> max_retries" using c(4) True by (simp add: should_retry_def)
    moreover have "jobs_ok (put_job j' db)" using Cons.prems(2) c(5) by (rule put_job_ok)
    ultimately show ?thesis
      using Cons.IH [of "put_job j' db" j' q'] c f Cons.prems(1)
      by (auto simp: dead_letters_def)
  next
    case False
    obtain j' d where c: "schedule_retry did now up j err (db, q) =
        Inr (Dead d, add_dead_letter d (put_job j' db), q)" "j_id j' = j_id j" "j_status j' = FAILED"
      "j_retry j' = j_retry j" "job_ok j'" "dl_job d = j_id j"
      by (rule schedule_retry_dead [OF row Cons.prems(3,2) False])
    have "jobs_ok (add_dead_letter d (put_job j' db))" using Cons.prems(2) c(5) by (simp add: put_job_ok)
    moreover have "j_retry j = max_retries" using False Cons.prems(4) by (simp add: should_retry_def)
    moreover have "job_at i (add_dead_letter d (put_job j' db)) = Some j'"
      using c(2) i Cons.prems(1) by simp
    ultimately show ?thesis
      using Cons.IH [of "add_dead_letter d (put_job j' db)" j' q] c f Cons.prems(1) i
      by (auto simp: dead_letters_def)
  qed
qed

section \<open>Properties\<close>

text \<open>C19: retries are bounded and no failure is lost. However often a job that has not completed
  fails, every report is accepted, its retry count grows by one per failure up to three and then
  stays, and each failure beyond the third adds exactly one dead letter for it.\<close>

theorem retries_bounded:
  assumes "job_at i db = Some j" "jobs_ok db" "j_status j \<noteq> COMPLETED" "j_retry j \<le> max_retries"
  shows "\<exists>db' q' j'. fail_all fs i (db, q) = Inr (db', q') \<and> job_at i db' = Some j' \<and>
     j_retry j' = min 3 (j_retry j + int (length fs)) \<and>
     int (dead_letters i db') = int (dead_letters i db) + max 0 (j_retry j + int (length fs) - 3)"
  using fail_all_spec [OF assms, of fs q] unfolding max_retries_def by blast

definition demo_jobs :: sched_db where
  "demo_jobs = demo_fleet\<lparr>sd_jobs := [new_job 9 100 2 ''render'' ''s3://a'']\<rparr>"

theorem retries_bounded_witness:
  "\<exists>db' q' j'. fail_all (replicate 5 (4, 200, True, ''oom'')) 9 (demo_jobs, \<lambda>_. []) = Inr (db', q') \<and>
     job_at 9 db' = Some j' \<and> j_retry j' = 3 \<and> dead_letters 9 db' = 2"
  using retries_bounded [of 9 demo_jobs "new_job 9 100 2 ''render'' ''s3://a''"
      "replicate 5 (4, 200, True, ''oom'')" "\<lambda>_. []"]
  by (simp add: demo_jobs_def demo_fleet_def jobs_ok_def max_retries_def dead_letters_def)

text \<open>A retry may go back to the node that failed. The job is re-dispatched to the
  least-loaded eligible node, and when that is the node it failed on, it is queued there
  again.\<close>

theorem retry_same_node:
  assumes "job_at (j_id j) db = Some j" "jobs_ok db" "j_status j = RUNNING" "should_retry j"
    and "find_best_node (j_type j) db = Some n" "en_id n = j_node j"
  shows "\<exists>j' db' q'. schedule_retry did now True j err (db, q) = Inr (Retried j', db', q') \<and>
     j_node j' = j_node j \<and> j_status j' = QUEUED \<and>
     q' (queue_key (j_node j)) = q (queue_key (j_node j)) @ [queue_message (j_id j) (j_type j) (j_payload j)]"
proof -
  obtain j1 where j1: "requeue now j err db = Inr (j1, put_job j1 db)" "j_id j1 = j_id j"
      "j_status j1 = QUEUED" "j_type j1 = j_type j" "j_payload j1 = j_payload j"
    by (rule requeue_row [OF assms(1) _ assms(2)]) (simp_all add: assms(3))
  have "find_best_node (j_type j) (put_job j1 db) = Some n"
    using assms(5) by (simp add: find_best_node_def)
  with j1 assms(4,6) show ?thesis
    by (simp add: schedule_retry_def redispatch_def push_to_queue_def Let_def)
qed

theorem retry_same_node_witness:
  "\<exists>j' db' q'. schedule_retry 4 200 True ((new_job 9 100 2 ''render'' ''s3://a'')\<lparr>j_status := RUNNING\<rparr>)
       ''oom'' (demo_fleet\<lparr>sd_jobs := [(new_job 9 100 2 ''render'' ''s3://a'')\<lparr>j_status := RUNNING\<rparr>]\<rparr>,
       \<lambda>_. []) = Inr (Retried j', db', q') \<and>
     j_node j' = 2 \<and> j_status j' = QUEUED \<and> q' (queue_key 2) = [queue_message 9 ''render'' ''s3://a'']"
proof -
  let ?j = "(new_job 9 100 2 ''render'' ''s3://a'')\<lparr>j_status := RUNNING\<rparr>"
  let ?db = "demo_fleet\<lparr>sd_jobs := [?j]\<rparr>"
  have "find_best_node ''render'' ?db = Some (demo_node 2 (1/4) ''render'')"
    using demo_best by (simp add: find_best_node_def)
  then show ?thesis
    using retry_same_node [of ?j ?db "demo_node 2 (1/4) ''render''" 4 200 "''oom''" "\<lambda>_. []"]
    by (simp add: jobs_ok_def job_ok_def should_retry_def max_retries_def new_job_def demo_node_def)
qed

end
