(* ===== verification/Circuit_Breaker.thy ===== *)
theory Circuit_Breaker
  imports Dispatch
begin

text \<open>
  The circuit breaker of \<^verbatim>\<open>core/scheduler/circuit_breaker.py\<close>: its in-memory dictionaries
  (\<open>breaker\<close>) beside the node and job tables. An abstract breaker counts the consecutive failures
  of one node; the \<open>simulation\<close> interpretation shows that the code's object implements it for
  every node, whatever happens to the others.
\<close>

section \<open>State and operations\<close>

record breaker =
  failure_counts :: "uuid \<rightharpoonup> nat"
  last_failure_time :: "uuid \<rightharpoonup> instant"
  half_open :: "uuid set"

definition breaker_init :: breaker where
  "breaker_init = \<lparr>failure_counts = Map.empty, last_failure_time = Map.empty, half_open = {}\<rparr>"

definition failure_threshold :: nat where
  "failure_threshold = 3"

definition recovery_timeout :: int where
  "recovery_timeout = 300"

definition set_status :: "node_status \<Rightarrow> edge_node \<Rightarrow> edge_node" where
  "set_status st n = n\<lparr>en_status := st\<rparr>"

definition set_node_status :: "uuid \<Rightarrow> node_status \<Rightarrow> sched_db \<Rightarrow> sched_db" where
  "set_node_status i st db = db\<lparr>sd_nodes := row_update en_id i (set_status st) (sd_nodes db)\<rparr>"

definition movable :: "uuid \<Rightarrow> job \<Rightarrow> bool" where
  "movable i j \<longleftrightarrow> j_node j = i \<and> j_status j \<in> {QUEUED, DISPATCHED}"

definition unassign :: "job \<Rightarrow> job" where
  "unassign j = j\<lparr>j_status := QUEUED, j_dispatched_at := None\<rparr>"

definition redistribute_jobs :: "uuid \<Rightarrow> sched_db \<Rightarrow> nat \<times> sched_db" where
  "redistribute_jobs i db =
     (length (filter (movable i) (sd_jobs db)),
      db\<lparr>sd_jobs := update_where (movable i) unassign (sd_jobs db)\<rparr>)"

definition record_failure ::
  "instant \<Rightarrow> uuid \<Rightarrow> breaker \<times> sched_db \<Rightarrow> node_status \<times> breaker \<times> sched_db" where
  "record_failure now i s =
     (let b = fst s; db = snd s;
          count = (case failure_counts b i of Some c \<Rightarrow> c | None \<Rightarrow> 0) + 1;
          b1 = b\<lparr>failure_counts := (failure_counts b)(i \<mapsto> count),
                 last_failure_time := (last_failure_time b)(i \<mapsto> now)\<rparr>
      in if failure_threshold \<le> count
         then (UNHEALTHY, b1\<lparr>half_open := half_open b1 - {i}\<rparr>,
               snd (redistribute_jobs i (set_node_status i UNHEALTHY db)))
         else (HEALTHY, b1, db))"

definition breaker_reset :: "uuid \<Rightarrow> breaker \<Rightarrow> breaker" where
  "breaker_reset i b =
     b\<lparr>failure_counts := (failure_counts b)(i := None),
       last_failure_time := (last_failure_time b)(i := None),
       half_open := half_open b - {i}\<rparr>"

definition record_success :: "uuid \<Rightarrow> breaker \<times> sched_db \<Rightarrow> breaker \<times> sched_db" where
  "record_success i s = (breaker_reset i (fst s), set_node_status i HEALTHY (snd s))"

definition check_node_health ::
  "instant \<Rightarrow> uuid \<Rightarrow> breaker \<times> sched_db \<Rightarrow> node_status \<times> breaker" where
  "check_node_health now i s =
     (let b = fst s in
      case node_at i (snd s) of
        None \<Rightarrow> (OFFLINE, b)
      | Some n \<Rightarrow>
          if en_status n \<noteq> UNHEALTHY then (en_status n, b)
          else (case last_failure_time b i of
                  None \<Rightarrow> (UNHEALTHY, b)
                | Some t \<Rightarrow>
                    if seconds recovery_timeout \<le> now - t
                    then (HEALTHY, b\<lparr>half_open := insert i (half_open b)\<rparr>)
                    else (UNHEALTHY, b)))"

section \<open>Facts of one operation\<close>

lemma set_status_simps [simp]:
  "en_id (set_status st n) = en_id n" "en_status (set_status st n) = st"
  by (simp_all add: set_status_def)

lemma set_node_status_simps [simp, table_simps]:
  "sd_jobs (set_node_status i st db) = sd_jobs db"
  "sd_dlq (set_node_status i st db) = sd_dlq db"
  "node_at k (set_node_status i st db) =
     (if k = i then map_option (set_status st) (node_at k db) else node_at k db)"
  by (simp_all add: set_node_status_def row_at_row_update)

lemma unassign_simps [simp]:
  "j_id (unassign j) = j_id j" "j_status (unassign j) = QUEUED" "j_retry (unassign j) = j_retry j"
  "j_node (unassign j) = j_node j" "j_dispatched_at (unassign j) = None"
  by (simp_all add: unassign_def)

lemma redistribute_jobs_simps [simp, table_simps]:
  "sd_nodes (snd (redistribute_jobs i db)) = sd_nodes db"
  "sd_dlq (snd (redistribute_jobs i db)) = sd_dlq db"
  "job_at k (snd (redistribute_jobs i db)) =
     map_option (\<lambda>j. if movable i j then unassign j else j) (job_at k db)"
  "map j_id (sd_jobs (snd (redistribute_jobs i db))) = map j_id (sd_jobs db)"
  by (simp_all add: redistribute_jobs_def row_at_update_where update_where_keys)

lemma redistribute_jobs_ok [inv_intros]:
  "jobs_ok db \<Longrightarrow> jobs_ok (snd (redistribute_jobs i db))"
proof -
  assume ok: "jobs_ok db"
  have "job_ok (unassign j)" if "j \<in> set (sd_jobs db)" for j
    using ok that by (auto simp: jobs_ok_def job_ok_def unassign_def)
  with ok show ?thesis
    unfolding jobs_ok_def by (auto simp: redistribute_jobs_def update_where_keys)
      (auto simp: update_where_def)
qed

lemma set_node_status_ok [inv_intros]: "jobs_ok db \<Longrightarrow> jobs_ok (set_node_status i st db)"
  by (simp add: jobs_ok_def)

lemma record_failure_ok [inv_intros]:
  "jobs_ok (snd s) \<Longrightarrow> jobs_ok (snd (snd (record_failure now i s)))"
  by (simp add: record_failure_def Let_def redistribute_jobs_ok set_node_status_ok)

section \<open>The abstract breaker\<close>

datatype report = Failure instant | Success

text \<open>A report for a node, as the code handles it.\<close>

fun breaker_step :: "uuid \<times> report \<Rightarrow> breaker \<times> sched_db \<Rightarrow> breaker \<times> sched_db" where
  "breaker_step (i, Failure now) s = snd (record_failure now i s)"
| "breaker_step (i, Success) s = record_success i s"

text \<open>Abstractly a breaker is the count of consecutive failures, the last failure's time and the
  node's status.\<close>

type_synonym abs_breaker = "nat \<times> instant option \<times> node_status option"

fun abs_step :: "uuid \<Rightarrow> uuid \<times> report \<Rightarrow> abs_breaker \<Rightarrow> abs_breaker" where
  "abs_step n (i, Failure now) (c, t, st) =
     (if i = n then (c + 1, Some now, if 3 \<le> c + 1 then map_option (\<lambda>_. UNHEALTHY) st else st)
      else (c, t, st))"
| "abs_step n (i, Success) (c, t, st) =
     (if i = n then (0, None, map_option (\<lambda>_. HEALTHY) st) else (c, t, st))"

definition breaker_abs :: "uuid \<Rightarrow> breaker \<times> sched_db \<Rightarrow> abs_breaker" where
  "breaker_abs n s =
     (case failure_counts (fst s) n of Some c \<Rightarrow> c | None \<Rightarrow> 0,
      last_failure_time (fst s) n, map_option en_status (node_at n (snd s)))"

lemma breaker_abs_step: "breaker_abs n (breaker_step e s) = abs_step n e (breaker_abs n s)"
proof (cases e)
  case (Pair i r)
  then show ?thesis
    by (cases r) (auto simp: breaker_abs_def record_failure_def record_success_def breaker_reset_def
        Let_def failure_threshold_def option.map_comp comp_def split: option.splits)
qed

interpretation breaker: simulation breaker_step "abs_step n" "breaker_abs n" "\<lambda>_. True" for n
  by unfold_locales (simp_all add: breaker_abs_step)

definition consecutive :: "uuid \<Rightarrow> (uuid \<times> report) list \<Rightarrow> instant list" where
  "consecutive n es =
     map (\<lambda>(i, r). case r of Failure t \<Rightarrow> t | Success \<Rightarrow> 0)
       (takeWhile (\<lambda>(i, r). r \<noteq> Success) (rev (filter (\<lambda>(i, r). i = n) es)))"

lemma abs_step_fold:
  "fold (abs_step n) es (0, None, Some HEALTHY) =
     (length (consecutive n es),
      (case consecutive n es of [] \<Rightarrow> None | t # _ \<Rightarrow> Some t),
      Some (if 3 \<le> length (consecutive n es) then UNHEALTHY else HEALTHY))"
proof (induction es rule: rev_induct)
  case Nil
  then show ?case by (simp add: consecutive_def)
next
  case (snoc e es)
  obtain i r where "e = (i, r)" by (cases e)
  with snoc show ?case by (cases r) (auto simp: consecutive_def)
qed

section \<open>Properties\<close>



text \<open>Recovery waits for the timeout and then is not limited to one probe. For a node that is
  UNHEALTHY with a tracked failure, a check answers HEALTHY exactly from 300 seconds after that
  failure on, and checking again with the resulting breaker gives the same answer: every check
  after the timeout lets a job through.\<close>

theorem breaker_recovery:
  assumes "node_at n db = Some node" and "en_status node = UNHEALTHY"
    and "last_failure_time b n = Some t" and "now \<le> later"
    and "check_node_health now n (b, db) = (st, b')"
  shows "(st = HEALTHY \<longleftrightarrow> t + 300000000 \<le> now) \<and> (st = UNHEALTHY \<longleftrightarrow> now < t + 300000000) \<and>
    (st = HEALTHY \<longrightarrow> fst (check_node_health later n (b', db)) = HEALTHY)"
  using assms by (auto simp: check_node_health_def recovery_timeout_def split: if_splits)

theorem breaker_recovery_witness:
  "fst (check_node_health 400000000 1
      (snd (check_node_health 300000000 1 (breaker_init\<lparr>last_failure_time := [1 \<mapsto> 0]\<rparr>,
        set_node_status 1 UNHEALTHY demo_fleet)), set_node_status 1 UNHEALTHY demo_fleet)) = HEALTHY"
proof -
  let ?b = "breaker_init\<lparr>last_failure_time := [1 \<mapsto> 0]\<rparr>"
  let ?db = "set_node_status 1 UNHEALTHY demo_fleet"
  obtain st b' where c: "check_node_health 300000000 1 (?b, ?db) = (st, b')" by fastforce
  have "node_at 1 ?db = Some (set_status UNHEALTHY (demo_node 1 (1/2) ''render''))"
    by (simp add: demo_fleet_def demo_node_def)
  from breaker_recovery [OF this _ _ _ c, of 0 400000000] c show ?thesis by simp
qed

text \<open>Redistribution returns exactly the waiting jobs of the node: each of its QUEUED or
  DISPATCHED jobs is QUEUED with no dispatch time and the same retry count, every other job is
  untouched, and the count returned is the number of jobs moved.\<close>

theorem redistribute_exact:
  assumes "distinct (map j_id (sd_jobs db))" and "redistribute_jobs n db = (count, db')"
  shows "count = card {i. \<exists>j. job_at i db = Some j \<and> movable n j} \<and>
    (\<forall>i j. job_at i db = Some j \<longrightarrow> (\<exists>j'. job_at i db' = Some j' \<and> j_retry j' = j_retry j \<and>
       (if movable n j then j_status j' = QUEUED \<and> j_dispatched_at j' = None else j' = j)))"
proof -
  have "{i. \<exists>j. job_at i db = Some j \<and> movable n j} = j_id ` set (filter (movable n) (sd_jobs db))"
    using row_at_distinct [OF assms(1)] by (force dest: row_at_SomeD)
  also have "card \<dots> = length (filter (movable n) (sd_jobs db))"
    using distinct_card [of "map j_id (filter (movable n) (sd_jobs db))"] assms(1)
    by (simp add: distinct_map_filter)
  finally have "count = card {i. \<exists>j. job_at i db = Some j \<and> movable n j}"
    using assms(2) by (simp add: redistribute_jobs_def)
  moreover have "db' = snd (redistribute_jobs n db)" using assms(2) by simp
  ultimately show ?thesis by auto
qed

theorem redistribute_exact_witness:
  "\<exists>count db'. redistribute_jobs 2 (demo_fleet\<lparr>sd_jobs := [new_job 9 100 2 ''render'' ''s3://a'']\<rparr>) =
       (count, db') \<and> count = card {i. \<exists>j. job_at i
          (demo_fleet\<lparr>sd_jobs := [new_job 9 100 2 ''render'' ''s3://a'']\<rparr>) = Some j \<and> movable 2 j}"
proof -
  let ?db = "demo_fleet\<lparr>sd_jobs := [new_job 9 100 2 ''render'' ''s3://a'']\<rparr>"
  obtain count db' where c: "redistribute_jobs 2 ?db = (count, db')" by fastforce
  from redistribute_exact [OF _ this] c show ?thesis by auto
qed

end
