(* ===== verification/Auth.thy ===== *)
theory Auth
  imports Py_Strings "HOL-Library.Countable"
begin

text \<open>
  User authentication: tokens (\<^verbatim>\<open>core/auth/jwt.py\<close>), their revocation list in Redis
  (\<^verbatim>\<open>core/auth/blacklist.py\<close>), the optional middleware (\<^verbatim>\<open>core/auth/middleware.py\<close>) and
  the endpoints of \<^verbatim>\<open>core/api/v1/auth.py\<close>.

  The JOSE library under the configured secret is a pair of parameters: \<open>enc\<close> signs a claim set,
  \<open>dec\<close> gives the claims of a token that verifies at an instant (\<open>None\<close>: \<open>JWTError\<close>).
  \<open>codec_ok\<close> states what the code relies on: a signed token decodes to its claims until its
  expiry second is over. Password hashing is a pair of parameters too. The Redis blacklist maps
  a key to the instant at which the key expires.
\<close>

section \<open>Users\<close>

record user =
  u_id :: uuid
  u_email :: string
  u_name :: string
  u_hashed_password :: string
  u_is_active :: bool
  u_is_admin :: bool

type_synonym user_db = "user list"

definition user_by_email :: "string \<Rightarrow> user_db \<Rightarrow> user option" where
  "user_by_email email db = row_at u_email email db"

definition user_by_id :: "uuid \<Rightarrow> user_db \<Rightarrow> user option" where
  "user_by_id i db = row_at u_id i db"

section \<open>Tokens\<close>

datatype token_type = ACCESS | REFRESH

fun token_type_value :: "token_type \<Rightarrow> string" where
  "token_type_value ACCESS = ''access''"
| "token_type_value REFRESH = ''refresh''"

definition token_type_of :: "string \<Rightarrow> token_type option" where
  "token_type_of s = List.find (\<lambda>t. token_type_value t = s) [ACCESS, REFRESH]"

lemma token_type_roundtrip [simp]: "token_type_of (token_type_value t) = Some t"
  by (cases t) (simp_all add: token_type_of_def)

record claims =
  cl_sub :: "string option"
  cl_exp :: "int option"
  cl_iat :: "int option"
  cl_type :: "string option"
  cl_jti :: "string option"
  cl_capabilities :: "string list option"

type_synonym jwt_encode = "claims \<Rightarrow> string"
type_synonym jwt_decode = "instant \<Rightarrow> string \<Rightarrow> claims option"

definition unix_seconds :: "instant \<Rightarrow> int" where
  "unix_seconds t = t div 1000000"

definition codec_ok :: "jwt_encode \<Rightarrow> jwt_decode \<Rightarrow> bool" where
  "codec_ok enc dec \<longleftrightarrow>
     (\<forall>c e now. cl_exp c = Some e \<longrightarrow>
        dec now (enc c) = (if unix_seconds now \<le> e then Some c else None))"

record token_payload =
  tp_sub :: string
  tp_exp :: instant
  tp_iat :: instant
  tp_type :: token_type
  tp_jti :: string

definition user_claims :: "token_type \<Rightarrow> int \<Rightarrow> instant \<Rightarrow> uuid \<Rightarrow> string \<Rightarrow> claims" where
  "user_claims ty life now jti sub =
     \<lparr>cl_sub = Some sub, cl_exp = Some (unix_seconds (now + seconds life)),
      cl_iat = Some (unix_seconds now), cl_type = Some (token_type_value ty),
      cl_jti = Some (uuid_str jti), cl_capabilities = None\<rparr>"

text \<open>The lifetimes are the settings' minutes and days.\<close>

definition create_access_token :: "jwt_encode \<Rightarrow> int \<Rightarrow> instant \<Rightarrow> uuid \<Rightarrow> string \<Rightarrow> string" where
  "create_access_token enc minutes now jti sub = enc (user_claims ACCESS (minutes * 60) now jti sub)"

definition create_refresh_token :: "jwt_encode \<Rightarrow> int \<Rightarrow> instant \<Rightarrow> uuid \<Rightarrow> string \<Rightarrow> string" where
  "create_refresh_token enc days now jti sub = enc (user_claims REFRESH (days * 86400) now jti sub)"

section \<open>The blacklist\<close>

type_synonym expiring_keys = "string \<rightharpoonup> instant"

definition truncated_seconds :: "int \<Rightarrow> int" where
  "truncated_seconds d = (if 0 \<le> d then d div 1000000 else - (- d div 1000000))"

definition blacklist_key :: "string \<Rightarrow> string" where
  "blacklist_key jti = ''blacklist:'' @ jti"

definition revoke :: "instant \<Rightarrow> bool \<Rightarrow> string \<Rightarrow> instant \<Rightarrow> expiring_keys \<Rightarrow> bool \<times> expiring_keys" where
  "revoke now up jti expires_at bl =
     (let ttl = truncated_seconds (expires_at - now)
      in if ttl \<le> 0 \<or> \<not> up then (False, bl)
         else (True, bl(blacklist_key jti \<mapsto> now + seconds ttl)))"

definition is_revoked :: "instant \<Rightarrow> bool \<Rightarrow> string \<Rightarrow> expiring_keys \<Rightarrow> bool" where
  "is_revoked now up jti bl =
     (up \<and> (case bl (blacklist_key jti) of None \<Rightarrow> False | Some e \<Rightarrow> now < e))"

section \<open>Verification\<close>

definition unauthorized :: "string \<Rightarrow> py_exc" where
  "unauthorized detail = HTTPException 401 detail"

abbreviation bad_credentials :: py_exc where
  "bad_credentials \<equiv> unauthorized ''Could not validate credentials''"

definition verify_token ::
  "jwt_decode \<Rightarrow> instant \<Rightarrow> bool \<Rightarrow> expiring_keys \<Rightarrow> string \<Rightarrow> py_exc + token_payload" where
  "verify_token dec now up bl token =
     (case dec now token of
        None \<Rightarrow> Inl bad_credentials
      | Some c \<Rightarrow>
          (case cl_sub c of
             None \<Rightarrow> Inl bad_credentials
           | Some sub \<Rightarrow>
               (case (cl_exp c, cl_iat c) of
                  (Some e, Some i) \<Rightarrow>
                    (case token_type_of (case cl_type c of Some t \<Rightarrow> t | None \<Rightarrow> ''access'') of
                       None \<Rightarrow> Inl (OtherError ''ValidationError'')
                     | Some ty \<Rightarrow>
                         let jti = (case cl_jti c of Some j \<Rightarrow> j | None \<Rightarrow> '''')
                         in if jti \<noteq> [] \<and> is_revoked now up jti bl then Inl bad_credentials
                            else Inr \<lparr>tp_sub = sub, tp_exp = seconds e, tp_iat = seconds i,
                                      tp_type = ty, tp_jti = jti\<rparr>)
                | _ \<Rightarrow> Inl (OtherError ''KeyError''))))"

definition get_current_user ::
  "jwt_decode \<Rightarrow> instant \<Rightarrow> bool \<Rightarrow> expiring_keys \<Rightarrow> user_db \<Rightarrow> string \<Rightarrow> py_exc + user" where
  "get_current_user dec now up bl db token =
     err_bind (verify_token dec now up bl token)
       (\<lambda>p. if tp_type p \<noteq> ACCESS then Inl (unauthorized ''Invalid token type'')
            else case uuid_parse (tp_sub p) of
                   None \<Rightarrow> Inl (unauthorized ''Invalid user ID'')
                 | Some i \<Rightarrow>
                     (case user_by_id i db of
                        None \<Rightarrow> Inl (unauthorized ''User not found'')
                      | Some u \<Rightarrow> if u_is_active u then Inr u else Inl (unauthorized ''Inactive user'')))"

text \<open>The middleware's \<open>request.state.user_id\<close>.\<close>

definition public_paths :: "string list" where
  "public_paths = [''/health'', ''/health/ready'', ''/version'', ''/docs'', ''/redoc'', ''/openapi.json'']"

definition middleware_user_id ::
  "jwt_decode \<Rightarrow> instant \<Rightarrow> bool \<Rightarrow> expiring_keys \<Rightarrow> string \<Rightarrow> string option \<Rightarrow> string option" where
  "middleware_user_id dec now up bl path header =
     (if path \<in> set public_paths then None
      else case header of
             None \<Rightarrow> None
           | Some h \<Rightarrow>
               if take 7 h = ''Bearer ''
               then (case verify_token dec now up bl (drop 7 h) of
                       Inl _ \<Rightarrow> None
                     | Inr p \<Rightarrow> Some (tp_sub p))
               else None)"

section \<open>Endpoints\<close>

record token_response =
  tr_access :: string
  tr_refresh :: string

record token_settings =
  ts_minutes :: int
  ts_days :: int

definition issue_tokens ::
  "jwt_encode \<Rightarrow> token_settings \<Rightarrow> instant \<Rightarrow> uuid \<Rightarrow> uuid \<Rightarrow> string \<Rightarrow> token_response" where
  "issue_tokens enc cfg now jti1 jti2 sub =
     \<lparr>tr_access = create_access_token enc (ts_minutes cfg) now jti1 sub,
      tr_refresh = create_refresh_token enc (ts_days cfg) now jti2 sub\<rparr>"

definition register_user ::
  "jwt_encode \<Rightarrow> (string \<Rightarrow> string) \<Rightarrow> token_settings \<Rightarrow> instant \<Rightarrow> uuid \<Rightarrow> uuid \<Rightarrow> uuid \<Rightarrow>
   string \<Rightarrow> string \<Rightarrow> string \<Rightarrow> user_db session \<Rightarrow>
   (py_exc + uuid \<times> token_response) \<times> user_db session" where
  "register_user enc hash cfg now uid jti1 jti2 email name password s =
     (if name = [] \<or> 255 < length name \<or> length password < 8
      then (Inl (HTTPException 422 ''validation error''), s)
      else case user_by_email email (working s) of
             Some _ \<Rightarrow> (Inl (HTTPException 409 ''Email already registered''), s)
           | None \<Rightarrow>
               let u = \<lparr>u_id = uid, u_email = email, u_name = name,
                        u_hashed_password = hash password, u_is_active = True, u_is_admin = False\<rparr>
               in (Inr (uid, issue_tokens enc cfg now jti1 jti2 (uuid_str uid)),
                   s\<lparr>working := working s @ [u]\<rparr>))"

definition login ::
  "jwt_encode \<Rightarrow> (string \<Rightarrow> string \<Rightarrow> bool) \<Rightarrow> token_settings \<Rightarrow> instant \<Rightarrow> uuid \<Rightarrow> uuid \<Rightarrow>
   string \<Rightarrow> string \<Rightarrow> user_db \<Rightarrow> py_exc + token_response" where
  "login enc check cfg now jti1 jti2 email password db =
     (case user_by_email email db of
        None \<Rightarrow> Inl (unauthorized ''Invalid email or password'')
      | Some u \<Rightarrow>
          if \<not> check password (u_hashed_password u)
          then Inl (unauthorized ''Invalid email or password'')
          else if \<not> u_is_active u then Inl (unauthorized ''Account is inactive'')
          else Inr (issue_tokens enc cfg now jti1 jti2 (uuid_str (u_id u))))"

definition refresh ::
  "jwt_encode \<Rightarrow> jwt_decode \<Rightarrow> token_settings \<Rightarrow> instant \<Rightarrow> bool \<Rightarrow> uuid \<Rightarrow> uuid \<Rightarrow>
   expiring_keys \<Rightarrow> string \<Rightarrow> user_db \<Rightarrow> py_exc + token_response" where
  "refresh enc dec cfg now up jti1 jti2 bl token db =
     err_bind (verify_token dec now up bl token)
       (\<lambda>p. if tp_type p \<noteq> REFRESH
            then Inl (unauthorized ''Invalid token type: expected refresh token'')
            else case uuid_parse (tp_sub p) of
                   None \<Rightarrow> Inl DataError
                 | Some i \<Rightarrow>
                     (case user_by_id i db of
                        None \<Rightarrow> Inl (unauthorized ''User not found'')
                      | Some u \<Rightarrow>
                          if \<not> u_is_active u then Inl (unauthorized ''Account is inactive'')
                          else Inr (issue_tokens enc cfg now jti1 jti2 (uuid_str (u_id u)))))"

definition logout ::
  "jwt_decode \<Rightarrow> instant \<Rightarrow> bool \<Rightarrow> string \<Rightarrow> expiring_keys \<Rightarrow> (py_exc + string) \<times> expiring_keys" where
  "logout dec now up token bl =
     (case verify_token dec now up bl token of
        Inl x \<Rightarrow> (Inl x, bl)
      | Inr p \<Rightarrow> (Inr ''Logged out successfully'', snd (revoke now up (tp_jti p) (tp_exp p) bl)))"

section \<open>Facts\<close>

lemma user_claims_simps [simp]:
  "cl_sub (user_claims ty l now j s) = Some s"
  "cl_exp (user_claims ty l now j s) = Some (unix_seconds (now + seconds l))"
  "cl_iat (user_claims ty l now j s) = Some (unix_seconds now)"
  "cl_type (user_claims ty l now j s) = Some (token_type_value ty)"
  "cl_jti (user_claims ty l now j s) = Some (uuid_str j)"
  by (simp_all add: user_claims_def)

lemma uuid_str_not_Nil [simp]: "uuid_str u \<noteq> []"
  by (metis length_uuid_str list.size(3) zero_neq_numeral)

lemma verify_issued:
  assumes "codec_ok enc dec"
  shows "verify_token dec t up bl (enc (user_claims ty life now jti sub)) =
    (if unix_seconds t \<le> unix_seconds (now + seconds life) \<and> \<not> is_revoked t up (uuid_str jti) bl
     then Inr \<lparr>tp_sub = sub, tp_exp = seconds (unix_seconds (now + seconds life)),
               tp_iat = seconds (unix_seconds now), tp_type = ty, tp_jti = uuid_str jti\<rparr>
     else Inl bad_credentials)"
  using assms by (simp add: codec_ok_def verify_token_def)

lemmas token_defs = create_access_token_def create_refresh_token_def

section \<open>A concrete codec\<close>

text \<open>For the witnesses: a claim set is numbered and its token is that many characters and one more.\<close>

definition claims_tuple :: "claims \<Rightarrow> string option \<times> int option \<times> int option \<times> string option \<times>
    string option \<times> string list option" where
  "claims_tuple c = (cl_sub c, cl_exp c, cl_iat c, cl_type c, cl_jti c, cl_capabilities c)"

definition tuple_claims where
  "tuple_claims x = (case x of (s, e, i, t, j, k) \<Rightarrow>
     \<lparr>cl_sub = s, cl_exp = e, cl_iat = i, cl_type = t, cl_jti = j, cl_capabilities = k\<rparr>)"

definition unary_encode :: jwt_encode where
  "unary_encode c = replicate (Suc (to_nat (claims_tuple c))) (CHR ''t'')"

definition unary_decode :: jwt_decode where
  "unary_decode now s =
     (let c = tuple_claims (from_nat (length s - 1))
      in case cl_exp c of
           Some e \<Rightarrow> if unix_seconds now \<le> e then Some c else None
         | None \<Rightarrow> Some c)"

lemma unary_codec: "codec_ok unary_encode unary_decode"
  by (simp add: codec_ok_def unary_encode_def unary_decode_def tuple_claims_def claims_tuple_def)

section \<open>Properties\<close>

text \<open>C23: the two token types are kept apart. While it is valid and not revoked, an access token
  authenticates its active user and is refused by the refresh endpoint, and a refresh token is
  refused as a credential.\<close>

theorem token_types_separated:
  assumes "codec_ok enc dec" and "user_by_id i db = Some u" and "u_is_active u"
    and "unix_seconds t \<le> unix_seconds (now + seconds (m * 60))" "\<not> is_revoked t up (uuid_str jti) bl"
    and "unix_seconds t \<le> unix_seconds (now + seconds (d * 86400))" "\<not> is_revoked t up (uuid_str jti') bl"
  shows "get_current_user dec t up bl db (create_access_token enc m now jti (uuid_str i)) = Inr u \<and>
    refresh enc dec cfg t up j1 j2 bl (create_access_token enc m now jti (uuid_str i)) db =
      Inl (unauthorized ''Invalid token type: expected refresh token'') \<and>
    get_current_user dec t up bl db (create_refresh_token enc d now jti' (uuid_str i)) =
      Inl (unauthorized ''Invalid token type'')"
  using assms(2-) by (simp add: get_current_user_def refresh_def token_defs verify_issued [OF assms(1)])

definition demo_user :: user where
  "demo_user = \<lparr>u_id = 7, u_email = ''a@b.c'', u_name = ''Ann'', u_hashed_password = ''pw123456'',
     u_is_active = True, u_is_admin = False\<rparr>"

theorem token_types_separated_witness:
  "get_current_user unary_decode 1000000 True Map.empty [demo_user]
     (create_access_token unary_encode 30 0 1 (uuid_str 7)) = Inr demo_user"
proof -
  have "user_by_id 7 [demo_user] = Some demo_user" "u_is_active demo_user"
    by (simp_all add: user_by_id_def demo_user_def)
  from token_types_separated [OF unary_codec this, of 1000000 0 30 True 1 Map.empty 7 2] show ?thesis
    by (simp add: is_revoked_def unix_seconds_def)
qed

text \<open>Logging out revokes a token, but not to the end. After a logout that Redis took, at least
  a second before the token's expiry second, the token is refused at every instant up to one
  second before its expiry; since the entry's lifetime is truncated to whole seconds while the
  decoder accepts the token through its expiry second, it is accepted again in that last
  second.\<close>

theorem logout_revocation_window:
  assumes codec: "codec_ok enc dec" and E: "E = unix_seconds (t0 + seconds (m * 60))"
    and now: "now \<le> seconds E - 1000000" and valid: "\<not> is_revoked now True (uuid_str jti) bl"
    and out: "logout dec now True (create_access_token enc m t0 jti sub) bl = (r, bl')"
  shows "r = Inr ''Logged out successfully'' \<and>
    (\<forall>t. now \<le> t \<and> t \<le> seconds E - 1000000 \<longrightarrow>
       verify_token dec t True bl' (create_access_token enc m t0 jti sub) = Inl bad_credentials) \<and>
    (\<forall>t. seconds E \<le> t \<and> t < seconds E + 1000000 \<longrightarrow>
       \<not> is_error (verify_token dec t True bl' (create_access_token enc m t0 jti sub)))"
proof -
  let ?tok = "create_access_token enc m t0 jti sub"
  have verify: "verify_token dec t up b ?tok =
      (if unix_seconds t \<le> E \<and> \<not> is_revoked t up (uuid_str jti) b
       then Inr \<lparr>tp_sub = sub, tp_exp = seconds E, tp_iat = seconds (unix_seconds t0),
                 tp_type = ACCESS, tp_jti = uuid_str jti\<rparr>
       else Inl bad_credentials)" for t up b
    unfolding E create_access_token_def by (rule verify_issued [OF codec])
  define ttl where "ttl = (seconds E - now) div 1000000"
  have ttl: "0 < ttl" "seconds E - 1000000 < now + seconds ttl" "now + seconds ttl \<le> seconds E"
    using now unfolding ttl_def by linarith+
  have early: "unix_seconds now \<le> E"
    using now unfolding unix_seconds_def by linarith
  have "truncated_seconds (seconds E - now) = ttl"
    using now by (simp add: truncated_seconds_def ttl_def)
  with out early valid ttl(1) have r: "r = Inr ''Logged out successfully''"
    and bl': "bl' = bl(blacklist_key (uuid_str jti) \<mapsto> now + seconds ttl)"
    by (simp_all add: logout_def revoke_def verify)
  have "is_revoked t True (uuid_str jti) bl' \<longleftrightarrow> t < now + seconds ttl" for t
    by (simp add: is_revoked_def bl')
  moreover have "unix_seconds t \<le> E" if "t < seconds E + 1000000" for t
    using that unfolding unix_seconds_def by linarith
  ultimately show ?thesis
    using r ttl by (auto simp: verify)
qed

theorem logout_revocation_window_witness:
  "\<exists>r bl'. logout unary_decode 500000 True (create_access_token unary_encode 1 0 1 ''u'') Map.empty = (r, bl') \<and>
     verify_token unary_decode 50000000 True bl' (create_access_token unary_encode 1 0 1 ''u'') =
       Inl bad_credentials \<and>
     \<not> is_error (verify_token unary_decode 60500000 True bl' (create_access_token unary_encode 1 0 1 ''u''))"
proof -
  obtain r bl' where out:
    "logout unary_decode 500000 True (create_access_token unary_encode 1 0 1 ''u'') Map.empty = (r, bl')"
    by fastforce
  from logout_revocation_window [OF unary_codec refl _ _ out] out show ?thesis
    by (auto simp: unix_seconds_def is_revoked_def)
qed

text \<open>A successful registration is lost. The endpoint flushes the new user but never commits, and
  the session dependency closes the session when the request ends: the caller gets a user id and
  tokens, but afterwards the login is refused and the access token names no user.\<close>

theorem registration_is_lost:
  assumes "codec_ok enc dec" and "user_by_id uid db = None"
    and "register_user enc hash cfg now uid jti1 jti2 email name password (open_session db) = (Inr (i, tr), s)"
    and "unix_seconds t \<le> unix_seconds (now + seconds (ts_minutes cfg * 60))"
    and "\<not> is_revoked t up (uuid_str jti1) bl"
  shows "i = uid \<and> user_by_email email (working s) \<noteq> None \<and> committed (rollback s) = db \<and>
    login enc check cfg t j1 j2 email password (committed (rollback s)) =
      Inl (unauthorized ''Invalid email or password'') \<and>
    get_current_user dec t up bl (committed (rollback s)) (tr_access tr) = Inl (unauthorized ''User not found'')"
proof -
  from assms(3) have none: "user_by_email email db = None" and i: "i = uid"
    and tr: "tr = issue_tokens enc cfg now jti1 jti2 (uuid_str uid)"
    and s: "committed s = db" "user_by_email email (working s) \<noteq> None"
    by (auto simp: register_user_def Let_def user_by_email_def row_at_append split: if_splits option.splits)
  show ?thesis
    using none i s assms(2,4,5)
    by (simp add: login_def get_current_user_def tr issue_tokens_def token_defs verify_issued [OF assms(1)])
qed

theorem registration_is_lost_witness:
  "\<exists>i tr s. register_user unary_encode id \<lparr>ts_minutes = 30, ts_days = 7\<rparr> 0 7 1 2 ''a@b.c'' ''Ann''
       ''pw123456'' (open_session []) = (Inr (i, tr), s) \<and>
     get_current_user unary_decode 1000000 True Map.empty (committed (rollback s)) (tr_access tr) =
       Inl (unauthorized ''User not found'')"
proof -
  obtain i tr s where reg: "register_user unary_encode id \<lparr>ts_minutes = 30, ts_days = 7\<rparr> 0 7 1 2 ''a@b.c''
      ''Ann'' ''pw123456'' (open_session []) = (Inr (i, tr), s)"
    by (simp add: register_user_def user_by_email_def Let_def)
  have "get_current_user unary_decode 1000000 True Map.empty (committed (rollback s)) (tr_access tr) =
      Inl (unauthorized ''User not found'')"
    using registration_is_lost [OF unary_codec _ reg, where t = 1000000 and up = True and
        bl = Map.empty and check = "(=)" and ?j1.0 = 3 and ?j2.0 = 4]
    by (auto simp: user_by_id_def unix_seconds_def is_revoked_def)
  with reg show ?thesis by blast
qed

text \<open>Login is sound and complete for stored accounts: it issues tokens exactly when a user has the
  email, the password verifies and the account is active, and the access token it issues then
  authenticates that very user.\<close>

theorem login_authenticates:
  assumes "codec_ok enc dec" and "distinct (map u_id db)"
    and "unix_seconds t \<le> unix_seconds (now + seconds (ts_minutes cfg * 60))"
    and "\<not> is_revoked t up (uuid_str j1) bl"
  shows "((\<exists>tr. login enc check cfg now j1 j2 email password db = Inr tr) \<longleftrightarrow>
      (\<exists>u. user_by_email email db = Some u \<and> check password (u_hashed_password u) \<and> u_is_active u)) \<and>
    (\<forall>tr. login enc check cfg now j1 j2 email password db = Inr tr \<longrightarrow>
      (\<exists>u. user_by_email email db = Some u \<and> get_current_user dec t up bl db (tr_access tr) = Inr u))"
proof -
  have id: "user_by_id (u_id u) db = Some u" if "user_by_email email db = Some u" for u
    using that row_at_distinct [OF assms(2)] by (auto simp: user_by_email_def user_by_id_def dest: row_at_SomeD)
  show ?thesis
    using assms(3,4) by (auto simp: login_def issue_tokens_def get_current_user_def id
        token_defs verify_issued [OF assms(1)] split: option.splits if_splits)
qed

theorem login_authenticates_witness:
  "\<exists>tr. login unary_encode (=) \<lparr>ts_minutes = 30, ts_days = 7\<rparr> 0 1 2 ''a@b.c'' ''pw123456'' [demo_user] = Inr tr"
proof -
  have "user_by_email ''a@b.c'' [demo_user] = Some demo_user" "u_is_active demo_user"
    "u_hashed_password demo_user = ''pw123456''"
    by (simp_all add: user_by_email_def demo_user_def)
  then show ?thesis
    using login_authenticates [OF unary_codec, of "[demo_user]" 0 0 "\<lparr>ts_minutes = 30, ts_days = 7\<rparr>" True 1
        Map.empty "(=)" 2 "''a@b.c''" "''pw123456''"]
    by (auto simp: is_revoked_def unix_seconds_def)
qed

end
