(* ===== verification/Nodes.thy ===== *)
theory Nodes
  imports Scheduler_Models Auth
begin

text \<open>
  Edge nodes: their identity tokens (\<^verbatim>\<open>core/scheduler/crypto.py\<close>), the dependency that
  authenticates them (\<^verbatim>\<open>core/scheduler/auth.py\<close>), registration, heartbeats and the stale-node
  sweep (\<^verbatim>\<open>core/scheduler/service.py\<close>), the endpoints of \<^verbatim>\<open>core/scheduler/router.py\<close>, and
  the fleet views of \<^verbatim>\<open>core/scheduler/fleet.py\<close>. Node tokens use the codec of user tokens.
  The Ed25519 library is a parameter: loading a PEM key gives \<open>None\<close> when the loader raises.
\<close>

section \<open>Identity\<close>

text \<open>A loaded public key: an Ed25519 key with its verification function, or another kind of key.
  \<open>verify\<close> answers false where the library raises.\<close>

datatype loaded_key = Ed25519 "bytes \<Rightarrow> string \<Rightarrow> bool" | OtherKey

definition verify_signature ::
  "(string \<Rightarrow> loaded_key option) \<Rightarrow> string \<Rightarrow> string \<Rightarrow> bytes \<Rightarrow> bool" where
  "verify_signature load pem challenge sig =
     (case load pem of Some (Ed25519 verify) \<Rightarrow> verify sig challenge | _ \<Rightarrow> False)"

definition node_claims :: "instant \<Rightarrow> uuid \<Rightarrow> uuid \<Rightarrow> string list \<Rightarrow> claims" where
  "node_claims now jti node caps =
     \<lparr>cl_sub = Some (uuid_str node), cl_exp = Some (unix_seconds (now + seconds (24 * 3600))),
      cl_iat = Some (unix_seconds now), cl_type = Some ''node'', cl_jti = Some (uuid_str jti),
      cl_capabilities = Some caps\<rparr>"

definition create_node_token :: "jwt_encode \<Rightarrow> instant \<Rightarrow> uuid \<Rightarrow> uuid \<Rightarrow> string list \<Rightarrow> string" where
  "create_node_token enc now jti node caps = enc (node_claims now jti node caps)"

abbreviation bad_node_credentials :: py_exc where
  "bad_node_credentials \<equiv> unauthorized ''Invalid node credentials''"

definition verify_node_token :: "jwt_decode \<Rightarrow> instant \<Rightarrow> string \<Rightarrow> py_exc + claims" where
  "verify_node_token dec now token =
     (case dec now token of
        None \<Rightarrow> Inl bad_node_credentials
      | Some c \<Rightarrow>
          if cl_type c \<noteq> Some ''node'' then Inl bad_node_credentials
          else if cl_sub c = None \<or> cl_sub c = Some '''' then Inl bad_node_credentials
          else Inr c)"

definition get_current_node ::
  "jwt_decode \<Rightarrow> instant \<Rightarrow> sched_db \<Rightarrow> string \<Rightarrow> py_exc + edge_node" where
  "get_current_node dec now db token =
     err_bind (verify_node_token dec now token)
       (\<lambda>c. case uuid_parse (case cl_sub c of Some s \<Rightarrow> s | None \<Rightarrow> '''') of
              None \<Rightarrow> Inl (unauthorized ''Invalid node ID'')
            | Some i \<Rightarrow>
                (case node_at i db of
                   None \<Rightarrow> Inl (unauthorized ''Node not found'')
                 | Some n \<Rightarrow>
                     if en_status n = OFFLINE then Inl (unauthorized ''Node is offline'') else Inr n))"

section \<open>Registration and heartbeats\<close>

fun json_strings :: "json \<Rightarrow> string list" where
  "json_strings (JArr xs) = [s. JStr s \<leftarrow> xs]"
| "json_strings (JObj kvs) = map fst kvs"
| "json_strings j = []"

definition new_node :: "uuid \<Rightarrow> instant \<Rightarrow> string \<Rightarrow> string \<Rightarrow> string list \<Rightarrow> json \<Rightarrow> edge_node" where
  "new_node nid now name public_key caps metadata =
     \<lparr>en_id = nid, en_public_key = public_key, en_name = name, en_capabilities = JArr (map JStr caps),
      en_status = REGISTERED, en_last_heartbeat = None, en_current_load = Fin 0,
      en_metadata = (if json_truthy metadata then metadata else JObj []), en_created_at = now\<rparr>"

definition register_node ::
  "jwt_encode \<Rightarrow> instant \<Rightarrow> uuid \<Rightarrow> uuid \<Rightarrow> string \<Rightarrow> string \<Rightarrow> string \<Rightarrow> string list \<Rightarrow> json \<Rightarrow>
   sched_db \<Rightarrow> py_exc + (edge_node \<times> string \<times> string) \<times> sched_db" where
  "register_node enc now nid jti challenge name public_key caps metadata db =
     (case scalar_one_or_none (filter (\<lambda>n. en_public_key n = public_key) (sd_nodes db)) of
        Inl x \<Rightarrow> Inl x
      | Inr (Some n) \<Rightarrow>
          Inr ((n, challenge, create_node_token enc now jti (en_id n)
                  (if caps \<noteq> [] then caps else json_strings (en_capabilities n))), db)
      | Inr None \<Rightarrow>
          let n = new_node nid now name public_key caps metadata
          in Inr ((n, challenge, create_node_token enc now jti nid caps),
                  db\<lparr>sd_nodes := sd_nodes db @ [n]\<rparr>))"

definition clamp_load :: "pyfloat \<Rightarrow> pyfloat" where
  "clamp_load x = py_max (Fin 0) (py_min (Fin 1) x)"

definition beat :: "instant \<Rightarrow> pyfloat \<Rightarrow> json \<Rightarrow> edge_node \<Rightarrow> edge_node" where
  "beat now load metadata n =
     (let n1 = n\<lparr>en_last_heartbeat := Some now, en_current_load := clamp_load load\<rparr>;
          n2 = (if json_truthy metadata then n1\<lparr>en_metadata := metadata\<rparr> else n1)
      in if en_status n \<in> {REGISTERED, UNHEALTHY} then n2\<lparr>en_status := HEALTHY\<rparr> else n2)"

definition process_heartbeat ::
  "instant \<Rightarrow> edge_node \<Rightarrow> pyfloat \<Rightarrow> json \<Rightarrow> sched_db \<Rightarrow> edge_node \<times> sched_db" where
  "process_heartbeat now n load metadata db =
     (beat now load metadata n, put_node (beat now load metadata n) db)"

definition unhealthy_threshold_seconds :: int where
  "unhealthy_threshold_seconds = 30 * 3"

definition stale :: "instant \<Rightarrow> edge_node \<Rightarrow> bool" where
  "stale now n \<longleftrightarrow> en_status n = HEALTHY \<and>
     (case en_last_heartbeat n of
        None \<Rightarrow> False
      | Some t \<Rightarrow> t < now - seconds unhealthy_threshold_seconds)"

definition mark_stale_nodes :: "instant \<Rightarrow> sched_db \<Rightarrow> nat \<times> sched_db" where
  "mark_stale_nodes now db =
     (length (filter (stale now) (sd_nodes db)),
      db\<lparr>sd_nodes := update_where (stale now) (\<lambda>n. n\<lparr>en_status := UNHEALTHY\<rparr>) (sd_nodes db)\<rparr>)"

section \<open>Endpoints\<close>

record node_register_response =
  nr_node :: string
  nr_challenge :: string
  nr_token :: string
  nr_status :: string

definition register_endpoint ::
  "jwt_encode \<Rightarrow> instant \<Rightarrow> uuid \<Rightarrow> uuid \<Rightarrow> string \<Rightarrow> string \<Rightarrow> string \<Rightarrow> string list \<Rightarrow> json \<Rightarrow>
   sched_db session \<Rightarrow> (py_exc + node_register_response) \<times> sched_db session" where
  "register_endpoint enc now nid jti challenge name public_key caps metadata s =
     (case register_node enc now nid jti challenge name public_key caps metadata (working s) of
        Inl x \<Rightarrow> (Inl x, s)
      | Inr ((n, ch, tok), db) \<Rightarrow>
          (Inr \<lparr>nr_node = uuid_str (en_id n), nr_challenge = ch, nr_token = tok,
                nr_status = node_status_value (en_status n)\<rparr>, commit (s\<lparr>working := db\<rparr>)))"

definition heartbeat_endpoint ::
  "jwt_decode \<Rightarrow> instant \<Rightarrow> string \<Rightarrow> pyfloat \<Rightarrow> json \<Rightarrow> sched_db session \<Rightarrow>
   (py_exc + string \<times> string) \<times> sched_db session" where
  "heartbeat_endpoint dec now token load metadata s =
     (case get_current_node dec now (working s) token of
        Inl x \<Rightarrow> (Inl x, s)
      | Inr n \<Rightarrow>
          (case process_heartbeat now n load metadata (working s) of
             (n', db) \<Rightarrow> (Inr (uuid_str (en_id n'), node_status_value (en_status n')),
                          commit (s\<lparr>working := db\<rparr>))))"

text \<open>The fleet listing (administrators only) and the health view of one node.\<close>

record fleet_page =
  fp_nodes :: "edge_node list"
  fp_total :: nat
  fp_limit :: nat
  fp_offset :: nat

definition fleet_list_nodes ::
  "user \<Rightarrow> string option \<Rightarrow> nat \<Rightarrow> nat \<Rightarrow> sched_db \<Rightarrow> py_exc + fleet_page" where
  "fleet_list_nodes admin status_filter limit offset db =
     (if limit < 1 \<or> 100 < limit then Inl (HTTPException 422 ''validation error'')
      else if \<not> u_is_admin admin then Inl (HTTPException 403 ''Admin access required'')
      else
        err_bind
          (case status_filter of
             None \<Rightarrow> Inr (sd_nodes db)
           | Some s \<Rightarrow>
               if s = '''' then Inr (sd_nodes db)
               else (case node_status_of s of
                       None \<Rightarrow> Inl (HTTPException 422 (''Invalid status: '' @ s @
                         ''. Valid values: ['' @ join_quoted (map node_status_value all_node_status) @ '']''))
                     | Some st \<Rightarrow> Inr (filter (\<lambda>n. en_status n = st) (sd_nodes db))))
          (\<lambda>rows. Inr \<lparr>fp_nodes = take limit (drop offset (sort_key (\<lambda>n. - en_created_at n) rows)),
                       fp_total = length rows, fp_limit = limit, fp_offset = offset\<rparr>))"

definition node_health ::
  "instant \<Rightarrow> string \<Rightarrow> sched_db \<Rightarrow> py_exc + edge_node \<times> int" where
  "node_health now node_id db =
     (case uuid_parse node_id of
        None \<Rightarrow> Inl (HTTPException 422 ''Invalid node ID format'')
      | Some i \<Rightarrow>
          (case node_at i db of
             None \<Rightarrow> Inl (HTTPException 404 ''Node not found'')
           | Some n \<Rightarrow> Inr (n, now - en_created_at n)))"

section \<open>Facts\<close>

lemma node_claims_simps [simp]:
  "cl_sub (node_claims now j i c) = Some (uuid_str i)"
  "cl_exp (node_claims now j i c) = Some (unix_seconds (now + seconds (24 * 3600)))"
  "cl_iat (node_claims now j i c) = Some (unix_seconds now)"
  "cl_type (node_claims now j i c) = Some ''node''"
  "cl_jti (node_claims now j i c) = Some (uuid_str j)"
  by (simp_all add: node_claims_def)

lemma clamp_load_bounds: "Fin 0 \<le> clamp_load x \<and> clamp_load x \<le> Fin 1"
  by (cases x) (auto simp: clamp_load_def py_max_def py_min_def)

lemma clamp_load_id: "0 \<le> r \<Longrightarrow> r \<le> 1 \<Longrightarrow> clamp_load (Fin r) = Fin r"
  by (auto simp: clamp_load_def py_max_def py_min_def)

lemma beat_simps [simp]:
  "en_id (beat now l m n) = en_id n"
  "en_last_heartbeat (beat now l m n) = Some now"
  "en_current_load (beat now l m n) = clamp_load l"
  "en_status (beat now l m n) = (if en_status n = OFFLINE then OFFLINE else HEALTHY)"
  by (cases "en_status n"; simp add: beat_def Let_def)+

lemma mark_stale_at:
  "node_at i (snd (mark_stale_nodes t db)) =
     map_option (\<lambda>n. if stale t n then n\<lparr>en_status := UNHEALTHY\<rparr> else n) (node_at i db)"
  by (simp add: mark_stale_nodes_def row_at_update_where)

lemma get_current_node_issued:
  "codec_ok enc dec \<Longrightarrow> unix_seconds t \<le> unix_seconds (now + seconds (24 * 3600)) \<Longrightarrow>
   node_at i db = Some n \<Longrightarrow> en_status n \<noteq> OFFLINE \<Longrightarrow>
   get_current_node dec t db (create_node_token enc now j i caps) = Inr n"
  by (simp add: get_current_node_def verify_node_token_def create_node_token_def codec_ok_def)

section \<open>Properties\<close>

text \<open>A heartbeat makes a node available for ninety seconds. Whatever load it reports, NaN and
  infinities included, the stored load lies between 0 and 1 and a load in that range is stored as
  it is; the node is HEALTHY afterwards unless it is OFFLINE; and a later sweep marks it
  UNHEALTHY exactly when more than 90 seconds have passed since the heartbeat.\<close>

theorem heartbeat_health:
  assumes "node_at (en_id n) db = Some n" and "en_status n \<noteq> OFFLINE"
    and "process_heartbeat now n load metadata db = (n', db')"
  shows "Fin 0 \<le> en_current_load n' \<and> en_current_load n' \<le> Fin 1 \<and>
    (\<forall>r. load = Fin r \<and> 0 \<le> r \<and> r \<le> 1 \<longrightarrow> en_current_load n' = load) \<and>
    node_at (en_id n) db' = Some n' \<and> en_status n' = HEALTHY \<and>
    map_option en_status (node_at (en_id n) (snd (mark_stale_nodes t db'))) =
      Some (if now + 90000000 < t then UNHEALTHY else HEALTHY)"
proof -
  from assms(3) have n': "n' = beat now load metadata n" and db': "db' = put_node n' db"
    by (auto simp: process_heartbeat_def)
  have row: "node_at (en_id n) db' = Some n'" using assms(1) by (simp add: db' n')
  have "stale t n' \<longleftrightarrow> now + 90000000 < t"
    using assms(2) by (auto simp: n' stale_def unhealthy_threshold_seconds_def)
  with row assms(2) have "map_option en_status (node_at (en_id n) (snd (mark_stale_nodes t db'))) =
      Some (if now + 90000000 < t then UNHEALTHY else HEALTHY)"
    by (simp add: mark_stale_at) (simp add: n')
  with row assms(2) clamp_load_bounds [of load] clamp_load_id show ?thesis by (auto simp: n')
qed

definition plain_node :: edge_node where
  "plain_node = new_node 1 0 ''n'' ''pk'' [''render''] JNull"

theorem heartbeat_health_witness:
  "\<exists>n' db'. process_heartbeat 5 plain_node NaN JNull \<lparr>sd_nodes = [plain_node], sd_jobs = [], sd_dlq = []\<rparr> =
       (n', db') \<and> en_current_load n' \<le> Fin 1 \<and> en_status n' = HEALTHY"
proof -
  obtain n' db' where hb: "process_heartbeat 5 plain_node NaN JNull
      \<lparr>sd_nodes = [plain_node], sd_jobs = [], sd_dlq = []\<rparr> = (n', db')" by fastforce
  from heartbeat_health [OF _ _ hb] hb show ?thesis by (simp add: plain_node_def new_node_def)
qed

text \<open>A node token can be had without the node's key. Registering a public key that a node
  already has returns that node and a token that authenticates as it, whatever name and
  capabilities are sent; nothing is signed and no row changes.\<close>

theorem reregistration_impersonates:
  assumes "codec_ok enc dec" and "filter (\<lambda>m. en_public_key m = pk) (sd_nodes db) = [n]"
    and "distinct (map en_id (sd_nodes db))" and "en_status n \<noteq> OFFLINE"
    and "unix_seconds t \<le> unix_seconds (now + seconds (24 * 3600))"
  shows "\<exists>tok. register_node enc now nid jti challenge name pk caps metadata db = Inr ((n, challenge, tok), db) \<and>
    get_current_node dec t db tok = Inr n"
proof -
  have "n \<in> set (sd_nodes db)" using assms(2) by (metis filter_is_subset list.set_intros(1) subsetD)
  then have "node_at (en_id n) db = Some n" using assms(3) by (rule row_at_distinct [rotated])
  with assms show ?thesis
    by (simp add: register_node_def get_current_node_issued)
qed

theorem reregistration_impersonates_witness:
  "\<exists>tok. register_node unary_encode 10 99 3 ''c'' ''mallory'' ''pk'' [] JNull
       \<lparr>sd_nodes = [plain_node], sd_jobs = [], sd_dlq = []\<rparr> =
       Inr ((plain_node, ''c'', tok), \<lparr>sd_nodes = [plain_node], sd_jobs = [], sd_dlq = []\<rparr>) \<and>
     get_current_node unary_decode 20 \<lparr>sd_nodes = [plain_node], sd_jobs = [], sd_dlq = []\<rparr> tok = Inr plain_node"
  by (rule reregistration_impersonates [OF unary_codec])
     (simp_all add: plain_node_def new_node_def unix_seconds_def)

text \<open>Node and user credentials do not mix. No user token, of either type, authenticates a node,
  and no node token authenticates a user or refreshes a session.\<close>

theorem node_user_tokens_disjoint:
  assumes "codec_ok enc dec"
  shows "is_error (get_current_node dec t sdb (create_access_token enc m now jti sub)) \<and>
    is_error (get_current_node dec t sdb (create_refresh_token enc m now jti sub)) \<and>
    is_error (get_current_user dec t up bl db (create_node_token enc now jti i caps)) \<and>
    is_error (refresh enc dec cfg t up j1 j2 bl (create_node_token enc now jti i caps) db)"
proof -
  have "token_type_value ty \<noteq> ''node''" for ty by (cases ty) simp_all
  moreover have "token_type_of ''node'' = None" by (simp add: token_type_of_def)
  ultimately show ?thesis
    using assms by (auto simp: get_current_node_def verify_node_token_def create_access_token_def
        create_refresh_token_def create_node_token_def codec_ok_def get_current_user_def refresh_def
        verify_token_def)
qed

theorem node_user_tokens_disjoint_witness:
  "is_error (get_current_user unary_decode 5 True Map.empty [demo_user]
     (create_node_token unary_encode 0 1 7 []))"
  using node_user_tokens_disjoint [OF unary_codec] by blast

end
