(* ===== verification/Lifecycle.thy ===== *)
theory Lifecycle
  imports Retry Circuit_Breaker Nodes
begin

text \<open>
  The scheduler as one transition system: every operation of \<^verbatim>\<open>core/scheduler/\<close> that writes its
  tables, its queues or the breaker is a step of \<open>sched_step\<close>, in any order and with any
  arguments. The invariant of the tables and the finality of COMPLETED jobs are proved for all
  runs, through the \<open>step_invariant\<close> interface.
\<close>

section \<open>Steps\<close>

type_synonym sched_world = "sched_db \<times> queues \<times> breaker"

inductive sched_step :: "jwt_encode \<Rightarrow> sched_world \<Rightarrow> sched_world \<Rightarrow> bool" for enc where
  dispatch: "job_at jid db = None \<Longrightarrow> dispatch_job jid now up t p (db, q) = (r, db', q') \<Longrightarrow>
     sched_step enc (db, q, b) (db', q', b)"
| status: "update_job_status now i new res err db = Inr (j, db') \<Longrightarrow>
     sched_step enc (db, q, b) (db', q, b)"
| cancel: "cancel_job now i db = Inr (j, db') \<Longrightarrow> sched_step enc (db, q, b) (db', q, b)"
| retry: "job_at i db = Some j \<Longrightarrow> schedule_retry did now up j err' (db, q) = Inr (rr, db', q') \<Longrightarrow>
     sched_step enc (db, q, b) (db', q', b)"
| failure: "record_failure now n (b, db) = (st, b', db') \<Longrightarrow> sched_step enc (db, q, b) (db', q, b')"
| success: "record_success n (b, db) = (b', db') \<Longrightarrow> sched_step enc (db, q, b) (db', q, b')"
| check: "check_node_health now n (b, db) = (st, b') \<Longrightarrow> sched_step enc (db, q, b) (db, q, b')"
| register: "node_at nid db = None \<Longrightarrow>
     register_node enc now nid jti ch name pk caps meta db = Inr (out, db') \<Longrightarrow>
     sched_step enc (db, q, b) (db', q, b)"
| heartbeat: "node_at n db = Some node \<Longrightarrow> process_heartbeat now node load meta db = (node', db') \<Longrightarrow>
     sched_step enc (db, q, b) (db', q, b)"
| sweep: "mark_stale_nodes now db = (k, db') \<Longrightarrow> sched_step enc (db, q, b) (db', q, b)"

inductive_cases sched_stepE: "sched_step enc w w'"

definition empty_sched :: sched_world where
  "empty_sched = (\<lparr>sd_nodes = [], sd_jobs = [], sd_dlq = []\<rparr>, \<lambda>_. [], breaker_init)"

section \<open>The invariant\<close>

definition nodes_ok :: "sched_db \<Rightarrow> bool" where
  "nodes_ok db \<longleftrightarrow> distinct (map en_id (sd_nodes db)) \<and>
     (\<forall>n \<in> set (sd_nodes db). Fin 0 \<le> en_current_load n \<and> en_current_load n \<le> Fin 1)"

definition dlq_ok :: "sched_db \<Rightarrow> bool" where
  "dlq_ok db \<longleftrightarrow>
     (\<forall>d \<in> set (sd_dlq db). max_retries \<le> dl_retry d \<and> job_at (dl_job d) db \<noteq> None)"

definition sched_ok :: "sched_db \<Rightarrow> bool" where
  "sched_ok db \<longleftrightarrow> jobs_ok db \<and> nodes_ok db \<and> dlq_ok db"

text \<open>What one step may do to the tables: write one job row by a row that is well formed, unless the
  row is COMPLETED; add a job; return waiting jobs; add a dead letter; or write nodes.\<close>

lemma schedule_retry_Inr:
  assumes "job_at i db = Some j" and "jobs_ok db"
    and "schedule_retry did now up j err (db, q) = Inr (rr, db', q')"
  shows "j_status j \<noteq> COMPLETED \<and> (\<exists>j'. j_id j' = i \<and> job_ok j' \<and>
    (db' = put_job j' db \<or>
     (\<exists>d. db' = add_dead_letter d (put_job j' db) \<and> dl_job d = i \<and> max_retries \<le> dl_retry d)))"
proof -
  have i: "j_id j = i" and row: "job_at (j_id j) db = Some j"
    using assms(1) job_at_id by auto
  have nc: "j_status j \<noteq> COMPLETED"
    using schedule_retry_completed [OF row] assms(3) by auto
  show ?thesis
  proof (cases "should_retry j")
    case True
    obtain j' q1 where "schedule_retry did now up j err (db, q) = Inr (Retried j', put_job j' db, q1)"
      "j_id j' = j_id j" "job_ok j'"
      by (rule schedule_retry_retries [OF row nc assms(2) True])
    with nc i assms(3) show ?thesis by auto
  next
    case False
    obtain j' d where "schedule_retry did now up j err (db, q) = Inr (Dead d, add_dead_letter d (put_job j' db), q)"
      "j_id j' = j_id j" "job_ok j'" "dl_job d = j_id j" "dl_retry d = j_retry j"
      by (rule schedule_retry_dead [OF row nc assms(2) False])
    with nc i False assms(3) show ?thesis
      by (intro conjI exI [of _ j'] disjI2 exI [of _ d]) (auto simp: should_retry_def)
  qed
qed

inductive job_effect :: "sched_db \<Rightarrow> sched_db \<Rightarrow> bool" where
  put: "job_at i db = Some j \<Longrightarrow> j_status j \<noteq> COMPLETED \<Longrightarrow> j_id j' = i \<Longrightarrow> job_ok j' \<Longrightarrow>
     job_effect db (put_job j' db)"
| bury: "job_at i db = Some j \<Longrightarrow> j_status j \<noteq> COMPLETED \<Longrightarrow> j_id j' = i \<Longrightarrow> job_ok j' \<Longrightarrow>
     dl_job d = i \<Longrightarrow> max_retries \<le> dl_retry d \<Longrightarrow> job_effect db (add_dead_letter d (put_job j' db))"
| add: "job_at (j_id j) db = None \<Longrightarrow> job_ok j \<Longrightarrow> job_effect db (add_job j db)"
| move: "job_effect db (snd (redistribute_jobs n db))"
| nodes: "sd_jobs db' = sd_jobs db \<Longrightarrow> sd_dlq db' = sd_dlq db \<Longrightarrow> job_effect db db'"

lemma job_effect_ok: "job_effect db db' \<Longrightarrow> jobs_ok db \<and> dlq_ok db \<Longrightarrow> jobs_ok db' \<and> dlq_ok db'"
proof (induction rule: job_effect.induct)
  case (nodes db' db)
  then show ?case by (simp add: jobs_ok_def dlq_ok_def)
next
  case (put i db j j')
  then show ?case by (auto simp: put_job_ok dlq_ok_def)
next
  case (bury i db j j' d)
  then show ?case by (auto simp: put_job_ok dlq_ok_def)
next
  case (add j db)
  then show ?case by (auto simp: add_job_ok dlq_ok_def split: option.splits)
next
  case (move db n)
  then show ?case by (auto simp: redistribute_jobs_ok dlq_ok_def)
qed

lemma job_effect_completed:
  "job_effect db db' \<Longrightarrow> job_at i db = Some j \<Longrightarrow> j_status j = COMPLETED \<Longrightarrow> job_at i db' = Some j"
  by (induction rule: job_effect.induct) (auto simp: movable_def)

lemma set_node_status_effect: "job_effect db (set_node_status n st db)"
  by (rule job_effect.nodes) simp_all

lemma record_failure_db:
  "record_failure now n (b, db) = (st, b', db') \<Longrightarrow>
   db' = db \<or> db' = snd (redistribute_jobs n (set_node_status n UNHEALTHY db))"
  by (auto simp: record_failure_def Let_def split: if_splits)

lemma job_effect_once: "job_effect db db' \<Longrightarrow> \<exists>db1. job_effect db db1 \<and> job_effect db1 db'"
  by (blast intro: job_effect.nodes)

lemma sched_step_effect:
  "sched_step enc w w' \<Longrightarrow> jobs_ok (fst w) \<Longrightarrow> \<exists>db1. job_effect (fst w) db1 \<and> job_effect db1 (fst w')"
proof (induction rule: sched_step.induct)
  case (dispatch jid db now up t p q r db' q' b)
  then have "job_effect db db'"
    by (auto simp: dispatch_job_def Let_def split: option.splits intro: job_effect.nodes job_effect.add)
  then show ?case by (simp add: job_effect_once)
next
  case (status now i new res err db j db' q b)
  then obtain j0 where "job_at i db = Some j0" "new \<in> valid_transitions (j_status j0)"
    "j = transition_job now new res err j0" "db' = put_job j db" by (auto simp: update_job_status_Inr)
  moreover from this have "j_status j0 \<noteq> COMPLETED" by auto
  moreover have "job_ok j" using calculation status by (auto intro!: transition_job_ok intro: jobs_okD)
  ultimately have "job_effect db db'" using job_at_id by (auto intro!: job_effect.put)
  then show ?case by (simp add: job_effect_once)
next
  case (cancel now i db j db' q b)
  then obtain j0 where "job_at i db = Some j0" "j_status j0 \<in> {QUEUED, DISPATCHED}"
    "j = cancelled now j0" "db' = put_job j db" by (auto simp: cancel_job_Inr)
  moreover from this have "job_ok j" using cancel by (auto intro: cancelled_ok jobs_okD)
  ultimately have "job_effect db db'" using job_at_id by (auto intro!: job_effect.put)
  then show ?case by (simp add: job_effect_once)
next
  case (retry i db j did now up err' q rr db' q' b)
  then have "job_effect db db'"
    using schedule_retry_Inr [of i db j did now up err' q rr db' q']
    by (auto intro: job_effect.put job_effect.bury)
  then show ?case by (simp add: job_effect_once)
next
  case (failure now n b db st b' db' q)
  then consider "db' = db" | "db' = snd (redistribute_jobs n (set_node_status n UNHEALTHY db))"
    using record_failure_db by blast
  then show ?case
  proof cases
    case 1
    then show ?thesis by (simp add: job_effect_once job_effect.nodes)
  next
    case 2
    show ?thesis
      unfolding 2 fst_conv
      by (intro exI [of _ "set_node_status n UNHEALTHY db"] conjI set_node_status_effect job_effect.move)
  qed
next
  case (success n b db b' db' q)
  then have "db' = set_node_status n HEALTHY db" by (simp add: record_success_def)
  then show ?case by (simp add: job_effect_once set_node_status_effect)
next
  case (check now n b db st b' q)
  show ?case by (simp add: job_effect_once job_effect.nodes)
next
  case (register nid db now jti ch name pk caps meta out db' q b)
  then have "job_effect db db'"
    by (auto simp: register_node_def Let_def intro!: job_effect.nodes split: sum.splits option.splits)
  then show ?case by (simp add: job_effect_once)
next
  case (heartbeat n db node now load meta node' db' q b)
  then have "job_effect db db'" by (auto simp: process_heartbeat_def intro!: job_effect.nodes)
  then show ?case by (simp add: job_effect_once)
next
  case (sweep now db k db' q b)
  then have "job_effect db db'" by (auto simp: mark_stale_nodes_def intro!: job_effect.nodes)
  then show ?case by (simp add: job_effect_once)
qed

text \<open>Nodes: identifiers stay unique and loads stay within the unit interval.\<close>

lemma put_node_ok [inv_intros]:
  "nodes_ok db \<Longrightarrow> Fin 0 \<le> en_current_load n \<Longrightarrow> en_current_load n \<le> Fin 1 \<Longrightarrow> nodes_ok (put_node n db)"
  by (auto simp: nodes_ok_def dest: put_node_in)

lemma nodes_ok_cong: "sd_nodes db' = sd_nodes db \<Longrightarrow> nodes_ok db' = nodes_ok db"
  by (simp add: nodes_ok_def)

lemma set_node_status_nodes_ok [inv_intros]: "nodes_ok db \<Longrightarrow> nodes_ok (set_node_status n st db)"
  unfolding nodes_ok_def set_node_status_def
  by (auto simp: row_update_keys set_status_def dest!: row_update_in)

lemma redispatch_nodes: "redispatch up j (db, q) = (j', db', q') \<Longrightarrow> sd_nodes db' = sd_nodes db"
  by (auto simp: redispatch_def Let_def split: option.splits)

lemma update_job_status_nodes: "update_job_status now i new r e db = Inr (j, db') \<Longrightarrow> sd_nodes db' = sd_nodes db"
  by (auto simp: update_job_status_Inr)

lemma requeue_nodes: "requeue now j err db = Inr (j', db') \<Longrightarrow> sd_nodes db' = sd_nodes db"
  by (auto simp: requeue_def err_bind_Inr dest!: update_job_status_nodes split: if_splits)

lemma move_to_dlq_nodes: "move_to_dlq did now j err db = Inr (d, db') \<Longrightarrow> sd_nodes db' = sd_nodes db"
  by (auto simp: move_to_dlq_def err_bind_Inr Let_def dest!: update_job_status_nodes split: if_splits)

lemma schedule_retry_nodes:
  "schedule_retry did now up j err (db, q) = Inr (rr, db', q') \<Longrightarrow> sd_nodes db' = sd_nodes db"
proof -
  assume call: "schedule_retry did now up j err (db, q) = Inr (rr, db', q')"
  show ?thesis
  proof (cases "should_retry j")
    case True
    with call obtain j1 db1 where r: "requeue now j err db = Inr (j1, db1)"
      and c: "(case redispatch up j1 (db1, q) of (j2, w2) \<Rightarrow> Inr (Retried j2, w2)) =
        (Inr (rr, db', q') :: py_exc + retry_result \<times> sched_db \<times> queues)"
      by (auto simp: schedule_retry_def err_bind_Inr)
    obtain j2 db2 q2 where d: "redispatch up j1 (db1, q) = (j2, db2, q2)" using prod_cases3 by blast
    with c have "db2 = db'" by simp
    with redispatch_nodes [OF d] requeue_nodes [OF r] show ?thesis by simp
  next
    case False
    with call show ?thesis by (auto simp: schedule_retry_def err_bind_Inr dest!: move_to_dlq_nodes)
  qed
qed

lemma dispatch_job_nodes:
  "dispatch_job i now up t p (db, q) = (r, db', q') \<Longrightarrow> sd_nodes db' = sd_nodes db"
  by (auto simp: dispatch_job_def Let_def split: option.splits)

lemma cancel_job_nodes: "cancel_job now i db = Inr (j, db') \<Longrightarrow> sd_nodes db' = sd_nodes db"
  by (auto simp: cancel_job_Inr)

lemma sweep_nodes_ok: "nodes_ok db \<Longrightarrow> nodes_ok (snd (mark_stale_nodes now db))"
  unfolding nodes_ok_def mark_stale_nodes_def by (auto simp: update_where_keys) (auto simp: update_where_def)

lemma register_nodes_ok:
  "register_node enc now nid jti ch name pk caps meta db = Inr (out, db') \<Longrightarrow> node_at nid db = None \<Longrightarrow>
   nodes_ok db \<Longrightarrow> nodes_ok db'"
  by (auto simp: register_node_def Let_def nodes_ok_def new_node_def row_at_None_iff
      split: sum.splits option.splits)

lemma sched_step_nodes_ok: "sched_step enc w w' \<Longrightarrow> nodes_ok (fst w) \<Longrightarrow> nodes_ok (fst w')"
proof (induction rule: sched_step.induct)
  case (dispatch jid db now up t p q r db' q' b)
  then show ?case using nodes_ok_cong [OF dispatch_job_nodes [OF dispatch.hyps(2)]] by simp
next
  case (status now i new res err db j db' q b)
  then show ?case using nodes_ok_cong [OF update_job_status_nodes [OF status.hyps(1)]] by simp
next
  case (cancel now i db j db' q b)
  then show ?case using nodes_ok_cong [OF cancel_job_nodes [OF cancel.hyps(1)]] by simp
next
  case (retry i db j did now up err' q rr db' q' b)
  then show ?case using nodes_ok_cong [OF schedule_retry_nodes [OF retry.hyps(2)]] by simp
next
  case (failure now n b db st b' db' q)
  then show ?case
    using record_failure_db [of now n b db st b' db'] set_node_status_nodes_ok [of db n UNHEALTHY]
      nodes_ok_cong [of "snd (redistribute_jobs n (set_node_status n UNHEALTHY db))" "set_node_status n UNHEALTHY db"]
    by auto
next
  case (success n b db b' db' q)
  then show ?case by (auto simp: record_success_def set_node_status_nodes_ok)
next
  case (check now n b db st b' q)
  then show ?case by simp
next
  case (register nid db now jti ch name pk caps meta out db' q b)
  then show ?case using register_nodes_ok by simp
next
  case (heartbeat n db node now load meta node' db' q b)
  then show ?case using clamp_load_bounds [of load] by (auto simp: process_heartbeat_def put_node_ok)
next
  case (sweep now db k db' q b)
  then show ?case using sweep_nodes_ok [of db now] by simp
qed

lemma sched_step_ok: "sched_step enc w w' \<Longrightarrow> sched_ok (fst w) \<Longrightarrow> sched_ok (fst w')"
  using sched_step_effect [of enc w w'] sched_step_nodes_ok [of enc w w'] job_effect_ok
  unfolding sched_ok_def by metis

lemma empty_sched_ok: "sched_ok (fst empty_sched)"
  by (simp add: empty_sched_def sched_ok_def jobs_ok_def nodes_ok_def dlq_ok_def)

interpretation lifecycle: step_invariant "\<lambda>w. w = empty_sched" "sched_step enc" "\<lambda>w. sched_ok (fst w)"
  for enc
  by unfold_locales (auto simp: empty_sched_ok intro: sched_step_ok)

text \<open>The same interface for a single row: a COMPLETED job, once there, is there in every later
  state.\<close>

interpretation finished: step_invariant "\<lambda>w. sched_ok (fst w) \<and> job_at i (fst w) = Some j \<and> j_status j = COMPLETED"
    "sched_step enc" "\<lambda>w. sched_ok (fst w) \<and> job_at i (fst w) = Some j \<and> j_status j = COMPLETED"
  for i j enc
proof unfold_locales
  fix w w'
  assume inv: "sched_ok (fst w) \<and> job_at i (fst w) = Some j \<and> j_status j = COMPLETED"
    and step: "sched_step enc w w'"
  from sched_step_effect [OF step] inv obtain db1 where "job_effect (fst w) db1" "job_effect db1 (fst w')"
    by (auto simp: sched_ok_def)
  with inv job_effect_completed have "job_at i (fst w') = Some j" by blast
  with inv sched_step_ok [OF step]
  show "sched_ok (fst w') \<and> job_at i (fst w') = Some j \<and> j_status j = COMPLETED" by blast
qed simp

section \<open>Properties\<close>

text \<open>C7: the scheduler's tables stay consistent in every run from an empty system, whatever operations
  run in whatever order: job and node identifiers are unique, a job that was dispatched, runs or
  ended has the corresponding times, node loads lie in the unit interval, and every dead letter
  belongs to a job of the table that had used up its three retries.\<close>

theorem scheduler_invariant:
  assumes "(sched_step enc)\<^sup>*\<^sup>* empty_sched (db, q, b)"
  shows "distinct (map j_id (sd_jobs db)) \<and> distinct (map en_id (sd_nodes db)) \<and>
    (\<forall>i j. job_at i db = Some j \<longrightarrow> job_ok j) \<and>
    (\<forall>n \<in> set (sd_nodes db). Fin 0 \<le> en_current_load n \<and> en_current_load n \<le> Fin 1) \<and>
    (\<forall>d \<in> set (sd_dlq db). 3 \<le> dl_retry d \<and> job_at (dl_job d) db \<noteq> None)"
proof -
  have "sched_ok db" using lifecycle.inv_reachable [OF refl assms] by simp
  then show ?thesis
    by (auto simp: sched_ok_def jobs_ok_def nodes_ok_def dlq_ok_def max_retries_def dest: row_at_SomeD)
qed

theorem scheduler_invariant_witness:
  "\<exists>db q b. (sched_step unary_encode)\<^sup>*\<^sup>* empty_sched (db, q, b) \<and> sd_nodes db \<noteq> [] \<and>
     distinct (map en_id (sd_nodes db))"
proof -
  let ?db = "\<lparr>sd_nodes = [plain_node], sd_jobs = [], sd_dlq = []\<rparr>"
  have "sched_step unary_encode empty_sched (?db, \<lambda>_. [], breaker_init)"
    unfolding empty_sched_def
    by (rule sched_step.register [where nid = 1 and now = 0 and jti = 2 and ch = "''c''" and name = "''n''" and
        pk = "''pk''" and caps = "[''render'']" and meta = JNull])
       (simp_all add: register_node_def plain_node_def Let_def)
  then have r: "(sched_step unary_encode)\<^sup>*\<^sup>* empty_sched (?db, \<lambda>_. [], breaker_init)" by blast
  from scheduler_invariant [OF r] r show ?thesis
    by (intro exI [of _ ?db] exI [of _ "\<lambda>_. []"] exI [of _ breaker_init]) simp
qed

text \<open>C8: COMPLETED is final for operations that do not overlap. In every run of whole operations,
  whatever operations follow (status updates, cancellation, retries, redistribution), the row of a
  COMPLETED job never changes again.\<close>

theorem completed_is_final:
  assumes "(sched_step enc)\<^sup>*\<^sup>* empty_sched w" and "job_at i (fst w) = Some j" and "j_status j = COMPLETED"
    and "(sched_step enc)\<^sup>*\<^sup>* w w'"
  shows "job_at i (fst w') = Some j"
proof -
  have "sched_ok (fst w)" using lifecycle.inv_reachable [OF refl assms(1)] .
  with assms(2,3) finished.inv_steps [OF assms(4)] show ?thesis by blast
qed

text \<open>A run that completes a job: register, first success, dispatch, start, completion.\<close>

definition ready_node :: edge_node where
  "ready_node = set_status HEALTHY plain_node"

definition one_node :: "job list \<Rightarrow> sched_db" where
  "one_node js = \<lparr>sd_nodes = [ready_node], sd_jobs = js, sd_dlq = []\<rparr>"

definition job_9 :: "job_status \<Rightarrow> job" where
  "job_9 st = (new_job 9 5 1 ''render'' ''p'')\<lparr>j_status := st,
     j_completed_at := (if st = COMPLETED then Some 5 else None)\<rparr>"

lemma ready_best: "find_best_node ''render'' (one_node []) = Some ready_node"
  by (simp add: find_best_node_def one_node_def ready_node_def plain_node_def new_node_def set_status_def)

lemma completing_run:
  "(sched_step unary_encode)\<^sup>*\<^sup>* empty_sched
     (one_node [job_9 COMPLETED], \<lambda>_. [], breaker_init)"
proof -
  let ?st = "sched_step unary_encode"
  let ?new = "\<lparr>sd_nodes = [plain_node], sd_jobs = [], sd_dlq = []\<rparr>"
  have s1: "?st empty_sched (?new, \<lambda>_. [], breaker_init)"
    unfolding empty_sched_def
    by (rule sched_step.register [where nid = 1 and now = 0 and jti = 2 and ch = "''c''" and name = "''n''" and
        pk = "''pk''" and caps = "[''render'']" and meta = JNull])
       (simp_all add: register_node_def plain_node_def Let_def)
  have s2: "?st (?new, \<lambda>_. [], breaker_init) (one_node [], \<lambda>_. [], breaker_init)"
    by (rule sched_step.success [where n = 1])
       (simp add: record_success_def breaker_reset_def breaker_init_def set_node_status_def one_node_def
         ready_node_def plain_node_def new_node_def)
  have id: "en_id ready_node = 1" and "en_id ready_node \<noteq> 0"
    by (simp_all add: ready_node_def plain_node_def new_node_def set_status_def)
  then have d: "dispatch_job 9 5 False ''render'' ''p'' (one_node [], \<lambda>_. []) =
      (Inr (new_job 9 5 1 ''render'' ''p''), add_job (new_job 9 5 1 ''render'' ''p'') (one_node []), \<lambda>_. [])"
    by (simp add: dispatch_job_def ready_best push_to_queue_def Let_def)
  have a: "add_job (new_job 9 5 1 ''render'' ''p'') (one_node []) = one_node [job_9 DISPATCHED]"
    by (simp add: add_job_def one_node_def job_9_def new_job_def)
  have s3: "?st (one_node [], \<lambda>_. [], breaker_init) (one_node [job_9 DISPATCHED], \<lambda>_. [], breaker_init)"
    by (rule sched_step.dispatch [where jid = 9 and now = 5 and up = False and t = "''render''" and p = "''p''"])
       (simp_all add: d a, simp_all add: one_node_def)
  have s4: "?st (one_node [job_9 DISPATCHED], \<lambda>_. [], breaker_init) (one_node [job_9 RUNNING], \<lambda>_. [], breaker_init)"
    by (rule sched_step.status [where now = 5 and i = 9 and new = RUNNING and res = None and err = None])
       (simp add: update_job_status_def one_node_def job_9_def transition_job_def put_job_def Let_def new_job_def)
  have s5: "?st (one_node [job_9 RUNNING], \<lambda>_. [], breaker_init) (one_node [job_9 COMPLETED], \<lambda>_. [], breaker_init)"
    by (rule sched_step.status [where now = 5 and i = 9 and new = COMPLETED and res = None and err = None])
       (simp add: update_job_status_def one_node_def job_9_def transition_job_def put_job_def Let_def new_job_def)
  from s5 have "?st\<^sup>*\<^sup>* (one_node [job_9 RUNNING], \<lambda>_. [], breaker_init) (one_node [job_9 COMPLETED], \<lambda>_. [], breaker_init)"
    by blast
  with s4 have "?st\<^sup>*\<^sup>* (one_node [job_9 DISPATCHED], \<lambda>_. [], breaker_init) (one_node [job_9 COMPLETED], \<lambda>_. [], breaker_init)"
    by (rule converse_rtranclp_into_rtranclp)
  with s3 have "?st\<^sup>*\<^sup>* (one_node [], \<lambda>_. [], breaker_init) (one_node [job_9 COMPLETED], \<lambda>_. [], breaker_init)"
    by (rule converse_rtranclp_into_rtranclp)
  with s2 have "?st\<^sup>*\<^sup>* (?new, \<lambda>_. [], breaker_init) (one_node [job_9 COMPLETED], \<lambda>_. [], breaker_init)"
    by (rule converse_rtranclp_into_rtranclp)
  with s1 show ?thesis by (rule converse_rtranclp_into_rtranclp)
qed

theorem completed_is_final_witness:
  "\<exists>w'. sched_step unary_encode (one_node [job_9 COMPLETED], \<lambda>_. [], breaker_init) w' \<and>
     job_at 9 (fst w') = Some (job_9 COMPLETED)"
proof -
  obtain st b' db' where f: "record_failure 7 1 (breaker_init, one_node [job_9 COMPLETED]) = (st, b', db')"
    using prod_cases3 by blast
  then have s: "sched_step unary_encode (one_node [job_9 COMPLETED], \<lambda>_. [], breaker_init) (db', \<lambda>_. [], b')"
    by (rule sched_step.failure)
  have "job_at 9 (fst (one_node [job_9 COMPLETED], (\<lambda>_. []) :: queues, breaker_init)) = Some (job_9 COMPLETED)"
    "j_status (job_9 COMPLETED) = COMPLETED"
    by (simp_all add: one_node_def job_9_def new_job_def)
  from completed_is_final [OF completing_run this r_into_rtranclp [of "sched_step unary_encode", OF s]] s
  show ?thesis by blast
qed

end
