(* ===== verification/Rate_Limit.thy ===== *)
theory Rate_Limit
  imports Prelude
begin

text \<open>
  The rate limiter of \<^verbatim>\<open>core/auth/rate_limit.py\<close>. Redis holds, under a key, a counter and
  the instant at which the key expires (\<open>None\<close>: never). \<open>redis_reply\<close> says which of the calls of one
  request Redis answers: the code fails open when one does not.
\<close>

section \<open>The Redis counter\<close>

type_synonym counters = "string \<rightharpoonup> nat \<times> instant option"

definition live_counter :: "instant \<Rightarrow> string \<Rightarrow> counters \<Rightarrow> (nat \<times> instant option) option" where
  "live_counter now k r =
     (case r k of
        None \<Rightarrow> None
      | Some (c, Some e) \<Rightarrow> if now < e then Some (c, Some e) else None
      | Some (c, None) \<Rightarrow> Some (c, None))"

definition redis_incr :: "instant \<Rightarrow> string \<Rightarrow> counters \<Rightarrow> nat \<times> counters" where
  "redis_incr now k r =
     (case live_counter now k r of
        None \<Rightarrow> (1, r(k \<mapsto> (1, None)))
      | Some (c, e) \<Rightarrow> (c + 1, r(k \<mapsto> (c + 1, e))))"

definition redis_expire :: "instant \<Rightarrow> string \<Rightarrow> int \<Rightarrow> counters \<Rightarrow> counters" where
  "redis_expire now k s r =
     (case live_counter now k r of
        None \<Rightarrow> r
      | Some (c, e) \<Rightarrow> r(k \<mapsto> (c, Some (now + seconds s))))"

text \<open>\<open>TTL\<close>: whole seconds left, -1 for a key without expiry, -2 for no key.\<close>

definition redis_ttl :: "instant \<Rightarrow> string \<Rightarrow> counters \<Rightarrow> int" where
  "redis_ttl now k r =
     (case live_counter now k r of
        None \<Rightarrow> - 2
      | Some (c, None) \<Rightarrow> - 1
      | Some (c, Some e) \<Rightarrow> (e - now + 500000) div 1000000)"

section \<open>The limiter\<close>

record limiter =
  max_requests :: nat
  window_seconds :: int

definition login_limiter :: limiter where
  "login_limiter = \<lparr>max_requests = 5, window_seconds = 60\<rparr>"

definition refresh_limiter :: limiter where
  "refresh_limiter = \<lparr>max_requests = 3, window_seconds = 60\<rparr>"

definition register_limiter :: limiter where
  "register_limiter = \<lparr>max_requests = 10, window_seconds = 60\<rparr>"

record redis_reply =
  incr_ok :: bool
  expire_ok :: bool
  ttl_ok :: bool

definition limit_key :: "string \<Rightarrow> string \<Rightarrow> string" where
  "limit_key path client_ip = ''rate_limit:'' @ path @ '':'' @ client_ip"

text \<open>A verdict: the request passes, or 429 with the seconds of \<open>Retry-After\<close>.\<close>

datatype verdict = Pass | TooMany int

definition check_limit ::
  "limiter \<Rightarrow> redis_reply \<Rightarrow> instant \<Rightarrow> string \<Rightarrow> counters \<Rightarrow> verdict \<times> counters" where
  "check_limit l a now k r =
     (if \<not> incr_ok a then (Pass, r)
      else case redis_incr now k r of
             (current, r1) \<Rightarrow>
               if current = 1 \<and> \<not> expire_ok a then (Pass, r1)
               else
                 let r2 = (if current = 1 then redis_expire now k (window_seconds l) r1 else r1)
                 in if max_requests l < current
                    then (if ttl_ok a then (TooMany (max (redis_ttl now k r2) 1), r2) else (Pass, r2))
                    else (Pass, r2))"

text \<open>The verdicts on a sequence of requests, each with its instant and Redis's replies.\<close>

fun verdicts :: "limiter \<Rightarrow> string \<Rightarrow> (instant \<times> redis_reply) list \<Rightarrow> counters \<Rightarrow> verdict list \<times> counters" where
  "verdicts l k [] r = ([], r)"
| "verdicts l k ((now, a) # es) r =
     (case check_limit l a now k r of
        (v, r1) \<Rightarrow> (case verdicts l k es r1 of (vs, r2) \<Rightarrow> (v # vs, r2)))"

lemma verdicts_Cons [simp]:
  "verdicts l k ((now, a) # es) r =
     (fst (check_limit l a now k r) # fst (verdicts l k es (snd (check_limit l a now k r))),
      snd (verdicts l k es (snd (check_limit l a now k r))))"
  by (simp split: prod.split)

declare verdicts.simps(2) [simp del]

abbreviation redis_up :: redis_reply where
  "redis_up \<equiv> \<lparr>incr_ok = True, expire_ok = True, ttl_ok = True\<rparr>"

section \<open>Facts\<close>

lemma check_limit_first:
  "live_counter now k r = None \<Longrightarrow> 0 < window_seconds l \<Longrightarrow> 1 \<le> max_requests l \<Longrightarrow>
   check_limit l redis_up now k r = (Pass, r(k \<mapsto> (1, Some (now + seconds (window_seconds l)))))"
  by (simp add: check_limit_def redis_incr_def redis_expire_def live_counter_def Let_def)

lemma check_limit_next:
  assumes "r k = Some (c, Some e)" and "now < e" and "0 < c"
  shows "check_limit l redis_up now k r =
    (if max_requests l < c + 1 then TooMany (max ((e - now + 500000) div 1000000) 1) else Pass,
     r(k \<mapsto> (c + 1, Some e)))"
  using assms by (simp add: check_limit_def redis_incr_def live_counter_def redis_ttl_def Let_def)

lemma check_limit_stuck:
  assumes "r k = Some (c, None)" and "0 < c" and "incr_ok a"
  shows "check_limit l a now k r =
    (if max_requests l < c + 1 \<and> ttl_ok a then TooMany 1 else Pass, r(k \<mapsto> (c + 1, None)))"
  using assms by (simp add: check_limit_def redis_incr_def live_counter_def redis_ttl_def Let_def)

text \<open>Within the window of a counter the verdicts depend on the count alone.\<close>

lemma verdicts_window:
  assumes "r k = Some (c, Some e)" and "0 < c" and "\<forall>t \<in> set ts. t < e"
  shows "map (\<lambda>v. v = Pass) (fst (verdicts l k (map (\<lambda>t. (t, redis_up)) ts) r)) =
    map (\<lambda>i. c + i < max_requests l) [0..<length ts] \<and>
    snd (verdicts l k (map (\<lambda>t. (t, redis_up)) ts) r) k = Some (c + length ts, Some e)"
  using assms
proof (induction ts arbitrary: r c)
  case Nil
  then show ?case by simp
next
  case (Cons t ts)
  define r1 where "r1 = r(k \<mapsto> (c + 1, Some e))"
  have step: "check_limit l redis_up t k r =
    (if max_requests l < c + 1 then TooMany (max ((e - t + 500000) div 1000000) 1) else Pass, r1)"
    using Cons.prems unfolding r1_def by (intro check_limit_next) auto
  have up: "map (\<lambda>i. c + i < max_requests l) [0..<length (t # ts)] =
      (c < max_requests l) # map (\<lambda>i. (c + 1) + i < max_requests l) [0..<length ts]"
    by (simp add: map_upt_Suc del: upt_Suc)
  have "r1 k = Some (c + 1, Some e)" by (simp add: r1_def)
  with Cons.IH [of r1 "c + 1"] Cons.prems step show ?case
    unfolding up by auto
qed

lemma verdicts_stuck:
  assumes "r k = Some (c, None)" and "0 < c" and "max_requests l \<le> c"
  shows "\<forall>v \<in> set (fst (verdicts l k (map (\<lambda>t. (t, redis_up)) ts) r)). v = TooMany 1"
  using assms
proof (induction ts arbitrary: r c)
  case Nil
  then show ?case by simp
next
  case (Cons t ts)
  define r1 where "r1 = r(k \<mapsto> (c + 1, None))"
  have "check_limit l redis_up t k r = (TooMany 1, r1)"
    using Cons.prems by (simp add: check_limit_stuck r1_def)
  moreover have "r1 k = Some (c + 1, None)" by (simp add: r1_def)
  ultimately show ?case
    using Cons.IH Cons.prems by simp
qed

section \<open>Properties\<close>

text \<open>A window admits exactly \<open>max_requests\<close>. When no counter is live, the requests of the window
  that the first of them opens pass exactly up to the limit, in order, and all others of the
  window are refused.\<close>

theorem window_admits_max:
  assumes "live_counter t0 k r = None" and "0 < window_seconds l" and "1 \<le> max_requests l"
    and "\<forall>t \<in> set ts. t < t0 + seconds (window_seconds l)"
  shows "map (\<lambda>v. v = Pass) (fst (verdicts l k (map (\<lambda>t. (t, redis_up)) (t0 # ts)) r)) =
    map (\<lambda>i. i < max_requests l) [0..<length (t0 # ts)]"
proof -
  let ?r = "r(k \<mapsto> (1, Some (t0 + seconds (window_seconds l))))"
  have up: "map (\<lambda>i. i < max_requests l) [0..<length (t0 # ts)] =
      True # map (\<lambda>i. 1 + i < max_requests l) [0..<length ts]"
    using assms(3) by (simp add: map_upt_Suc del: upt_Suc)
  show ?thesis
    unfolding up using verdicts_window [of ?r k 1 "t0 + seconds (window_seconds l)" ts l] assms
    by (simp add: check_limit_first)
qed

theorem window_admits_max_witness:
  "map (\<lambda>v. v = Pass) (fst (verdicts login_limiter ''k''
     (map (\<lambda>t. (t, redis_up)) (0 # [1, 2, 3, 4, 5, 6])) Map.empty)) =
   map (\<lambda>i. i < max_requests login_limiter) [0..<length (0 # [1, 2, 3, 4, 5, 6 :: instant])]"
  by (rule window_admits_max) (simp_all add: live_counter_def login_limiter_def)

text \<open>A lost expiry locks a client out for good. If Redis counts the first request of a client but
  fails to set the expiry, that request passes, \<open>max_requests - 1\<close> more pass, and from then on every
  request is refused, however much later it comes.\<close>

theorem lost_expiry_locks_out:
  assumes "live_counter t0 k r = None" and "length ts = max_requests l - 1" and "1 \<le> max_requests l"
    and "verdicts l k ((t0, \<lparr>incr_ok = True, expire_ok = False, ttl_ok = True\<rparr>) #
           map (\<lambda>t. (t, redis_up)) ts) r = (vs, r')"
  shows "list_all (\<lambda>v. v = TooMany 1) (fst (verdicts l k (map (\<lambda>t. (t, redis_up)) later) r'))"
proof -
  have run: "snd (verdicts l k (map (\<lambda>t. (t, redis_up)) ts) s) k = Some (c + length ts, None)"
    if "s k = Some (c, None)" "0 < c" for s c
    using that
  proof (induction ts arbitrary: s c)
    case Nil
    then show ?case by simp
  next
    case (Cons t ts)
    define s1 where "s1 = s(k \<mapsto> (c + 1, None))"
    have "snd (check_limit l redis_up t k s) = s1"
      using Cons.prems by (simp add: check_limit_stuck s1_def)
    moreover have "s1 k = Some (c + 1, None)" by (simp add: s1_def)
    ultimately show ?case
      using Cons.IH by simp
  qed
  have first: "check_limit l \<lparr>incr_ok = True, expire_ok = False, ttl_ok = True\<rparr> t0 k r =
      (Pass, r(k \<mapsto> (1, None)))"
    using assms(1) by (simp add: check_limit_def redis_incr_def)
  have "r' = snd (verdicts l k (map (\<lambda>t. (t, redis_up)) ts) (r(k \<mapsto> (1, None))))"
    using assms(4) first by auto
  then have "r' k = Some (max_requests l, None)"
    using run [of "r(k \<mapsto> (1, None))" 1] assms(2,3) by simp
  then show ?thesis
    unfolding list_all_iff using assms(3) by (intro verdicts_stuck) auto
qed

theorem lost_expiry_locks_out_witness:
  "list_all (\<lambda>v. v = TooMany 1) (fst (verdicts refresh_limiter ''k'' (map (\<lambda>t. (t, redis_up)) [10 ^ 15])
     (snd (verdicts refresh_limiter ''k'' ((0, \<lparr>incr_ok = True, expire_ok = False, ttl_ok = True\<rparr>) #
        map (\<lambda>t. (t, redis_up)) [1, 2]) Map.empty))))"
  by (rule lost_expiry_locks_out [where ts = "[1, 2]" and ?t0.0 = 0 and r = Map.empty])
     (simp_all add: live_counter_def refresh_limiter_def)


text \<open>The documentation calls the limiter a sliding window. It is a fixed one: a client that has made its
  first request, and waits for the end of the window that request has opened, gets
  \<open>2 * max_requests - 1\<close> requests through within a microsecond.\<close>

lemma verdicts_append:
  "verdicts l k (xs @ ys) r =
     (fst (verdicts l k xs r) @ fst (verdicts l k ys (snd (verdicts l k xs r))),
      snd (verdicts l k ys (snd (verdicts l k xs r))))"
  by (induction xs arbitrary: r) auto

lemma verdicts_window_pass:
  assumes "live_counter t0 k r = None" and "0 < window_seconds l" and "Suc n \<le> max_requests l"
    and "t < t0 + seconds (window_seconds l)"
  shows "(\<forall>v \<in> set (fst (verdicts l k (map (\<lambda>t. (t, redis_up)) (t0 # replicate n t)) r)). v = Pass) \<and>
    snd (verdicts l k (map (\<lambda>t. (t, redis_up)) (t0 # replicate n t)) r) k =
      Some (Suc n, Some (t0 + seconds (window_seconds l)))"
proof -
  let ?r = "r(k \<mapsto> (1, Some (t0 + seconds (window_seconds l))))"
  let ?rest = "map (\<lambda>t. (t, redis_up)) (replicate n t)"
  have 1: "check_limit l redis_up t0 k r = (Pass, ?r)"
    using assms by (intro check_limit_first) auto
  have 2: "map (\<lambda>v. v = Pass) (fst (verdicts l k ?rest ?r)) = map (\<lambda>i. 1 + i < max_requests l) [0..<n]"
    "snd (verdicts l k ?rest ?r) k = Some (1 + n, Some (t0 + seconds (window_seconds l)))"
    using verdicts_window [of ?r k 1 "t0 + seconds (window_seconds l)" "replicate n t" l] assms(4) by simp_all
  have "\<forall>b \<in> set (map (\<lambda>v. v = Pass) (fst (verdicts l k ?rest ?r))). b"
    unfolding 2(1) using assms(3) by auto
  then have "\<forall>v \<in> set (fst (verdicts l k ?rest ?r)). v = Pass" by simp
  with 1 2(2) show ?thesis by simp
qed

theorem fixed_window_burst:
  assumes "live_counter t0 k r = None" and "0 < window_seconds l" and "max_requests l = Suc n"
    and "e = t0 + seconds (window_seconds l)"
  shows "\<forall>v \<in> set (fst (verdicts l k
    (map (\<lambda>t. (t, redis_up)) ((t0 # replicate n (e - 1)) @ (e # replicate n e))) r)). v = Pass"
proof -
  let ?first = "map (\<lambda>t. (t, redis_up)) (t0 # replicate n (e - 1))"
  have 1: "(\<forall>v \<in> set (fst (verdicts l k ?first r)). v = Pass) \<and>
      snd (verdicts l k ?first r) k = Some (Suc n, Some e)"
    unfolding assms(4) by (rule verdicts_window_pass) (use assms in auto)
  then have "live_counter e k (snd (verdicts l k ?first r)) = None"
    by (simp add: live_counter_def)
  from verdicts_window_pass [OF this assms(2), of n e] 1 assms(2,3) show ?thesis
    by (simp only: map_append verdicts_append fst_conv set_append Un_iff) auto
qed

theorem fixed_window_burst_witness:
  "\<forall>v \<in> set (fst (verdicts login_limiter ''k'' (map (\<lambda>t. (t, redis_up))
     ((0 # replicate 4 59999999) @ (60000000 # replicate 4 60000000))) Map.empty)). v = Pass"
  using fixed_window_burst [of 0 "''k''" Map.empty login_limiter 4 60000000]
  by (simp add: live_counter_def login_limiter_def del: replicate.simps)

end
