(* ===== verification/Autoscale.thy ===== *)
theory Autoscale
  imports Scheduler_Models
begin

text \<open>
  The autoscale monitor of \<^verbatim>\<open>core/scheduler/autoscale.py\<close>: its two cooldown instants, the
  average load of the HEALTHY nodes and the events it publishes. \<open>up\<close> says whether Redis takes an
  event; the monitor records the event's time either way. Loads are Python floats with exact
  arithmetic; the rounding to four decimals only concerns the event's text.
\<close>

section \<open>State and operations\<close>

record monitor =
  last_scale_up :: "instant option"
  last_scale_down :: "instant option"

definition monitor_init :: monitor where
  "monitor_init = \<lparr>last_scale_up = None, last_scale_down = None\<rparr>"

definition cooldown_period :: int where
  "cooldown_period = 300"

definition scale_up_threshold :: pyfloat where
  "scale_up_threshold = Fin (8 / 10)"

definition scale_down_threshold :: pyfloat where
  "scale_down_threshold = Fin (2 / 10)"

definition healthy_nodes :: "sched_db \<Rightarrow> edge_node list" where
  "healthy_nodes db = filter (\<lambda>n. en_status n = HEALTHY) (sd_nodes db)"

definition get_fleet_load :: "sched_db \<Rightarrow> pyfloat" where
  "get_fleet_load db =
     (let nodes = healthy_nodes db
      in if nodes = [] then Fin 0
         else py_div_nat (foldl py_add (Fin 0) (map en_current_load nodes)) (length nodes))"

datatype scale_action = ScaleUp | ScaleDown

record scale_event =
  se_action :: scale_action
  se_load :: pyfloat
  se_count :: nat

definition emit_scale_event :: "bool \<Rightarrow> scale_event \<Rightarrow> scale_event list \<Rightarrow> bool \<times> scale_event list" where
  "emit_scale_event up e published = (if up then (True, published @ [e]) else (False, published))"

definition is_cooled_down :: "instant \<Rightarrow> instant option \<Rightarrow> bool" where
  "is_cooled_down now last_event =
     (case last_event of None \<Rightarrow> True | Some t \<Rightarrow> seconds cooldown_period \<le> now - t)"

definition check_and_scale ::
  "instant \<Rightarrow> bool \<Rightarrow> sched_db \<Rightarrow> monitor \<times> scale_event list \<Rightarrow>
   scale_action option \<times> monitor \<times> scale_event list" where
  "check_and_scale now up db s =
     (let m = fst s; avg = get_fleet_load db; n = length (healthy_nodes db)
      in if py_less scale_up_threshold avg then
           (if is_cooled_down now (last_scale_up m)
            then (Some ScaleUp, m\<lparr>last_scale_up := Some now\<rparr>,
                  snd (emit_scale_event up \<lparr>se_action = ScaleUp, se_load = avg, se_count = n\<rparr> (snd s)))
            else (None, s))
         else if py_less avg scale_down_threshold then
           (if is_cooled_down now (last_scale_down m)
            then (Some ScaleDown, m\<lparr>last_scale_down := Some now\<rparr>,
                  snd (emit_scale_event up \<lparr>se_action = ScaleDown, se_load = avg, se_count = n\<rparr> (snd s)))
            else (None, s))
         else (None, s))"

definition monitor_reset :: "monitor \<Rightarrow> monitor" where
  "monitor_reset m = m\<lparr>last_scale_up := None, last_scale_down := None\<rparr>"

text \<open>A run of checks with the action of each.\<close>

fun run_checks ::
  "(instant \<times> bool \<times> sched_db) list \<Rightarrow> monitor \<times> scale_event list \<Rightarrow> (instant \<times> scale_action option) list" where
  "run_checks [] s = []"
| "run_checks ((now, up, db) # cs) s =
     (case check_and_scale now up db s of (a, s') \<Rightarrow> (now, a) # run_checks cs s')"

section \<open>Cooldown\<close>

fun last_of :: "scale_action \<Rightarrow> monitor \<Rightarrow> instant option" where
  "last_of ScaleUp m = last_scale_up m"
| "last_of ScaleDown m = last_scale_down m"

definition action_times :: "scale_action \<Rightarrow> (instant \<times> scale_action option) list \<Rightarrow> instant list" where
  "action_times a run = map fst (filter (\<lambda>(t, x). x = Some a) run)"

fun spaced :: "instant list \<Rightarrow> bool" where
  "spaced (t # u # ts) \<longleftrightarrow> t + 300000000 \<le> u \<and> spaced (u # ts)"
| "spaced ts \<longleftrightarrow> True"

lemma check_action:
  "check_and_scale now up db s = (x, s') \<Longrightarrow>
   (x = Some a \<longrightarrow> is_cooled_down now (last_of a (fst s)) \<and> last_of a (fst s') = Some now) \<and>
   (x \<noteq> Some a \<longrightarrow> last_of a (fst s') = last_of a (fst s))"
  by (cases a) (auto simp: check_and_scale_def Let_def split: if_splits)

lemma run_checks_spaced:
  "spaced ((case last_of a (fst s) of None \<Rightarrow> [] | Some t \<Rightarrow> [t]) @ action_times a (run_checks cs s))"
proof (induction cs s rule: run_checks.induct)
  case (1 s)
  show ?case by (simp add: action_times_def split: option.splits)
next
  case (2 now up db cs s)
  obtain x s' where c: "check_and_scale now up db s = (x, s')"
    by (cases "check_and_scale now up db s")
  from 2 c check_action [OF c, of a] show ?case
    by (cases "x = Some a")
       (auto simp: action_times_def is_cooled_down_def cooldown_period_def split: option.splits)
qed

section \<open>Properties\<close>

text \<open>The cooldown holds over every run. However the fleet and the checks go, two successive
  scale events of the same direction are at least 300 seconds apart.\<close>

theorem autoscale_cooldown:
  "spaced (action_times a (run_checks cs (monitor_init, published)))"
  using run_checks_spaced [of a "(monitor_init, published)" cs]
  by (cases a) (simp_all add: monitor_init_def)

text \<open>An empty fleet is scaled down. Without a HEALTHY node the average is 0, which is below the
  lower threshold: a check whose cooldown is over emits a scale-down event.\<close>

theorem empty_fleet_scales_down:
  assumes "\<forall>n \<in> set (sd_nodes db). en_status n \<noteq> HEALTHY" and "is_cooled_down now (last_scale_down m)"
  shows "\<exists>m'. check_and_scale now True db (m, published) =
    (Some ScaleDown, m', published @ [\<lparr>se_action = ScaleDown, se_load = Fin 0, se_count = 0\<rparr>])"
proof -
  have "healthy_nodes db = []" using assms(1) by (simp add: healthy_nodes_def)
  then show ?thesis
    using assms(2) by (simp add: check_and_scale_def get_fleet_load_def Let_def scale_up_threshold_def
        scale_down_threshold_def emit_scale_event_def)
qed

theorem empty_fleet_scales_down_witness:
  "\<exists>m'. check_and_scale 0 True \<lparr>sd_nodes = [], sd_jobs = [], sd_dlq = []\<rparr> (monitor_init, []) =
    (Some ScaleDown, m', [] @ [\<lparr>se_action = ScaleDown, se_load = Fin 0, se_count = 0\<rparr>])"
  by (rule empty_fleet_scales_down) (simp_all add: monitor_init_def is_cooled_down_def)

end
