(* ===== verification/Usage.thy ===== *)
theory Usage
  imports CreditLedger Scheduler_Models
begin

text \<open>
  Pricing (\<^verbatim>\<open>core/billing/models.py\<close>) and usage charges (\<^verbatim>\<open>core/billing/usage.py\<close>): the
  price lookup, the deduction on completion of a job, which goes through \<open>deduct_credits\<close> under the
  reference \<open>job-<id>\<close>, and the pre-flight check.
\<close>

section \<open>Prices\<close>

record job_pricing =
  jp_job_type :: string
  jp_credits_per_unit :: rat
  jp_unit_type :: string
  jp_is_active :: bool

definition default_pricing :: "string \<rightharpoonup> rat" where
  "default_pricing = [''render'' \<mapsto> 10, ''inference'' \<mapsto> 5, ''echo'' \<mapsto> 0, ''cpu_benchmark'' \<mapsto> 1]"

definition fallback_price :: rat where
  "fallback_price = 1"

definition get_job_price :: "job_pricing list \<Rightarrow> string \<Rightarrow> py_exc + rat" where
  "get_job_price pricing job_type =
     err_bind (scalar_one_or_none (filter (\<lambda>p. jp_job_type p = job_type \<and> jp_is_active p) pricing))
       (\<lambda>r. case r of
              Some p \<Rightarrow> Inr (jp_credits_per_unit p)
            | None \<Rightarrow> (case default_pricing job_type of Some d \<Rightarrow> Inr d | None \<Rightarrow> Inr fallback_price))"

text \<open>The unique index on the job type.\<close>

definition pricing_ok :: "job_pricing list \<Rightarrow> bool" where
  "pricing_ok pricing \<longleftrightarrow> distinct (map jp_job_type pricing)"

lemma get_job_price_total: "pricing_ok pricing \<Longrightarrow> \<exists>p. get_job_price pricing t = Inr p"
proof -
  assume ok: "pricing_ok pricing"
  have "filter (\<lambda>p. jp_job_type p = t \<and> jp_is_active p) pricing =
      filter jp_is_active (filter (\<lambda>p. jp_job_type p = t) pricing)"
    by (simp add: conj_commute)
  also have "\<dots> = (case row_at jp_job_type t pricing of None \<Rightarrow> [] | Some p \<Rightarrow> filter jp_is_active [p])"
    using ok by (simp add: pricing_ok_def filter_unique_key split: option.splits)
  finally show ?thesis
    by (auto simp: get_job_price_def split: option.splits)
qed

section \<open>Charges\<close>

definition job_reference :: "uuid \<Rightarrow> string" where
  "job_reference i = ''job-'' @ uuid_str i"

lemma job_reference_inj [simp]: "job_reference i = job_reference k \<longleftrightarrow> i = k"
  by (simp add: job_reference_def)

definition charge_description :: "job \<Rightarrow> string" where
  "charge_description j = ''Usage charge for '' @ j_type j @ '' job '' @ uuid_str (j_id j)"

definition deduct_on_completion ::
  "numeric \<Rightarrow> uuid \<Rightarrow> instant \<Rightarrow> job_pricing list \<Rightarrow> job \<Rightarrow> uuid \<Rightarrow> ledger_db session \<Rightarrow>
   (py_exc + ledger_entry) \<times> ledger_db session" where
  "deduct_on_completion num nid now pricing j user s =
     (case get_job_price pricing (j_type j) of
        Inl x \<Rightarrow> (Inl x, s)
      | Inr cost \<Rightarrow> deduct_credits num nid now user cost USAGE (job_reference (j_id j))
                      (Some (charge_description j)) s)"

definition check_sufficient_credits ::
  "job_pricing list \<Rightarrow> ledger_db \<Rightarrow> uuid \<Rightarrow> string \<Rightarrow> py_exc + bool" where
  "check_sufficient_credits pricing db user job_type =
     err_bind (get_job_price pricing job_type)
       (\<lambda>price. if price \<le> 0 then Inr True else Inr (price \<le> get_balance db user))"

section \<open>Properties\<close>

text \<open>C21: the pre-flight check predicts the charge, and a job is charged once. On a balanced ledger,
  for a job with a positive price that was not charged yet, the check answers true exactly when
  the charge is not refused for lack of credits; a charge that succeeds takes exactly the price
  from the user's account; and charging the same job again, to whatever user, changes nothing.\<close>

theorem usage_charge_once:
  assumes bal: "ledger_balanced db" and num: "keeps_scale4 num" and sc: "scale4 p"
    and clock: "clock_after db user now" and price: "get_job_price pricing (j_type j) = Inr p" and pos: "0 < p"
    and fresh: "posted db (job_reference (j_id j), DEBIT) = None"
    and call: "deduct_on_completion num nid now pricing j user (open_session db) = (r, s)"
  shows "check_sufficient_credits pricing db user (j_type j) =
      Inr (r \<noteq> Inl (InsufficientCreditsError user p (get_balance db user))) \<and>
    (\<forall>e. r = Inr e \<longrightarrow>
       get_balance (working s) = (get_balance db)(user := get_balance db user - p) \<and>
       (\<forall>nid' now' user'. \<exists>e'. deduct_on_completion num nid' now' pricing j user' s = (Inr e', s)))"
proof -
  have ded: "deduct_credits num nid now user p USAGE (job_reference (j_id j))
      (Some (charge_description j)) (open_session db) = (r, s)"
    using call price by (simp add: deduct_on_completion_def)
  note D = deduct_decides [OF bal num sc clock pos fresh ded]
  have "check_sufficient_credits pricing db user (j_type j) =
      Inr (r \<noteq> Inl (InsufficientCreditsError user p (get_balance db user)))"
    using D price pos by (simp add: check_sufficient_credits_def) linarith
  moreover have "\<exists>e'. deduct_on_completion num nid' now' pricing j user' s = (Inr e', s)"
    if "r = Inr e" for e nid' now' user'
  proof -
    have ok: "ledger_session_ok s"
      using deduct_credits_ok [OF balanced_session [OF bal]] ded by (metis snd_conv)
    have "posted (working s) (job_reference (j_id j), DEBIT) \<noteq> None"
      using ded unfolding that by (rule deduct_Inr_cases [OF balanced_session [OF bal]])
        (simp_all add: posted_append entry_key_def fresh)
    then show ?thesis
      using deduct_posted_again [OF ok pos] price by (auto simp: deduct_on_completion_def)
  qed
  ultimately show ?thesis using D by blast
qed

definition demo_job :: job where
  "demo_job = \<lparr>j_id = 9, j_node = 1, j_type = ''render'', j_payload = ''s3://a'', j_status = COMPLETED,
     j_queued_at = 0, j_dispatched_at = Some 0, j_completed_at = Some 0, j_result = None, j_error = None,
     j_retry = 0, j_created_at = 0\<rparr>"

theorem usage_charge_once_witness:
  "\<exists>r s. deduct_on_completion numeric_12_4 2 9 [] demo_job 7 (open_session demo_ledger) = (r, s) \<and>
     check_sufficient_credits [] demo_ledger 7 ''render'' =
       Inr (r \<noteq> Inl (InsufficientCreditsError 7 10 (get_balance demo_ledger 7)))"
proof -
  obtain r s where call:
    "deduct_on_completion numeric_12_4 2 9 [] demo_job 7 (open_session demo_ledger) = (r, s)"
    by fastforce
  have price: "get_job_price [] (j_type demo_job) = Inr 10"
    by (simp add: get_job_price_def default_pricing_def demo_job_def)
  have "posted demo_ledger (job_reference (j_id demo_job), DEBIT) = None"
    by (simp add: posted_def demo_ledger_def demo_entry_def entry_key_def)
  from usage_charge_once [OF demo_ledger_balanced keeps_scale4_numeric scale4_numeral _ price _ this call] call
  show ?thesis
    by (simp add: demo_job_def clock_after_def user_entries_def demo_ledger_def demo_entry_def)
qed

end
