(* ===== verification/Payouts.thy ===== *)
theory Payouts
  imports Usage
begin

text \<open>
  Operator payouts of \<^verbatim>\<open>core/billing/payout.py\<close>: the month window, the completed jobs of a node in
  it, the 70/30 split, the report over all active nodes and the payout run, which posts one
  credit per node under the reference \<open>payout-<node>-<first of month>\<close>. Dates are compared with
  completion times at their UTC midnight; \<open>DISTINCT\<close> is first-occurrence order. The identifier drawn
  for a node's entry is \<open>ids node\<close>.
\<close>

section \<open>The month\<close>

definition month_boundaries :: "date \<Rightarrow> py_exc + date \<times> date" where
  "month_boundaries d =
     (let first = d\<lparr>d_day := 1\<rparr>
      in if d_month first = 12 then
           (if 9999 \<le> d_year first then Inl (ValueError ''year 10000 is out of range'')
            else Inr (first, first\<lparr>d_year := d_year first + 1, d_month := 1\<rparr>))
         else Inr (first, first\<lparr>d_month := d_month first + 1\<rparr>))"

definition in_window :: "date \<Rightarrow> date \<Rightarrow> instant \<Rightarrow> bool" where
  "in_window first next t \<longleftrightarrow> midnight first \<le> t \<and> t < midnight next"

definition completed_in :: "date \<Rightarrow> date \<Rightarrow> job \<Rightarrow> bool" where
  "completed_in first next j \<longleftrightarrow> j_status j = COMPLETED \<and>
     (case j_completed_at j of None \<Rightarrow> False | Some t \<Rightarrow> in_window first next t)"

definition get_completed_jobs :: "job list \<Rightarrow> uuid \<Rightarrow> date \<Rightarrow> py_exc + job list" where
  "get_completed_jobs jobs node d =
     err_bind (month_boundaries d)
       (\<lambda>(first, next). Inr (filter (\<lambda>j. j_node j = node \<and> completed_in first next j) jobs))"

definition get_active_node_ids :: "job list \<Rightarrow> date \<Rightarrow> py_exc + uuid list" where
  "get_active_node_ids jobs d =
     err_bind (month_boundaries d)
       (\<lambda>(first, next). Inr (remdups (map j_node (filter (completed_in first next) jobs))))"

section \<open>Earnings\<close>

record payout_summary =
  ps_node :: uuid
  ps_month :: date
  ps_total_jobs :: nat
  ps_gross :: rat
  ps_operator :: rat
  ps_platform :: rat
  ps_is_paid :: bool

definition operator_share :: rat where
  "operator_share = 70 / 100"

definition platform_share :: rat where
  "platform_share = 30 / 100"

fun sum_prices :: "job_pricing list \<Rightarrow> job list \<Rightarrow> rat \<Rightarrow> py_exc + rat" where
  "sum_prices pricing [] acc = Inr acc"
| "sum_prices pricing (j # js) acc =
     err_bind (get_job_price pricing (j_type j)) (\<lambda>p. sum_prices pricing js (acc + p))"

definition calculate_earnings ::
  "job_pricing list \<Rightarrow> job list \<Rightarrow> uuid \<Rightarrow> date \<Rightarrow> py_exc + payout_summary" where
  "calculate_earnings pricing jobs node d =
     err_bind (get_completed_jobs jobs node d)
       (\<lambda>js. err_bind (sum_prices pricing js 0)
          (\<lambda>gross. Inr \<lparr>ps_node = node, ps_month = d\<lparr>d_day := 1\<rparr>, ps_total_jobs = length js,
             ps_gross = gross, ps_operator = gross * operator_share,
             ps_platform = gross * platform_share, ps_is_paid = False\<rparr>))"

fun earnings_of_nodes ::
  "job_pricing list \<Rightarrow> job list \<Rightarrow> date \<Rightarrow> uuid list \<Rightarrow> py_exc + payout_summary list" where
  "earnings_of_nodes pricing jobs d [] = Inr []"
| "earnings_of_nodes pricing jobs d (n # ns) =
     err_bind (calculate_earnings pricing jobs n d)
       (\<lambda>s. err_bind (earnings_of_nodes pricing jobs d ns) (\<lambda>ss. Inr (s # ss)))"

definition generate_payout_report ::
  "job_pricing list \<Rightarrow> job list \<Rightarrow> date \<Rightarrow> py_exc + payout_summary list" where
  "generate_payout_report pricing jobs d =
     err_bind (get_active_node_ids jobs d) (earnings_of_nodes pricing jobs d)"

section \<open>The payout run\<close>

definition payout_reference :: "uuid \<Rightarrow> date \<Rightarrow> string" where
  "payout_reference node d = ''payout-'' @ uuid_str node @ ''-'' @ isoformat (d\<lparr>d_day := 1\<rparr>)"

text \<open>The credit of one summary. The description is the parameter \<open>descr\<close>, since its text prints
  decimals.\<close>

definition payout_request ::
  "(uuid \<Rightarrow> uuid) \<Rightarrow> instant \<Rightarrow> (payout_summary \<Rightarrow> string) \<Rightarrow> date \<Rightarrow> payout_summary \<Rightarrow> credit_request" where
  "payout_request ids now descr d s =
     \<lparr>cr_id = ids (ps_node s), cr_now = now, cr_user = ps_node s, cr_amount = ps_operator s,
      cr_source = ADJUSTMENT, cr_reference = payout_reference (ps_node s) d,
      cr_description = Some (descr s)\<rparr>"

fun pay_summaries ::
  "numeric \<Rightarrow> (uuid \<Rightarrow> uuid) \<Rightarrow> instant \<Rightarrow> (payout_summary \<Rightarrow> string) \<Rightarrow> date \<Rightarrow>
   payout_summary list \<Rightarrow> ledger_db session \<Rightarrow> (py_exc + payout_summary list) \<times> ledger_db session" where
  "pay_summaries num ids now descr d [] s = (Inr [], s)"
| "pay_summaries num ids now descr d (x # xs) s =
     (if ps_operator x \<le> 0 then
        (case pay_summaries num ids now descr d xs s of
           (Inl e, t) \<Rightarrow> (Inl e, t)
         | (Inr ys, t) \<Rightarrow> (Inr (x # ys), t))
      else
        (case allocate_credits num (ids (ps_node x)) now (ps_node x) (ps_operator x) ADJUSTMENT
                (payout_reference (ps_node x) d) (Some (descr x)) s of
           (Inl e, t) \<Rightarrow> (Inl e, t)
         | (Inr _, t) \<Rightarrow>
             (case pay_summaries num ids now descr d xs t of
                (Inl e, t') \<Rightarrow> (Inl e, t')
              | (Inr ys, t') \<Rightarrow> (Inr (x\<lparr>ps_is_paid := True\<rparr> # ys), t'))))"

definition execute_payouts ::
  "numeric \<Rightarrow> (uuid \<Rightarrow> uuid) \<Rightarrow> instant \<Rightarrow> (payout_summary \<Rightarrow> string) \<Rightarrow> job_pricing list \<Rightarrow>
   job list \<Rightarrow> date \<Rightarrow> ledger_db session \<Rightarrow> (py_exc + payout_summary list) \<times> ledger_db session" where
  "execute_payouts num ids now descr pricing jobs d s =
     (case generate_payout_report pricing jobs d of
        Inl x \<Rightarrow> (Inl x, s)
      | Inr xs \<Rightarrow> pay_summaries num ids now descr d xs s)"

section \<open>The window of a month\<close>

definition first_ordinal :: "nat \<Rightarrow> nat \<Rightarrow> int" where
  "first_ordinal y m = days_before_year y + int (days_before_month y m) + 1"

lemma toordinal_first: "toordinal (d\<lparr>d_day := 1\<rparr>) = first_ordinal (d_year d) (d_month d)"
  by (simp add: toordinal_def first_ordinal_def)

lemma div_step: "0 < k \<Longrightarrow> (int y) div k = (int y - 1) div k + (if k dvd int y then 1 else 0)" for k :: int
proof -
  assume k: "0 < k"
  show ?thesis
  proof (cases "k dvd int y")
    case True
    then obtain q where "int y = k * q" by (auto elim: dvdE)
    moreover have "(k * q - 1) div k = q - 1"
    proof (rule int_div_pos_eq [where r = "k - 1"])
      show "k * q - 1 = k * (q - 1) + (k - 1)" by (simp add: algebra_simps)
    qed (use k in simp_all)
    ultimately show ?thesis using True k by simp
  next
    case False
    then have "0 < int y mod k" using k by (simp add: dvd_eq_mod_eq_0 le_neq_trans pos_mod_sign)
    then have "(int y - 1) div k = int y div k"
      by (intro int_div_pos_eq [where r = "int y mod k - 1"])
         (use k pos_mod_bound [OF k, of "int y"] in \<open>auto simp: algebra_simps\<close>)
    with False show ?thesis by simp
  qed
qed

lemma days_before_next_year:
  "days_before_year (y + 1) = days_before_year y + (if leap y then 366 else 365)"
proof -
  define a b c where "a = (int y - 1) div 4" and "b = (int y - 1) div 100" and "c = (int y - 1) div 400"
  have up: "int y div 4 = a + (if 4 dvd y then 1 else 0)"
    "int y div 100 = b + (if 100 dvd y then 1 else 0)"
    "int y div 400 = c + (if 400 dvd y then 1 else 0)"
    using div_step [of 4 y] div_step [of 100 y] div_step [of 400 y]
      int_dvd_int_iff [of 4 y] int_dvd_int_iff [of 100 y] int_dvd_int_iff [of 400 y]
    unfolding a_def b_def c_def by simp_all
  have after: "days_before_year (y + 1) = int y * 365 + int y div 4 - int y div 100 + int y div 400"
    by (simp add: days_before_year_def Let_def)
  have this_year: "days_before_year y = (int y - 1) * 365 + a - b + c"
    by (simp add: days_before_year_def Let_def a_def b_def c_def)
  define p q r where "p \<longleftrightarrow> 4 dvd y" and "q \<longleftrightarrow> 100 dvd y" and "r \<longleftrightarrow> 400 dvd y"
  have "q \<longrightarrow> p" "r \<longrightarrow> q"
    unfolding p_def q_def r_def by (auto elim: dvd_trans [rotated])
  then show ?thesis
    unfolding after this_year up leap_def p_def [symmetric] q_def [symmetric] r_def [symmetric]
    by (cases p; cases q; cases r) simp_all
qed

lemma days_before_months:
  "days_before_month y 12 = (if leap y then 335 else 334)"
  by (simp add: eval_nat_numeral days_in_month_def)

lemma first_ordinal_step: "1 \<le> m \<Longrightarrow> m < 12 \<Longrightarrow> first_ordinal y m < first_ordinal y (m + 1)"
proof -
  assume m: "1 \<le> m" "m < 12"
  then have "[31,28,31,30,31,30,31,31,30,31,30,31::nat] ! (m - 1) \<in> set [31,28,31,30,31,30,31,31,30,31,30,31]"
    by (intro nth_mem) simp
  then have "0 < days_in_month y m" by (auto simp: days_in_month_def)
  with m show ?thesis by (simp add: first_ordinal_def)
qed

text \<open>Months in order, numbered from year 0: the window of a month ends where the next begins.\<close>

definition nth_month :: "nat \<Rightarrow> int" where
  "nth_month k = first_ordinal (k div 12) (k mod 12 + 1)"

lemma nth_month_Suc: "nth_month k < nth_month (Suc k)"
proof (cases "k mod 12 = 11")
  case True
  then have "Suc k div 12 = k div 12 + 1" "Suc k mod 12 = 0" by (simp_all add: div_Suc mod_Suc)
  with True show ?thesis
    using days_before_next_year [of "k div 12"] days_before_months [of "k div 12"]
    by (simp add: nth_month_def first_ordinal_def)
next
  case False
  moreover have "k mod 12 < 12" by simp
  ultimately have "k mod 12 + 1 < 12" by linarith
  moreover have "Suc k div 12 = k div 12" "Suc k mod 12 = k mod 12 + 1"
    using False by (simp_all add: div_Suc mod_Suc)
  ultimately show ?thesis
    using first_ordinal_step [of "k mod 12 + 1" "k div 12"] by (simp add: nth_month_def)
qed

lemma nth_month_le: "j \<le> k \<Longrightarrow> nth_month j \<le> nth_month k"
  by (rule lift_Suc_mono_le) (simp_all add: nth_month_Suc less_imp_le)

definition month_index :: "date \<Rightarrow> nat" where
  "month_index d = d_year d * 12 + (d_month d - 1)"

lemma month_boundaries_index:
  assumes "valid_date d" and "month_boundaries d = Inr (a, b)"
  shows "midnight a = seconds ((nth_month (month_index d) - 719163) * 86400) \<and>
    midnight b = seconds ((nth_month (Suc (month_index d)) - 719163) * 86400)"
proof -
  obtain m where m: "d_month d = Suc m" "m < 12"
    using assms(1) by (cases "d_month d") (auto simp: valid_date_def)
  then have i: "month_index d div 12 = d_year d" "month_index d mod 12 = m"
    by (simp_all add: month_index_def)
  have s: "Suc (month_index d) div 12 = (if m = 11 then d_year d + 1 else d_year d)"
    "Suc (month_index d) mod 12 = (if m = 11 then 0 else m + 1)"
    using i by (auto simp: div_Suc mod_Suc)
  show ?thesis
    using assms(2) m i s
    by (auto simp: month_boundaries_def Let_def midnight_def toordinal_def nth_month_def
        first_ordinal_def simp del: days_before_month.simps split: if_splits)
qed

lemma windows_ordered:
  assumes "valid_date d" "valid_date e" "month_boundaries d = Inr (a, b)" "month_boundaries e = Inr (c, f)"
    and "month_index d < month_index e"
  shows "midnight b \<le> midnight c"
  using month_boundaries_index [OF assms(1,3)] month_boundaries_index [OF assms(2,4)]
    nth_month_le [of "Suc (month_index d)" "month_index e"] assms(5) by simp

lemma month_index_inj:
  "valid_date d \<Longrightarrow> valid_date e \<Longrightarrow> month_index d = month_index e \<Longrightarrow>
   d_year d = d_year e \<and> d_month d = d_month e"
proof -
  assume v: "valid_date d" "valid_date e" and i: "month_index d = month_index e"
  have "month_index x div 12 = d_year x \<and> month_index x mod 12 = d_month x - 1" if "valid_date x" for x
    using that by (cases "d_month x") (auto simp: month_index_def valid_date_def)
  with v i have "d_year d = d_year e" "d_month d - 1 = d_month e - 1" by metis+
  with v show ?thesis by (auto simp: valid_date_def)
qed

section \<open>Sums over nodes\<close>

definition price_of :: "job_pricing list \<Rightarrow> job \<Rightarrow> rat" where
  "price_of pricing j = (case get_job_price pricing (j_type j) of Inr p \<Rightarrow> p | Inl _ \<Rightarrow> 0)"

lemma sum_prices_total:
  "pricing_ok pricing \<Longrightarrow>
   sum_prices pricing js acc = Inr (acc + sum_list (map (price_of pricing) js))"
proof (induction js arbitrary: acc)
  case Nil
  then show ?case by simp
next
  case (Cons j js)
  obtain p where "get_job_price pricing (j_type j) = Inr p"
    using get_job_price_total [OF Cons.prems] by blast
  with Cons show ?case by (simp add: price_of_def add.assoc)
qed

lemma sum_list_single:
  "distinct ns \<Longrightarrow> k \<in> set ns \<Longrightarrow> sum_list (map (\<lambda>n. if k = n then x else (0::rat)) ns) = x"
proof (induction ns)
  case Nil
  then show ?case by simp
next
  case (Cons n ns)
  have "sum_list (map (\<lambda>m. if k = m then x else 0) ns) = 0" if "k = n"
  proof -
    have "map (\<lambda>m. if k = m then x else 0) ns = map (\<lambda>_. 0) ns"
      using Cons.prems that by (intro map_cong) auto
    then show ?thesis by (simp only: sum_list_triv)
  qed
  with Cons show ?case by auto
qed

lemma sum_by_key:
  "distinct ns \<Longrightarrow> g ` set js \<subseteq> set ns \<Longrightarrow>
   sum_list (map (\<lambda>n. sum_list (map f (filter (\<lambda>j. g j = n) js))) ns) = (sum_list (map f js) :: rat)"
proof (induction js)
  case Nil
  then show ?case by (simp add: sum_list_triv)
next
  case (Cons j js)
  have "map (\<lambda>n. sum_list (map f (filter (\<lambda>j. g j = n) (j # js)))) ns =
      map (\<lambda>n. (if g j = n then f j else 0) + sum_list (map f (filter (\<lambda>j. g j = n) js))) ns"
    by simp
  then have "sum_list (map (\<lambda>n. sum_list (map f (filter (\<lambda>j. g j = n) (j # js)))) ns) =
      sum_list (map (\<lambda>n. if g j = n then f j else 0) ns) +
      sum_list (map (\<lambda>n. sum_list (map f (filter (\<lambda>j. g j = n) js))) ns)"
    by (simp only: sum_list_addf)
  also have "\<dots> = f j + sum_list (map f js)"
    using Cons sum_list_single [of ns "g j" "f j"] by simp
  finally show ?case by simp
qed

lemma earnings_total:
  assumes "pricing_ok pricing" and "month_boundaries d = Inr (a, b)"
  shows "calculate_earnings pricing jobs n d = Inr
    (let js = filter (\<lambda>j. j_node j = n) (filter (completed_in a b) jobs);
         gross = sum_list (map (price_of pricing) js)
     in \<lparr>ps_node = n, ps_month = d\<lparr>d_day := 1\<rparr>, ps_total_jobs = length js, ps_gross = gross,
         ps_operator = gross * operator_share, ps_platform = gross * platform_share,
         ps_is_paid = False\<rparr>)"
  using assms by (simp add: calculate_earnings_def get_completed_jobs_def sum_prices_total Let_def conj_commute)

lemma earnings_of_nodes_map:
  "\<forall>n. calculate_earnings pricing jobs n d = Inr (f n) \<Longrightarrow>
   earnings_of_nodes pricing jobs d ns = Inr (map f ns)"
  by (induction ns) simp_all

section \<open>The run as a batch of posts\<close>

lemma pay_summaries_post_all:
  "pay_summaries num ids now descr d xs s =
     (case post_all (post_credit num) (map (payout_request ids now descr d)
             (filter (\<lambda>x. 0 < ps_operator x) xs)) s of
        (Inl e, t) \<Rightarrow> (Inl e, t)
      | (Inr _, t) \<Rightarrow> (Inr (map (\<lambda>x. if ps_operator x \<le> 0 then x else x\<lparr>ps_is_paid := True\<rparr>) xs), t))"
proof (induction xs arbitrary: s)
  case Nil
  then show ?case by simp
next
  case (Cons x xs)
  then show ?case
    by (auto simp: post_credit_def payout_request_def split: prod.splits sum.splits)
qed

lemma payout_reference_inj:
  assumes "valid_date d" "valid_date e"
  shows "payout_reference n d = payout_reference m e \<longleftrightarrow>
    n = m \<and> d_year d = d_year e \<and> d_month d = d_month e"
proof -
  have "valid_date (x\<lparr>d_day := 1\<rparr>)" if "valid_date x" for x :: date
  proof -
    have "1 \<le> days_in_month (d_year x) (d_month x)"
      using that by (simp add: valid_date_def)
    with that show ?thesis by (simp add: valid_date_def)
  qed
  with assms have v: "valid_date (d\<lparr>d_day := 1\<rparr>)" "valid_date (e\<lparr>d_day := 1\<rparr>)" by blast+
  have "d_year d = d_year e \<and> d_month d = d_month e"
    if "isoformat (d\<lparr>d_day := 1\<rparr>) = isoformat (e\<lparr>d_day := 1\<rparr>)"
  proof -
    have eq: "d\<lparr>d_day := 1\<rparr> = e\<lparr>d_day := 1\<rparr>" using v that by (rule isoformat_inj)
    have "d_year (d\<lparr>d_day := 1\<rparr>) = d_year d" "d_month (d\<lparr>d_day := 1\<rparr>) = d_month d" by simp_all
    then show ?thesis unfolding eq by simp
  qed
  then have "isoformat (d\<lparr>d_day := 1\<rparr>) = isoformat (e\<lparr>d_day := 1\<rparr>) \<longleftrightarrow>
      d_year d = d_year e \<and> d_month d = d_month e"
    by (auto simp: isoformat_def)
  then show ?thesis by (simp add: payout_reference_def)
qed

lemma length_payout_reference: "length (payout_reference n d) = 54"
  by (simp add: payout_reference_def isoformat_def)

section \<open>Properties\<close>

text \<open>C22: the report conserves revenue. When the month has a successor, the report exists, names each
  node with completed jobs once, splits each node's gross revenue into operator earnings and
  platform fee without remainder, and the gross revenues add up to the price of all jobs completed
  in the month.\<close>

theorem payout_report_conserves:
  assumes "pricing_ok pricing" and "month_boundaries d = Inr (a, b)"
  shows "\<exists>xs. generate_payout_report pricing jobs d = Inr xs \<and> distinct (map ps_node xs) \<and>
    set (map ps_node xs) = j_node ` {j \<in> set jobs. completed_in a b j} \<and>
    (\<forall>x \<in> set xs. ps_operator x + ps_platform x = ps_gross x) \<and>
    sum_list (map ps_gross xs) = sum_list (map (price_of pricing) (filter (completed_in a b) jobs))"
proof -
  let ?js = "filter (completed_in a b) jobs"
  let ?ns = "remdups (map j_node ?js)"
  define f where "f n = (let js = filter (\<lambda>j. j_node j = n) ?js; gross = sum_list (map (price_of pricing) js)
     in \<lparr>ps_node = n, ps_month = d\<lparr>d_day := 1\<rparr>, ps_total_jobs = length js, ps_gross = gross,
         ps_operator = gross * operator_share, ps_platform = gross * platform_share,
         ps_is_paid = False\<rparr>)" for n
  have f: "ps_node (f n) = n" "ps_gross (f n) = sum_list (map (price_of pricing) (filter (\<lambda>j. j_node j = n) ?js))"
    "ps_operator (f n) + ps_platform (f n) = ps_gross (f n)" for n
    by (simp_all add: f_def Let_def operator_share_def platform_share_def)
  have "generate_payout_report pricing jobs d = Inr (map f ?ns)"
    unfolding generate_payout_report_def get_active_node_ids_def
    using earnings_of_nodes_map [of pricing jobs d f ?ns] earnings_total [OF assms] assms(2)
    by (simp add: f_def)
  moreover have "sum_list (map ps_gross (map f ?ns)) = sum_list (map (price_of pricing) ?js)"
    using sum_by_key [of ?ns j_node ?js "price_of pricing"] by (simp add: comp_def f)
  moreover have ids: "map ps_node (map f ?ns) = ?ns" by (simp add: comp_def f)
  have "distinct (map ps_node (map f ?ns))" unfolding ids by simp
  moreover have "set (map ps_node (map f ?ns)) = j_node ` {j \<in> set jobs. completed_in a b j}"
    unfolding ids by simp
  moreover have "\<forall>x \<in> set (map f ?ns). ps_operator x + ps_platform x = ps_gross x"
    using f(3) by simp
  ultimately show ?thesis by blast
qed

definition july :: date where
  "july = \<lparr>d_year = 2025, d_month = 7, d_day = 15\<rparr>"

theorem payout_report_conserves_witness:
  "\<exists>xs. generate_payout_report [] [demo_job\<lparr>j_completed_at := Some 1751500000000000\<rparr>] july = Inr xs \<and>
     sum_list (map ps_gross xs) = 10"
proof -
  let ?jobs = "[demo_job\<lparr>j_completed_at := Some 1751500000000000\<rparr>]"
  have b: "month_boundaries july = Inr (july\<lparr>d_day := 1\<rparr>, july\<lparr>d_day := 1, d_month := 8\<rparr>)"
    by (simp add: month_boundaries_def july_def)
  have "completed_in (july\<lparr>d_day := 1\<rparr>) (july\<lparr>d_day := 1, d_month := 8\<rparr>) (hd ?jobs)"
    by code_simp
  moreover have "price_of [] (hd ?jobs) = 10"
    by (simp add: price_of_def get_job_price_def default_pricing_def demo_job_def)
  ultimately show ?thesis
    using payout_report_conserves [OF _ b, of "[]" ?jobs] by (auto simp: pricing_ok_def)
qed

text \<open>A payout run is idempotent. After a run that went through, running the same month again, at
  any time, returns the same summaries and leaves the ledger as it is.\<close>

theorem payouts_idempotent:
  assumes "ledger_session_ok s"
    and "execute_payouts num ids now descr pricing jobs d s = (Inr xs, s')"
  shows "execute_payouts num ids' now' descr' pricing jobs d s' = (Inr xs, s')"
proof -
  obtain ys where r: "generate_payout_report pricing jobs d = Inr ys"
    using assms(2) by (auto simp: execute_payouts_def split: sum.splits)
  let ?due = "filter (\<lambda>x. 0 < ps_operator x) ys"
  obtain es where post: "post_all (post_credit num) (map (payout_request ids now descr d) ?due) s = (Inr es, s')"
    and xs: "xs = map (\<lambda>x. if ps_operator x \<le> 0 then x else x\<lparr>ps_is_paid := True\<rparr>) ys"
    using assms(2) r by (auto simp: execute_payouts_def pay_summaries_post_all split: sum.splits prod.splits)
  have "\<forall>q \<in> set (map (payout_request ids' now' descr' d) ?due). 0 < cr_amount q \<and>
      cr_reference q \<in> cr_reference ` set (map (payout_request ids now descr d) ?due)"
    by (auto simp: payout_request_def image_image)
  then obtain es' where
    "post_all (post_credit num) (map (payout_request ids' now' descr' d) ?due) s' = (Inr es', s')"
    using credits.post_all_twice [OF assms(1) post] by blast
  then show ?thesis by (simp add: execute_payouts_def r pay_summaries_post_all xs)
qed

theorem payouts_idempotent_witness:
  "\<exists>xs s'. execute_payouts numeric_12_4 (\<lambda>_. 5) 77 (\<lambda>_. '''') [] [] july (open_session demo_ledger) = (Inr xs, s') \<and>
     execute_payouts numeric_12_4 (\<lambda>_. 6) 99 (\<lambda>_. '''') [] [] july s' = (Inr xs, s')"
proof -
  have "generate_payout_report [] [] july = Inr []"
    by (simp add: generate_payout_report_def get_active_node_ids_def month_boundaries_def july_def)
  then have run: "execute_payouts numeric_12_4 (\<lambda>_. 5) 77 (\<lambda>_. '''') [] [] july (open_session demo_ledger) =
      (Inr [], open_session demo_ledger)" by (simp add: execute_payouts_def)
  with payouts_idempotent [OF balanced_session [OF demo_ledger_balanced] run] show ?thesis by blast
qed

text \<open>No job is paid twice. The windows of two different months are disjoint, so a completion time
  belongs to the report of one month only, and the reference of a payout determines its node and
  its month.\<close>

theorem payout_months_disjoint:
  assumes "valid_date d" and "valid_date e" and "month_boundaries d = Inr (a, b)"
    and "month_boundaries e = Inr (c, f)"
  shows "(in_window a b t \<and> in_window c f t \<longrightarrow> d_year d = d_year e \<and> d_month d = d_month e) \<and>
    (payout_reference n d = payout_reference m e \<longleftrightarrow>
      n = m \<and> d_year d = d_year e \<and> d_month d = d_month e)"
proof -
  have "d_year d = d_year e \<and> d_month d = d_month e" if "in_window a b t" "in_window c f t"
  proof (cases "month_index d" "month_index e" rule: linorder_cases)
    case less
    from windows_ordered [OF assms less] that show ?thesis by (simp add: in_window_def)
  next
    case equal
    with assms(1,2) show ?thesis by (rule month_index_inj)
  next
    case greater
    from windows_ordered [OF assms(2,1,4,3) greater] that show ?thesis by (simp add: in_window_def)
  qed
  with payout_reference_inj [OF assms(1,2)] show ?thesis by blast
qed

theorem payout_months_disjoint_witness:
  "payout_reference 1 july \<noteq> payout_reference 1 (july\<lparr>d_month := 8\<rparr>)"
proof -
  have v: "valid_date july" "valid_date (july\<lparr>d_month := 8\<rparr>)"
    by (simp_all add: valid_date_def july_def days_in_month_def)
  show ?thesis
    using payout_months_disjoint [OF v, of "july\<lparr>d_day := 1\<rparr>" "july\<lparr>d_day := 1, d_month := 8\<rparr>"
        "july\<lparr>d_day := 1, d_month := 8\<rparr>" "july\<lparr>d_day := 1, d_month := 9\<rparr>" 0 1 1]
    by (simp add: month_boundaries_def july_def)
qed

text \<open>A payout to a node that is not a user fails. The run credits the node's identifier, but the
  ledger requires a user: for the first node with earnings the flush violates the foreign key,
  the handler finds no entry of the reference, and the run raises \<open>NoResultFound\<close> with the
  session rolled back.\<close>

theorem payout_to_node_fails:
  assumes "ledger_session_ok s" and "generate_payout_report pricing jobs d = Inr (xs @ x # ys)"
    and "\<forall>y \<in> set xs. ps_operator y \<le> 0" and "0 < ps_operator x"
    and "ps_node x \<notin> set (ld_users (working s))" and "num (ps_operator x) = Some v"
    and "posted (working s) (payout_reference (ps_node x) d, CREDIT) = None"
  shows "execute_payouts num ids now descr pricing jobs d s = (Inl NoResultFound, rollback s)"
proof -
  have ok: "ledger_ok (working s)" "ledger_ok (committed s)"
    using ledger_session_okD [OF assms(1)] by blast+
  have "filter (\<lambda>e. le_user e = ps_node x) (ld_entries (working s)) = []"
    using ok(1) assms(5) by (auto simp: ledger_ok_def filter_empty_conv)
  then have bal: "get_balance (working s) (ps_node x) = 0"
    by (simp add: get_balance_def last_entry_def newest_first_def)
  have ref: "by_reference (payout_reference (ps_node x) d) CREDIT (working s) = []"
    "by_reference (payout_reference (ps_node x) d) CREDIT (committed s) = []"
    using ok assms(7) posted_committed [OF assms(1,7)] by (simp_all add: by_reference_posted)
  have "post_credit num (payout_request ids now descr d x) s = (Inl NoResultFound, rollback s)"
    using assms(4-6) by (simp add: post_credit_def payout_request_def allocate_credits_def
        allocate_prepare_def ref ledger_finish_def flush_entry_def bal length_payout_reference)
  moreover have "filter (\<lambda>x. 0 < ps_operator x) xs = []"
    using assms(3) by (auto simp: filter_empty_conv)
  ultimately show ?thesis
    using assms(2,4) by (simp add: execute_payouts_def pay_summaries_post_all)
qed

theorem payout_to_node_fails_witness:
  "execute_payouts numeric_12_4 (\<lambda>_. 5) 77 (\<lambda>_. '''') [] [demo_job\<lparr>j_completed_at := Some 1751500000000000\<rparr>]
     july (open_session demo_ledger) = (Inl NoResultFound, rollback (open_session demo_ledger))"
proof -
  let ?jobs = "[demo_job\<lparr>j_completed_at := Some 1751500000000000\<rparr>]"
  let ?x = "\<lparr>ps_node = 1, ps_month = july\<lparr>d_day := 1\<rparr>, ps_total_jobs = 1, ps_gross = 10, ps_operator = 7,
    ps_platform = 3, ps_is_paid = False\<rparr>"
  have b: "month_boundaries july = Inr (july\<lparr>d_day := 1\<rparr>, july\<lparr>d_day := 1, d_month := 8\<rparr>)"
    by (simp add: month_boundaries_def july_def)
  have "completed_in (july\<lparr>d_day := 1\<rparr>) (july\<lparr>d_day := 1, d_month := 8\<rparr>) (hd ?jobs)"
    by code_simp
  moreover have "price_of [] (hd ?jobs) = 10" "j_node demo_job = 1"
    by (simp_all add: price_of_def get_job_price_def default_pricing_def demo_job_def)
  ultimately have "generate_payout_report [] ?jobs july = Inr ([] @ ?x # [])"
    by (simp add: generate_payout_report_def get_active_node_ids_def b earnings_total [OF _ b]
        pricing_ok_def operator_share_def platform_share_def)
  then show ?thesis
    by (rule payout_to_node_fails [OF balanced_session [OF demo_ledger_balanced]])
       (simp_all add: demo_ledger_def demo_entry_def posted_def entry_key_def payout_reference_def
         numeric_12_4_numeral open_session_def)
qed

end
