(* ===== verification/Merkle.thy ===== *)
theory Merkle
  imports Prelude "HOL-Library.While_Combinator"
begin

text \<open>
  The Merkle tree of \<^verbatim>\<open>core/ledger/anchor/merkle.py\<close>: construction of the levels
  (\<open>MerkleTree._build\<close>), inclusion proofs (\<open>get_proof\<close>) and their verification
  (\<open>verify_proof\<close>).

  SHA-256 is the parameter \<open>sha\<close> of the definitions that hash. Strings are the bytes of
  their UTF-8 encoding, so \<open>str.encode\<close> reads each character as a byte. The locales
  \<open>level_tree\<close> and \<open>climbing_tree\<close> state what a bottom-up tree of levels promises, whatever
  it does with an odd last node; the theory interprets them on this tree, and the bundler's
  own tree (theory \<open>Rollup_Bundler\<close>) interprets the first one again.
\<close>

section \<open>Trees of levels\<close>

locale level_tree =
  fixes up :: "'h list \<Rightarrow> 'h list"
    and build :: "'h list \<Rightarrow> 'h list list"
  assumes length_up: "length (up xs) = (length xs + 1) div 2"
    and build_step: "1 < length xs \<Longrightarrow> build xs = xs # build (up xs)"
    and build_stop: "length xs \<le> 1 \<Longrightarrow> build xs = [xs]"
begin

lemma up_shorter: "1 < length xs \<Longrightarrow> length (up xs) < length xs"
  by (simp add: length_up)

lemma up_nonempty: "xs \<noteq> [] \<Longrightarrow> up xs \<noteq> []"
  using length_up [of xs] by (cases xs) auto

lemma level_induct [case_names small big]:
  assumes "\<And>xs. length xs \<le> 1 \<Longrightarrow> P xs"
    and "\<And>xs. 1 < length xs \<Longrightarrow> P (up xs) \<Longrightarrow> P xs"
  shows "P xs"
proof (induction xs rule: length_induct)
  case (1 xs)
  then show ?case
    using assms up_shorter by (cases "length xs \<le> 1") auto
qed

lemma build_nonempty: "build xs \<noteq> []"
  by (cases "1 < length xs") (simp_all add: build_step build_stop)

lemma last_build_up: "1 < length xs \<Longrightarrow> last (build xs) = last (build (up xs))"
  by (simp add: build_step build_nonempty)

lemma length_last_build: "xs \<noteq> [] \<Longrightarrow> length (last (build xs)) = 1"
proof (induction xs rule: level_induct)
  case (small xs)
  then show ?case by (cases xs) (simp_all add: build_stop)
next
  case (big xs)
  then show ?case by (simp add: last_build_up up_nonempty)
qed

lemma length_build_cong: "length xs = length ys \<Longrightarrow> length (build xs) = length (build ys)"
proof (induction xs arbitrary: ys rule: level_induct)
  case (small xs)
  then show ?case by (simp add: build_stop)
next
  case (big xs)
  then have "length (build (up xs)) = length (build (up ys))"
    by (simp add: length_up)
  with big show ?case by (simp add: build_step)
qed

lemma length_build_up: "1 < length xs \<Longrightarrow> length (build xs) = Suc (length (build (up xs)))"
  by (simp add: build_step)

lemma leaves_le_depth: "length xs \<le> 2 ^ (length (build xs) - 1)"
proof (induction xs rule: level_induct)
  case (small xs)
  then show ?case by (simp add: build_stop)
next
  case (big xs)
  obtain d where d: "length (build (up xs)) = Suc d"
    using build_nonempty [of "up xs"] by (cases "build (up xs)") auto
  have "(length xs + 1) div 2 \<le> 2 ^ d"
    using big d by (simp add: length_up)
  then have "length xs \<le> 2 * 2 ^ d" by linarith
  with big d show ?case by (simp add: length_build_up)
qed

lemma depth_tight:
  "1 < length xs \<Longrightarrow> 2 ^ (length (build xs) - 2) < length xs"
proof (induction xs rule: level_induct)
  case (small xs)
  then show ?case by simp
next
  case (big xs)
  show ?case
  proof (cases "1 < length (up xs)")
    case True
    obtain d where d: "length (build (up xs)) = Suc (Suc d)"
      using True build_nonempty [of "up (up xs)"]
      by (cases "build (up (up xs))") (auto simp: build_step)
    have "2 ^ d < (length xs + 1) div 2"
      using big.IH True d by (simp add: length_up)
    then have "2 * 2 ^ d < length xs" by linarith
    with big d show ?thesis by (simp add: length_build_up)
  next
    case False
    with big show ?thesis by (simp add: length_build_up build_stop)
  qed
qed

text \<open>The loop that collects the levels: it stops at a level of one node, and returns \<open>build\<close>.\<close>

lemma while_build:
  "while_option (\<lambda>s. 1 < length (snd s)) (\<lambda>(levels, current). (levels @ [up current], up current)) (acc @ [xs], xs) =
     Some (acc @ build xs, last (build xs))"
proof (induction xs arbitrary: acc rule: level_induct)
  case (small xs)
  then show ?case by (subst while_option_unfold) (simp add: build_stop)
next
  case (big xs)
  then show ?case
    using big.IH [of "acc @ [xs]"] by (subst while_option_unfold) (simp add: build_step build_nonempty)
qed

lemma depth_bound: "2 ^ (length (build xs) - 1) < 2 * max 1 (length xs)"
proof (cases "1 < length xs")
  case True
  then have "length (build xs) - 1 = Suc (length (build xs) - 2)"
    using build_nonempty [of "up xs"] by (simp add: build_step)
  with depth_tight [OF True] True show ?thesis by simp
next
  case False
  then show ?thesis by (simp add: build_stop)
qed

end

locale climbing_tree = level_tree up build
  for up :: "'h list \<Rightarrow> 'h list" and build :: "'h list \<Rightarrow> 'h list list" +
  fixes sib :: "'h list \<Rightarrow> nat \<Rightarrow> 's"
    and climb :: "'h \<Rightarrow> 's \<Rightarrow> 'h"
    and steps :: "'h list list \<Rightarrow> nat \<Rightarrow> 's list"
  assumes steps_Nil: "steps [] i = []"
    and steps_Cons: "steps (l # ls) i = sib l i # steps ls (i div 2)"
    and climb_sib: "1 < length l \<Longrightarrow> i < length l \<Longrightarrow> climb (l ! i) (sib l i) = up l ! (i div 2)"
begin

lemma climb_to_root:
  "i < length xs \<Longrightarrow>
   foldl climb (xs ! i) (steps (butlast (build xs)) i) = hd (last (build xs))"
proof (induction xs arbitrary: i rule: level_induct)
  case (small xs)
  then show ?case by (cases xs) (simp_all add: build_stop steps_Nil)
next
  case (big xs)
  have "i div 2 < length (up xs)"
    using big.prems by (simp add: length_up)
  then show ?case
    using big by (simp add: build_step build_nonempty steps_Cons climb_sib)
qed

lemma length_steps: "length (steps ls i) = length ls"
  by (induction ls arbitrary: i) (simp_all add: steps_Nil steps_Cons)

end

text \<open>Where one level determines the level below it, the root determines the leaves. \<open>sound\<close> is
  the condition on the hash function under which that holds.\<close>

locale binding_tree = level_tree up build
  for up :: "'h list \<Rightarrow> 'h list" and build :: "'h list \<Rightarrow> 'h list list" +
  fixes digest :: "'h \<Rightarrow> bool" and sound :: bool
  assumes up_digest: "sound \<Longrightarrow> \<forall>x \<in> set xs. digest x \<Longrightarrow> \<forall>x \<in> set (up xs). digest x"
    and up_inj: "sound \<Longrightarrow> length xs = length ys \<Longrightarrow> \<forall>x \<in> set xs \<union> set ys. digest x \<Longrightarrow>
      up xs = up ys \<Longrightarrow> xs = ys"
begin

lemma root_inj:
  "sound \<Longrightarrow> length xs = length ys \<Longrightarrow> \<forall>x \<in> set xs \<union> set ys. digest x \<Longrightarrow>
    hd (last (build xs)) = hd (last (build ys)) \<Longrightarrow> xs = ys"
proof (induction xs arbitrary: ys rule: level_induct)
  case (small xs)
  then show ?case
    by (cases xs; cases ys) (auto simp: build_stop)
next
  case (big xs)
  have "\<forall>x \<in> set (up xs) \<union> set (up ys). digest x"
    using up_digest [OF big.prems(1), of xs] up_digest [OF big.prems(1), of ys] big.prems(3) by auto
  moreover have "hd (last (build (up xs))) = hd (last (build (up ys)))"
    using big.prems(2,4) big.hyps by (simp add: last_build_up)
  ultimately have "up xs = up ys"
    using big.prems(1,2) by (intro big.IH) (simp_all add: length_up)
  then show ?case using up_inj big.prems by blast
qed

end

section \<open>Data\<close>

datatype direction = LEFT | RIGHT

record merkle_proof =
  mp_leaf :: string
  mp_leaf_hash :: bytes
  mp_hashes :: "bytes list"
  mp_directions :: "direction list"
  mp_root :: bytes

record merkle_tree =
  mt_leaves :: "string list"
  mt_hashed :: "bytes list"
  mt_levels :: "bytes list list"

section \<open>Hashing and construction\<close>

definition utf8 :: "string \<Rightarrow> bytes" where
  "utf8 s = map (\<lambda>c. word_of_nat (of_char c)) s"

definition hash_leaf :: "(bytes \<Rightarrow> bytes) \<Rightarrow> string \<Rightarrow> bytes" where
  "hash_leaf sha data = sha (utf8 data)"

definition hash_pair :: "(bytes \<Rightarrow> bytes) \<Rightarrow> bytes \<Rightarrow> bytes \<Rightarrow> bytes" where
  "hash_pair sha left right = sha (left @ right)"

text \<open>One turn of the \<^theory_text>\<open>while\<close> loop of \<open>_build\<close>: nodes are paired from the left,
  an unpaired last node is paired with itself.\<close>

fun next_level :: "(bytes \<Rightarrow> bytes) \<Rightarrow> bytes list \<Rightarrow> bytes list" where
  "next_level sha [] = []"
| "next_level sha [x] = [hash_pair sha x x]"
| "next_level sha (x # y # zs) = hash_pair sha x y # next_level sha zs"

lemma length_next_level [simp]: "length (next_level sha xs) = (length xs + 1) div 2"
  by (induction sha xs rule: next_level.induct) auto

function build_levels :: "(bytes \<Rightarrow> bytes) \<Rightarrow> bytes list \<Rightarrow> bytes list list" where
  "build_levels sha current =
     (if 1 < length current then current # build_levels sha (next_level sha current)
      else [current])"
  by pat_completeness auto
termination
  by (relation "measure (\<lambda>(sha, current). length current)") auto

declare build_levels.simps [simp del]

definition merkle_new :: "(bytes \<Rightarrow> bytes) \<Rightarrow> string list \<Rightarrow> py_exc + merkle_tree" where
  "merkle_new sha leaves =
     (if leaves = [] then Inl (ValueError ''Cannot build a Merkle tree from an empty list'')
      else let hashed = map (hash_leaf sha) leaves
           in Inr \<lparr>mt_leaves = leaves, mt_hashed = hashed, mt_levels = build_levels sha hashed\<rparr>)"

definition mt_root :: "merkle_tree \<Rightarrow> bytes" where
  "mt_root t = hd (last (mt_levels t))"

definition leaf_count :: "merkle_tree \<Rightarrow> nat" where
  "leaf_count t = length (mt_leaves t)"

section \<open>Proofs\<close>

definition proof_step :: "bytes list \<Rightarrow> nat \<Rightarrow> bytes \<times> direction" where
  "proof_step level i =
     (let (s, d) = (if i mod 2 = 0 then (i + 1, RIGHT) else (i - 1, LEFT))
      in (if s < length level then level ! s else level ! i, d))"

fun proof_steps :: "bytes list list \<Rightarrow> nat \<Rightarrow> (bytes \<times> direction) list" where
  "proof_steps [] i = []"
| "proof_steps (level # levels) i = proof_step level i # proof_steps levels (i div 2)"

definition get_proof :: "merkle_tree \<Rightarrow> int \<Rightarrow> py_exc + merkle_proof" where
  "get_proof t index =
     (if index < 0 \<or> index \<ge> int (length (mt_hashed t))
      then Inl (IndexError ''Leaf index out of range'')
      else let i = nat index; path = proof_steps (butlast (mt_levels t)) i
           in Inr \<lparr>mp_leaf = mt_leaves t ! i, mp_leaf_hash = mt_hashed t ! i,
                   mp_hashes = map fst path, mp_directions = map snd path,
                   mp_root = mt_root t\<rparr>)"

fun proof_climb :: "(bytes \<Rightarrow> bytes) \<Rightarrow> bytes \<Rightarrow> bytes \<times> direction \<Rightarrow> bytes" where
  "proof_climb sha computed (sibling, RIGHT) = hash_pair sha computed sibling"
| "proof_climb sha computed (sibling, LEFT) = hash_pair sha sibling computed"

text \<open>\<open>zip(..., strict=True)\<close> raises \<open>ValueError\<close> when the two lists differ in length.\<close>

definition verify_proof :: "(bytes \<Rightarrow> bytes) \<Rightarrow> merkle_proof \<Rightarrow> py_exc + bool" where
  "verify_proof sha p =
     (if length (mp_hashes p) \<noteq> length (mp_directions p)
      then Inl (ValueError ''zip() arguments have different lengths'')
      else Inr (foldl (proof_climb sha) (mp_leaf_hash p) (zip (mp_hashes p) (mp_directions p))
                = mp_root p))"

lemmas merkle_defs = merkle_new_def get_proof_def verify_proof_def mt_root_def leaf_count_def

section \<open>The level interface holds for this tree\<close>

lemma next_level_nth:
  "k < (length xs + 1) div 2 \<Longrightarrow>
   next_level sha xs ! k =
     hash_pair sha (xs ! (2 * k)) (if 2 * k + 1 < length xs then xs ! (2 * k + 1) else xs ! (2 * k))"
proof (induction sha xs arbitrary: k rule: next_level.induct)
  case (3 sha x y zs)
  then show ?case by (cases k) (auto simp: nth_Cons')
qed auto

lemma climb_proof_step:
  "1 < length l \<Longrightarrow> i < length l \<Longrightarrow>
   proof_climb sha (l ! i) (proof_step l i) = next_level sha l ! (i div 2)"
proof (cases "even i")
  case True
  assume "i < length l"
  moreover from True have "2 * (i div 2) = i" by simp
  ultimately show ?thesis
    using True by (auto simp: proof_step_def next_level_nth)
next
  case False
  assume l: "i < length l"
  from False have i: "2 * (i div 2) = i - 1" "i mod 2 = 1" "0 < i"
    by (auto elim: oddE)
  with l show ?thesis
    by (auto simp: proof_step_def next_level_nth)
qed

interpretation mt: climbing_tree "next_level sha" "build_levels sha" proof_step
    "proof_climb sha" proof_steps
  for sha
  by unfold_locales (simp_all add: build_levels.simps climb_proof_step)

section \<open>The loop as it is written\<close>

definition build_round :: "(bytes \<Rightarrow> bytes) \<Rightarrow> bytes list list \<times> bytes list \<Rightarrow> bytes list list \<times> bytes list" where
  "build_round sha s =
     (case s of (levels, current) \<Rightarrow>
        let next_nodes = next_level sha current in (levels @ [next_nodes], next_nodes))"

text \<open>C14: The loop of \<open>_build\<close> ends for every list of leaf hashes, even the empty one, with the levels
  that \<open>build_levels\<close> computes; it takes as many rounds as there are levels above the leaves, which
  is the least depth that has room for them: with \<open>d\<close> rounds, \<open>n \<le> 2\<^sup>d < 2 max(1, n)\<close>.\<close>

theorem merkle_loop_terminates:
  "while_option (\<lambda>s. 1 < length (snd s)) (build_round sha) ([hashes], hashes) =
     Some (build_levels sha hashes, last (build_levels sha hashes)) \<and>
   length hashes \<le> 2 ^ (length (build_levels sha hashes) - 1) \<and>
   2 ^ (length (build_levels sha hashes) - 1) < 2 * max 1 (length hashes)"
proof -
  have "build_round sha = (\<lambda>(levels, current). (levels @ [next_level sha current], next_level sha current))"
    by (rule ext) (simp add: build_round_def Let_def)
  then show ?thesis
    using mt.while_build [of sha "[]" hashes] mt.leaves_le_depth mt.depth_bound by simp
qed

lemma merkle_new_Inr:
  "merkle_new sha leaves = Inr t \<longleftrightarrow>
   leaves \<noteq> [] \<and> mt_leaves t = leaves \<and> mt_hashed t = map (hash_leaf sha) leaves \<and>
   mt_levels t = build_levels sha (map (hash_leaf sha) leaves)"
  by (cases t) (auto simp: merkle_new_def Let_def)

lemma mt_root_new:
  "merkle_new sha leaves = Inr t \<Longrightarrow>
   mt_root t = hd (last (build_levels sha (map (hash_leaf sha) leaves)))"
  by (simp add: merkle_new_Inr mt_root_def)

text \<open>The root is a digest.\<close>

lemma next_level_range: "set (next_level sha xs) \<subseteq> range sha"
  by (induction sha xs rule: next_level.induct) (auto simp: hash_pair_def)

lemma build_levels_root_range:
  "xs \<noteq> [] \<Longrightarrow> set xs \<subseteq> range sha \<Longrightarrow> hd (last (build_levels sha xs)) \<in> range sha"
proof (induction xs rule: mt.level_induct [where sha = sha])
  case (small xs)
  then show ?case by (cases xs) (simp_all add: mt.build_stop)
next
  case (big xs)
  then show ?case using next_level_range by (simp add: mt.last_build_up mt.up_nonempty)
qed

lemma root_is_digest: "merkle_new sha leaves = Inr t \<Longrightarrow> \<exists>bs. mt_root t = sha bs"
proof -
  assume new: "merkle_new sha leaves = Inr t"
  have "hash_leaf sha x \<in> range sha" for x by (simp add: hash_leaf_def)
  then have "set (map (hash_leaf sha) leaves) \<subseteq> range sha" by auto
  moreover have "leaves \<noteq> []" using new by (simp add: merkle_new_Inr)
  ultimately have "mt_root t \<in> range sha"
    unfolding mt_root_new [OF new] by (intro build_levels_root_range) simp_all
  then show ?thesis by auto
qed

section \<open>Collisions\<close>

text \<open>
  Soundness is stated without assuming SHA-256 injective, which it is not: either the
  conclusion holds, or the proof exhibits two different inputs with one digest.
\<close>

definition collision :: "(bytes \<Rightarrow> bytes) \<Rightarrow> bool" where
  "collision sha \<longleftrightarrow> (\<exists>x y. x \<noteq> y \<and> sha x = sha y)"

lemma no_collisionD: "\<not> collision sha \<Longrightarrow> sha x = sha y \<Longrightarrow> x = y"
  by (auto simp: collision_def)

lemma utf8_inj: "utf8 s = utf8 t \<Longrightarrow> s = t"
proof -
  have small: "take_bit 8 (of_char c :: nat) = of_char c" for c :: char
    by (rule take_bit_nat_eq_self) (use nat_of_char_less_256 [of c] in simp)
  have "inj (\<lambda>c :: char. word_of_nat (of_char c) :: 8 word)"
    by (rule injI) (simp add: word_of_nat_eq_iff small)
  moreover assume "utf8 s = utf8 t"
  ultimately show "s = t" by (simp add: utf8_def inj_map_eq_map)
qed

lemma hash_leaf_inj: "hash_leaf sha s = hash_leaf sha t \<Longrightarrow> \<not> collision sha \<Longrightarrow> s = t"
  by (simp add: hash_leaf_def) (blast dest: no_collisionD utf8_inj)

lemma hash_pair_inj:
  assumes "hash_pair sha l r = hash_pair sha l' r'" and "length l = length l'"
    and "\<not> collision sha"
  shows "l = l' \<and> r = r'"
  using assms no_collisionD [of sha "l @ r" "l' @ r'"] by (simp add: hash_pair_def)

text \<open>A climb that ends on a parent of the level started from one of the level's nodes.\<close>

lemma proof_climb_child:
  assumes nc: "\<not> collision sha" and x: "length x = 32"
    and level: "\<forall>h \<in> set level. length h = 32"
    and parent: "proof_climb sha x s \<in> set (next_level sha level)"
  shows "x \<in> set level"
proof -
  from parent obtain k where k: "k < (length level + 1) div 2"
    and pk: "proof_climb sha x s = next_level sha level ! k"
    by (auto simp: in_set_conv_nth)
  define l where "l = level ! (2 * k)"
  define r where "r = (if 2 * k + 1 < length level then level ! (2 * k + 1) else l)"
  have lr: "l \<in> set level" "r \<in> set level" using k by (auto simp: l_def r_def)
  have eq: "proof_climb sha x s = sha (l @ r)"
    using k pk by (auto simp: next_level_nth l_def r_def hash_pair_def)
  show ?thesis
  proof (cases s)
    case (Pair h d)
    with eq lr x level show ?thesis
      by (cases d) (auto simp: hash_pair_def dest!: no_collisionD [OF nc])
  qed
qed

lemma length_proof_climb:
  "(\<And>x. length (sha x) = 32) \<Longrightarrow> length (proof_climb sha x s) = 32"
  by (cases "(sha, x, s)" rule: proof_climb.cases) (simp_all add: hash_pair_def)

lemma next_level_inj:
  assumes "\<not> collision sha"
  shows "length xs = length ys \<Longrightarrow> (\<forall>x \<in> set xs \<union> set ys. length x = 32) \<Longrightarrow>
    next_level sha xs = next_level sha ys \<Longrightarrow> xs = ys"
proof (induction xs arbitrary: ys rule: induct_list012)
  case 1
  then show ?case by simp
next
  case (2 x)
  then obtain y where y: "ys = [y]" by (cases ys) auto
  with 2 have "x = y \<and> x = y" by (intro hash_pair_inj [OF _ _ assms]) auto
  with y show ?case by simp
next
  case (3 x x' zs)
  then obtain y y' ws where ys: "ys = y # y' # ws" by (cases ys; cases "tl ys") auto
  with 3 have "x = y \<and> x' = y'" by (intro hash_pair_inj [OF _ _ assms]) auto
  moreover have "zs = ws" using 3 ys by (intro "3.IH") auto
  ultimately show ?case using ys by simp
qed

lemma next_level_digests:
  "(\<And>x. length (sha x) = 32) \<Longrightarrow> x \<in> set (next_level sha xs) \<Longrightarrow> length x = 32"
  by (induction sha xs rule: next_level.induct) (auto simp: hash_pair_def)

interpretation mt: binding_tree "next_level sha" "build_levels sha" "\<lambda>h. length h = 32"
    "\<not> collision sha \<and> (\<forall>x. length (sha x) = 32)"
  for sha
  by unfold_locales (use next_level_digests next_level_inj in blast)+

lemma build_levels_root_inj:
  assumes nc: "\<not> collision sha" and len: "\<And>x. length (sha x) = 32"
  shows "length xs = length ys \<Longrightarrow> (\<forall>x \<in> set xs \<union> set ys. length x = 32) \<Longrightarrow>
    hd (last (build_levels sha xs)) = hd (last (build_levels sha ys)) \<Longrightarrow> xs = ys"
  by (rule mt.root_inj) (use nc len in auto)

lemma climb_to_root_from_leaf:
  assumes nc: "\<not> collision sha" and len: "\<And>x. length (sha x) = 32"
  shows "xs \<noteq> [] \<Longrightarrow> length x = 32 \<Longrightarrow> \<forall>h \<in> set xs. length h = 32 \<Longrightarrow>
    length ss = length (build_levels sha xs) - 1 \<Longrightarrow>
    foldl (proof_climb sha) x ss = hd (last (build_levels sha xs)) \<Longrightarrow> x \<in> set xs"
proof (induction xs arbitrary: x ss rule: mt.level_induct [where sha = sha])
  case (small xs)
  then show ?case by (cases xs) (auto simp: mt.build_stop)
next
  case (big xs)
  obtain d where d: "length (build_levels sha (next_level sha xs)) = Suc d"
    using mt.build_nonempty [of sha "next_level sha xs"]
    by (cases "build_levels sha (next_level sha xs)") auto
  have "length ss = Suc d"
    using big.prems(4) big.hyps d by (simp add: mt.length_build_up [OF big.hyps])
  then obtain s ss' where ss: "ss = s # ss'" by (cases ss) auto
  have digests: "\<forall>h \<in> set (next_level sha xs). length h = 32"
    using next_level_digests [of sha, OF len] by blast
  have "proof_climb sha x s \<in> set (next_level sha xs)"
  proof (rule big.IH [OF _ _ digests])
    show "next_level sha xs \<noteq> []" using big.prems(1) by (rule mt.up_nonempty)
    show "length (proof_climb sha x s) = 32" by (rule length_proof_climb) (rule len)
    show "length ss' = length (build_levels sha (next_level sha xs)) - 1"
      using big.prems(4) big.hyps ss d by (simp add: mt.length_build_up [OF big.hyps])
    show "foldl (proof_climb sha) (proof_climb sha x s) ss' =
        hd (last (build_levels sha (next_level sha xs)))"
      using big.prems(5) big.hyps ss by (simp add: mt.last_build_up [OF big.hyps])
  qed
  then show ?case
    by (rule proof_climb_child [OF nc big.prems(2) big.prems(3)])
qed

lemma next_level_odd_duplicate:
  "odd (length xs) \<Longrightarrow> next_level sha (xs @ [last xs]) = next_level sha xs"
  by (induction sha xs rule: next_level.induct) auto

lemma leaf_hashes_digests:
  "(\<And>x. length (sha x) = 32) \<Longrightarrow> h \<in> set (map (hash_leaf sha) leaves) \<Longrightarrow> length h = 32"
  by (auto simp: hash_leaf_def)

text \<open>Every proof of an index in range verifies.\<close>

lemma proof_complete:
  assumes new: "merkle_new sha leaves = Inr t" and "0 \<le> i" and "i < int (length leaves)"
  shows "\<exists>p. get_proof t i = Inr p \<and> verify_proof sha p = Inr True \<and> mp_root p = mt_root t \<and>
    mp_leaf p = leaves ! nat i \<and> mp_leaf_hash p = hash_leaf sha (leaves ! nat i)"
proof -
  define hs where "hs = map (hash_leaf sha) leaves"
  have i: "nat i < length hs" using assms by (simp add: hs_def)
  have "foldl (proof_climb sha) (hs ! nat i) (proof_steps (butlast (build_levels sha hs)) (nat i))
      = hd (last (build_levels sha hs))"
    using mt.climb_to_root [OF i] .
  then show ?thesis
    using assms i by (auto simp: get_proof_def verify_proof_def merkle_new_Inr mt_root_def
        hs_def Let_def zip_map_fst_snd)
qed

section \<open>Properties\<close>

text \<open>C11: every leaf of a tree has an inclusion proof, and the proof verifies: for an index
  in range \<open>get_proof\<close> returns a proof of that leaf against the tree's root which
  \<open>verify_proof\<close> accepts, whatever the hash function and the number of leaves (odd levels
  included).\<close>

theorem merkle_proof_complete:
  assumes new: "merkle_new sha leaves = Inr t" and "0 \<le> i" and "i < int (length leaves)"
  shows "\<exists>p. get_proof t i = Inr p \<and> verify_proof sha p = Inr True \<and> mp_root p = mt_root t \<and>
    mp_leaf p = leaves ! nat i \<and> mp_leaf_hash p = hash_leaf sha (leaves ! nat i)"
  using assms by (rule proof_complete)



text \<open>The number of leaves is not bound: a batch with an odd number of entries (at least
  three) has the root of the batch that repeats its last entry, because an unpaired node is
  paired with itself.\<close>

theorem merkle_root_odd_duplicate:
  assumes "merkle_new sha leaves = Inr t" and "odd (length leaves)" and "1 < length leaves"
    and "merkle_new sha (leaves @ [last leaves]) = Inr u"
  shows "mt_root u = mt_root t"
proof -
  define hs where "hs = map (hash_leaf sha) leaves"
  have ne: "leaves \<noteq> []" using assms(3) by auto
  then have "map (hash_leaf sha) (leaves @ [last leaves]) = hs @ [last hs]"
    by (simp add: hs_def last_map)
  moreover have "next_level sha (hs @ [last hs]) = next_level sha hs"
    using assms(2) by (intro next_level_odd_duplicate) (simp add: hs_def)
  ultimately show ?thesis
    using assms ne by (simp add: mt_root_new mt.last_build_up hs_def)
qed

text \<open>A proof has logarithmic size: with \<open>d\<close> sibling hashes the tree has at most
  \<open>2 ^ d\<close> leaves and, when it has more than one, more than \<open>2 ^ (d - 1)\<close>.\<close>

theorem merkle_proof_depth:
  assumes "merkle_new sha leaves = Inr t" and "get_proof t i = Inr p"
  shows "length leaves \<le> 2 ^ length (mp_hashes p) \<and>
    (1 < length leaves \<longrightarrow> 2 ^ (length (mp_hashes p) - 1) < length leaves)"
proof -
  have d: "length (mp_hashes p) = length (build_levels sha (map (hash_leaf sha) leaves)) - 1"
    using assms by (auto simp: get_proof_def merkle_new_Inr mt.length_steps Let_def split: if_splits)
  show ?thesis
    using mt.leaves_le_depth [of "map (hash_leaf sha) leaves" sha]
      mt.depth_tight [of "map (hash_leaf sha) leaves" sha] d
    by (simp add: numeral_2_eq_2)
qed

section \<open>Witnesses\<close>

text \<open>The witnesses run the definitions with a padding function in the place of SHA-256.\<close>

definition pad_hash :: "bytes \<Rightarrow> bytes" where
  "pad_hash x = take 32 (x @ replicate 32 0)"

definition pad_tree :: "string list \<Rightarrow> merkle_tree" where
  "pad_tree leaves =
     (let hashed = map (hash_leaf pad_hash) leaves
      in \<lparr>mt_leaves = leaves, mt_hashed = hashed, mt_levels = build_levels pad_hash hashed\<rparr>)"

lemma length_pad_hash: "length (pad_hash x) = 32"
  by (simp add: pad_hash_def)

lemma pad_tree_new: "leaves \<noteq> [] \<Longrightarrow> merkle_new pad_hash leaves = Inr (pad_tree leaves)"
  by (simp add: merkle_new_def pad_tree_def Let_def)

lemma merkle_proof_complete_witness:
  "\<exists>p. get_proof (pad_tree [''a'', ''b'', ''c'']) 2 = Inr p \<and> verify_proof pad_hash p = Inr True \<and>
     mp_leaf p = ''c''"
  using merkle_proof_complete [OF pad_tree_new, of "[''a'', ''b'', ''c'']" 2] by fastforce



lemma merkle_root_odd_duplicate_witness:
  "mt_root (pad_tree [''a'', ''b'', ''c'', ''c'']) = mt_root (pad_tree [''a'', ''b'', ''c''])"
  by (rule merkle_root_odd_duplicate [OF pad_tree_new]) (simp_all add: pad_tree_new)

lemma merkle_proof_depth_witness:
  "\<exists>p. get_proof (pad_tree [''a'', ''b'', ''c'']) 0 = Inr p \<and> 3 \<le> (2::nat) ^ length (mp_hashes p)"
proof -
  obtain p where p: "get_proof (pad_tree [''a'', ''b'', ''c'']) 0 = Inr p"
    by (simp add: get_proof_def pad_tree_def Let_def)
  with merkle_proof_depth [OF pad_tree_new, of "[''a'', ''b'', ''c'']" 0 p] show ?thesis by simp
qed

end
