(* ===== verification/Anchoring.thy ===== *)
theory Anchoring
  imports Merkle Py_Strings
begin

text \<open>
  Anchoring of ledger entries on a chain: the rows of \<^verbatim>\<open>core/ledger/anchor/models.py\<close>, the chain
  clients of \<^verbatim>\<open>core/ledger/anchor/chain.py\<close>, the service of
  \<^verbatim>\<open>core/ledger/anchor/service.py\<close>, the background cycle of
  \<^verbatim>\<open>core/ledger/anchor/bundler_task.py\<close> and the endpoints of \<^verbatim>\<open>core/api/v1/ledger.py\<close>.

  \<open>ChainClient\<close> is the locale \<open>chain_client\<close>, interpreted on \<open>NoOpChainClient\<close>; the web3 client is
  shown to satisfy it from what an Ethereum node promises (its functions are parameters).
  \<open>EntryRepository\<close> has no implementation in the repository: its fetch is a parameter, its save is
  what its documentation and the table's constraints say. \<open>isof\<close> is \<open>datetime.isoformat\<close>.
\<close>

section \<open>Rows\<close>

record anchor_entry =
  ae_id :: int
  ae_created_at :: "instant option"
  ae_account :: string
  ae_delta :: string
  ae_anchor :: "uuid option"

record anchor_record =
  ar_id :: uuid
  ar_root :: string
  ar_tx :: string
  ar_block :: int
  ar_count :: nat
  ar_anchored_at :: instant

record anchor_db =
  ad_records :: "anchor_record list"
  ad_entries :: "anchor_entry list"

definition hash_input :: "(instant \<Rightarrow> string) \<Rightarrow> anchor_entry \<Rightarrow> string" where
  "hash_input isof e = show_int (ae_id e) @ '':'' @ ae_account e @ '':'' @ ae_delta e @ '':'' @
     (case ae_created_at e of Some t \<Rightarrow> isof t | None \<Rightarrow> '''')"

section \<open>Chain clients\<close>

record chain_receipt =
  cr_tx :: string
  cr_block :: int

record chain_verification =
  cv_verified :: bool
  cv_root :: string

type_synonym 'c submit_root = "string \<Rightarrow> nat \<Rightarrow> 'c \<Rightarrow> (py_exc + chain_receipt) \<times> 'c"
type_synonym 'c verify_root = "string \<Rightarrow> string \<Rightarrow> 'c \<Rightarrow> py_exc + chain_verification"

text \<open>What the service relies on: a submitted root verifies under its transaction, now and after
  any later submission.\<close>

locale chain_client =
  fixes submit :: "'c submit_root"
    and verify :: "'c verify_root"
    and valid_root :: "string \<Rightarrow> bool"
  assumes submitted_verifies: "valid_root r \<Longrightarrow> submit r n c = (Inr rc, c') \<Longrightarrow>
      verify (cr_tx rc) r c' = Inr \<lparr>cv_verified = True, cv_root = r\<rparr>"
    and verified_kept: "verify tx r c = Inr \<lparr>cv_verified = True, cv_root = r\<rparr> \<Longrightarrow>
      submit r' n c = (res, c') \<Longrightarrow> verify tx r c' = Inr \<lparr>cv_verified = True, cv_root = r\<rparr>"
begin

fun submit_many :: "(string \<times> nat) list \<Rightarrow> 'c \<Rightarrow> 'c" where
  "submit_many [] c = c"
| "submit_many ((r, n) # rs) c = submit_many rs (snd (submit r n c))"

lemma verified_forever:
  assumes "valid_root r" and "submit r n c = (Inr rc, c')"
  shows "verify (cr_tx rc) r (submit_many rs c') = Inr \<lparr>cv_verified = True, cv_root = r\<rparr>"
proof -
  have "verify (cr_tx rc) r d = Inr \<lparr>cv_verified = True, cv_root = r\<rparr> \<Longrightarrow>
      verify (cr_tx rc) r (submit_many rs d) = Inr \<lparr>cv_verified = True, cv_root = r\<rparr>" for d
    by (induction rs d rule: submit_many.induct) (auto intro: verified_kept prod.collapse [symmetric])
  then show ?thesis using submitted_verifies [OF assms] by blast
qed

end

definition noop_submit :: "'c submit_root" where
  "noop_submit r n c = (Inr \<lparr>cr_tx = ''0x'' @ replicate 64 (CHR ''0''), cr_block = 0\<rparr>, c)"

definition noop_verify :: "'c verify_root" where
  "noop_verify tx expected c = Inr \<lparr>cv_verified = True, cv_root = expected\<rparr>"

interpretation noop: chain_client noop_submit noop_verify "\<lambda>_. True"
  by unfold_locales (simp_all add: noop_verify_def)

text \<open>The web3 client over a node: \<open>send\<close> runs the signed \<open>anchorRoot\<close> transaction and gives the
  receipt's hash and block, \<open>logs\<close> the roots of the \<open>RootAnchored\<close> events of a transaction.\<close>

definition rjust32 :: "bytes \<Rightarrow> bytes" where
  "rjust32 b = replicate (32 - length b) 0 @ b"

definition web3_submit ::
  "(bytes \<Rightarrow> nat \<Rightarrow> 'c \<Rightarrow> (py_exc + string \<times> int) \<times> 'c) \<Rightarrow> 'c submit_root" where
  "web3_submit send r n c =
     (case from_hex (if take 2 r = ''0x'' then drop 2 r else r) of
        None \<Rightarrow> (Inl (ValueError ''non-hexadecimal root''), c)
      | Some b \<Rightarrow>
          (case send (rjust32 b) n c of
             (Inl x, c') \<Rightarrow> (Inl x, c')
           | (Inr (tx, block), c') \<Rightarrow> (Inr \<lparr>cr_tx = tx, cr_block = block\<rparr>, c')))"

definition web3_verify :: "(string \<Rightarrow> 'c \<Rightarrow> py_exc + bytes list) \<Rightarrow> 'c verify_root" where
  "web3_verify logs tx expected c =
     err_bind (logs tx c)
       (\<lambda>ls. case ls of
               [] \<Rightarrow> Inr \<lparr>cv_verified = False, cv_root = ''''\<rparr>
             | b # _ \<Rightarrow> Inr \<lparr>cv_verified = (hex_of b = expected), cv_root = hex_of b\<rparr>)"

definition hex_root :: "string \<Rightarrow> bool" where
  "hex_root r \<longleftrightarrow> (\<exists>b. length b = 32 \<and> r = hex_of b)"

lemma hex_of_no_prefix: "length b = 32 \<Longrightarrow> take 2 (hex_of b) \<noteq> ''0x''"
proof (cases b)
  case (Cons x xs)
  have "digit_char (unat x mod 16) \<in> set ''0123456789abcdef''"
    unfolding digit_char_def by (intro nth_mem) simp
  then show ?thesis unfolding Cons by (auto simp: byte_hex_chars(1))
qed simp

text \<open>A node that records a transaction's event, and keeps it, makes the web3 client lawful.\<close>

lemma web3_is_chain_client:
  assumes sent: "\<And>b n c tx blk c'. send b n c = (Inr (tx, blk), c') \<Longrightarrow> logs tx c' = Inr [b]"
    and kept: "\<And>tx b c b' n res c'. logs tx c = Inr [b] \<Longrightarrow> send b' n c = (res, c') \<Longrightarrow> logs tx c' = Inr [b]"
    and single: "\<And>tx c ls. logs tx c = Inr ls \<Longrightarrow> length ls \<le> 1"
  shows "chain_client (web3_submit send) (web3_verify logs) hex_root"
proof
  fix r n c rc and c'
  assume "hex_root r" and call: "web3_submit send r n c = (Inr rc, c')"
  then obtain b where b: "length b = 32" "r = hex_of b" by (auto simp: hex_root_def)
  with call obtain blk where "send b n c = (Inr (cr_tx rc, blk), c')"
    by (auto simp: web3_submit_def hex_of_no_prefix rjust32_def split: prod.splits sum.splits)
  with sent b show "web3_verify logs (cr_tx rc) r c' = Inr \<lparr>cv_verified = True, cv_root = r\<rparr>"
    by (auto simp: web3_verify_def)
next
  fix tx r r' n c res and c'
  assume v: "web3_verify logs tx r c = Inr \<lparr>cv_verified = True, cv_root = r\<rparr>"
    and call: "web3_submit send r' n c = (res, c')"
  then obtain b ls where l: "logs tx c = Inr (b # ls)" and r: "hex_of b = r"
    unfolding web3_verify_def err_bind_Inr by (metis (no_types, lifting) chain_verification.ext_inject
        list.case(1) list.case(2) list.exhaust sum.inject(2))
  with single [OF l] have l1: "logs tx c = Inr [b]" by simp
  from call have "c' = c \<or> (\<exists>b' res'. send b' n c = (res', c'))"
    by (auto simp: web3_submit_def split: option.splits prod.splits sum.splits)
  then have "logs tx c' = Inr [b]" using kept [OF l1] l1 by blast
  with r show "web3_verify logs tx r c' = Inr \<lparr>cv_verified = True, cv_root = r\<rparr>"
    by (simp add: web3_verify_def)
qed

section \<open>The service\<close>

definition create_merkle_root ::
  "(bytes \<Rightarrow> bytes) \<Rightarrow> (instant \<Rightarrow> string) \<Rightarrow> anchor_entry list \<Rightarrow> py_exc + bytes" where
  "create_merkle_root sha isof entries =
     (if entries = [] then Inl (ValueError ''Cannot compute a Merkle root from zero entries'')
      else err_bind (merkle_new sha (map (hash_input isof) entries)) (\<lambda>t. Inr (mt_root t)))"

definition anchor_batch ::
  "(bytes \<Rightarrow> bytes) \<Rightarrow> (instant \<Rightarrow> string) \<Rightarrow> 'c submit_root \<Rightarrow> uuid \<Rightarrow> instant \<Rightarrow>
   anchor_entry list \<Rightarrow> 'c \<Rightarrow> (py_exc + anchor_record) \<times> 'c" where
  "anchor_batch sha isof submit rid now entries c =
     (if entries = [] then (Inl (ValueError ''Cannot anchor an empty batch''), c)
      else case merkle_new sha (map (hash_input isof) entries) of
             Inl x \<Rightarrow> (Inl x, c)
           | Inr t \<Rightarrow>
               (case submit (hex_of (mt_root t)) (length entries) c of
                  (Inl x, c') \<Rightarrow> (Inl x, c')
                | (Inr rc, c') \<Rightarrow>
                    (Inr \<lparr>ar_id = rid, ar_root = hex_of (mt_root t), ar_tx = cr_tx rc,
                          ar_block = cr_block rc, ar_count = length entries, ar_anchored_at = now\<rparr>, c')))"

fun index_of :: "int \<Rightarrow> anchor_entry list \<Rightarrow> nat option" where
  "index_of i [] = None"
| "index_of i (e # es) = (if ae_id e = i then Some 0 else map_option Suc (index_of i es))"

definition get_entry_proof ::
  "(bytes \<Rightarrow> bytes) \<Rightarrow> (instant \<Rightarrow> string) \<Rightarrow> anchor_entry \<Rightarrow> anchor_entry list \<Rightarrow> py_exc + merkle_proof" where
  "get_entry_proof sha isof e all_entries =
     (case index_of (ae_id e) all_entries of
        None \<Rightarrow> Inl (ValueError (''Entry id='' @ show_int (ae_id e) @ '' not found in the provided batch''))
      | Some i \<Rightarrow>
          err_bind (merkle_new sha (map (hash_input isof) all_entries)) (\<lambda>t. get_proof t (int i)))"

section \<open>The bundler cycle\<close>

definition save_anchor :: "anchor_record \<Rightarrow> int list \<Rightarrow> anchor_db \<Rightarrow> py_exc + anchor_db" where
  "save_anchor r ids db =
     (if ar_tx r \<in> ar_tx ` set (ad_records db) \<or> ar_id r \<in> ar_id ` set (ad_records db)
      then Inl IntegrityError
      else Inr \<lparr>ad_records = ad_records db @ [r],
                ad_entries = update_where (\<lambda>e. ae_id e \<in> set ids) (\<lambda>e. e\<lparr>ae_anchor := Some (ar_id r)\<rparr>)
                  (ad_entries db)\<rparr>)"

type_synonym fetch = "nat \<Rightarrow> anchor_db \<Rightarrow> anchor_entry list"

definition run_once ::
  "(bytes \<Rightarrow> bytes) \<Rightarrow> (instant \<Rightarrow> string) \<Rightarrow> 'c submit_root \<Rightarrow> fetch \<Rightarrow> nat \<Rightarrow> uuid \<Rightarrow> instant \<Rightarrow>
   anchor_db \<times> 'c \<Rightarrow> (py_exc + unit) \<times> anchor_db \<times> 'c" where
  "run_once sha isof submit fetch batch_size rid now s =
     (let entries = fetch batch_size (fst s)
      in if entries = [] then (Inr (), s)
         else case anchor_batch sha isof submit rid now entries (snd s) of
                (Inl x, c) \<Rightarrow> (Inl x, fst s, c)
              | (Inr r, c) \<Rightarrow>
                  (case save_anchor r (map ae_id entries) (fst s) of
                     Inl x \<Rightarrow> (Inl x, fst s, c)
                   | Inr db \<Rightarrow> (Inr (), db, c)))"

text \<open>Cycles of the loop: an exception is logged and the next cycle runs. The \<open>k\<close>-th cycle draws the
  record identifier and the time of \<open>draws k\<close>; a disabled configuration leaves the loop at once.\<close>

fun run_cycles ::
  "(bytes \<Rightarrow> bytes) \<Rightarrow> (instant \<Rightarrow> string) \<Rightarrow> 'c submit_root \<Rightarrow> fetch \<Rightarrow> nat \<Rightarrow>
   (uuid \<times> instant) list \<Rightarrow> anchor_db \<times> 'c \<Rightarrow> anchor_db \<times> 'c" where
  "run_cycles sha isof submit fetch batch_size [] s = s"
| "run_cycles sha isof submit fetch batch_size ((rid, now) # ds) s =
     run_cycles sha isof submit fetch batch_size ds
       (snd (run_once sha isof submit fetch batch_size rid now s))"

definition run_bundler_loop where
  "run_bundler_loop sha isof submit fetch enabled batch_size ds s =
     (if enabled then run_cycles sha isof submit fetch batch_size ds s else s)"

section \<open>Endpoints\<close>

definition find_anchor :: "int \<Rightarrow> anchor_db \<Rightarrow> py_exc + anchor_entry \<times> anchor_record" where
  "find_anchor i db =
     (case row_at ae_id i (ad_entries db) of
        None \<Rightarrow> Inl (HTTPException 404 ''Ledger entry not found'')
      | Some e \<Rightarrow>
          (case ae_anchor e of
             None \<Rightarrow> Inl (HTTPException 404 ''Entry has not been anchored yet'')
           | Some a \<Rightarrow>
               (case row_at ar_id a (ad_records db) of
                  None \<Rightarrow> Inl (HTTPException 404 ''Anchor record not found'')
                | Some r \<Rightarrow> Inr (e, r))))"

record proof_response =
  pr_entry :: int
  pr_root :: string
  pr_hashes :: "string list"
  pr_directions :: "direction list"
  pr_tx :: string
  pr_block :: int

definition batch_of :: "uuid \<Rightarrow> anchor_db \<Rightarrow> anchor_entry list" where
  "batch_of a db = sort_key ae_id (filter (\<lambda>e. ae_anchor e = Some a) (ad_entries db))"

definition proof_endpoint ::
  "(bytes \<Rightarrow> bytes) \<Rightarrow> (instant \<Rightarrow> string) \<Rightarrow> int \<Rightarrow> anchor_db \<Rightarrow> py_exc + proof_response" where
  "proof_endpoint sha isof i db =
     err_bind (find_anchor i db)
       (\<lambda>(e, r). err_bind (get_entry_proof sha isof e (batch_of (ar_id r) db))
          (\<lambda>p. Inr \<lparr>pr_entry = i, pr_root = ar_root r, pr_hashes = map hex_of (mp_hashes p),
                    pr_directions = mp_directions p, pr_tx = ar_tx r, pr_block = ar_block r\<rparr>))"

record verification_response =
  vr_verified :: bool
  vr_entry :: int
  vr_root :: string
  vr_on_chain_root :: string
  vr_block :: int
  vr_tx :: string

definition verify_endpoint ::
  "'c verify_root \<Rightarrow> int \<Rightarrow> anchor_db \<times> 'c \<Rightarrow> py_exc + verification_response" where
  "verify_endpoint verify i s =
     err_bind (find_anchor i (fst s))
       (\<lambda>(e, r). err_bind (verify (ar_tx r) (ar_root r) (snd s))
          (\<lambda>v. Inr \<lparr>vr_verified = cv_verified v, vr_entry = i, vr_root = ar_root r,
                    vr_on_chain_root = cv_root v, vr_block = ar_block r, vr_tx = ar_tx r\<rparr>))"

definition list_anchors ::
  "(string \<Rightarrow> instant option) \<Rightarrow> nat \<Rightarrow> nat \<Rightarrow> string option \<Rightarrow> anchor_db \<Rightarrow> py_exc + anchor_record list" where
  "list_anchors fromiso page per_page since db =
     (if page < 1 \<or> per_page < 1 \<or> 100 < per_page then Inl (HTTPException 422 ''validation error'')
      else
        err_bind
          (case since of
             None \<Rightarrow> Inr (ad_records db)
           | Some s \<Rightarrow>
               (case fromiso s of
                  None \<Rightarrow> Inl (HTTPException 422 (''Invalid ISO date format: '' @ s))
                | Some t \<Rightarrow> Inr (filter (\<lambda>r. t \<le> ar_anchored_at r) (ad_records db))))
          (\<lambda>rows. Inr (take per_page (drop ((page - 1) * per_page)
             (sort_key (\<lambda>r. - ar_anchored_at r) rows)))))"

section \<open>The repository contract\<close>

definition unanchored :: "anchor_db \<Rightarrow> anchor_entry list" where
  "unanchored db = filter (\<lambda>e. ae_anchor e = None) (ad_entries db)"

definition anchor_db_ok :: "anchor_db \<Rightarrow> bool" where
  "anchor_db_ok db \<longleftrightarrow> distinct (map ae_id (ad_entries db)) \<and>
     (\<forall>e \<in> set (ad_entries db). \<forall>a. ae_anchor e = Some a \<longrightarrow> a \<in> ar_id ` set (ad_records db))"

text \<open>\<open>fetch_unanchored(limit)\<close>: as many entries without an anchor as there are, up to the limit, in
  the order of their identifiers.\<close>

definition fetch_ok :: "fetch \<Rightarrow> bool" where
  "fetch_ok fetch \<longleftrightarrow>
     (\<forall>n db. distinct (map ae_id (ad_entries db)) \<longrightarrow>
        set (fetch n db) \<subseteq> set (unanchored db) \<and> distinct (map ae_id (fetch n db)) \<and>
        sorted (map ae_id (fetch n db)) \<and> length (fetch n db) = min n (length (unanchored db)))"

definition fetch_by_id :: fetch where
  "fetch_by_id n db = take n (sort_key ae_id (unanchored db))"

lemma fetch_by_id_ok: "fetch_ok fetch_by_id"
  unfolding fetch_ok_def fetch_by_id_def
proof (intro allI impI conjI)
  fix n and db :: anchor_db
  assume d: "distinct (map ae_id (ad_entries db))"
  then have "distinct (map ae_id (unanchored db))"
    by (simp add: unanchored_def distinct_map_filter)
  then have "distinct (map ae_id (sort_key ae_id (unanchored db)))"
    by (simp add: distinct_map)
  then show "distinct (map ae_id (take n (sort_key ae_id (unanchored db))))"
    by (simp add: take_map [symmetric])
  show "sorted (map ae_id (take n (sort_key ae_id (unanchored db))))"
    by (simp add: take_map [symmetric] sorted_wrt_take)
  show "set (take n (sort_key ae_id (unanchored db))) \<subseteq> set (unanchored db)"
    using set_take_subset [of n "sort_key ae_id (unanchored db)"] by simp
qed simp

lemma hash_input_anchor [simp]: "hash_input isof (e\<lparr>ae_anchor := a\<rparr>) = hash_input isof e"
  by (simp add: hash_input_def)

lemma save_anchor_Inr:
  "save_anchor r ids db = Inr db' \<longleftrightarrow>
     ar_tx r \<notin> ar_tx ` set (ad_records db) \<and> ar_id r \<notin> ar_id ` set (ad_records db) \<and>
     db' = \<lparr>ad_records = ad_records db @ [r],
            ad_entries = update_where (\<lambda>e. ae_id e \<in> set ids) (\<lambda>e. e\<lparr>ae_anchor := Some (ar_id r)\<rparr>)
              (ad_entries db)\<rparr>"
  by (auto simp: save_anchor_def)

lemma run_once_Inr:
  assumes "run_once sha isof submit fetch b rid now (db, c) = (Inr (), db', c')" and "fetch b db \<noteq> []"
  obtains t rc r where "merkle_new sha (map (hash_input isof) (fetch b db)) = Inr t"
    and "submit (hex_of (mt_root t)) (length (fetch b db)) c = (Inr rc, c')"
    and "r = \<lparr>ar_id = rid, ar_root = hex_of (mt_root t), ar_tx = cr_tx rc, ar_block = cr_block rc,
           ar_count = length (fetch b db), ar_anchored_at = now\<rparr>"
    and "save_anchor r (map ae_id (fetch b db)) db = Inr db'"
  using assms by (auto simp: run_once_def anchor_batch_def Let_def split: sum.splits prod.splits if_splits)

text \<open>The entries of a saved batch, sorted by identifier, are the batch.\<close>

lemma batch_of_saved:
  assumes ok: "anchor_db_ok db" and save: "save_anchor r (map ae_id es) db = Inr db'"
    and es: "set es \<subseteq> set (unanchored db)" "distinct (map ae_id es)" "sorted (map ae_id es)"
  shows "batch_of (ar_id r) db' = map (\<lambda>e. e\<lparr>ae_anchor := Some (ar_id r)\<rparr>) es"
proof -
  let ?set = "\<lambda>e. e\<lparr>ae_anchor := Some (ar_id r)\<rparr>"
  have d: "distinct (map ae_id (ad_entries db))" using ok by (simp add: anchor_db_ok_def)
  have old: "ae_anchor e \<noteq> Some (ar_id r)" if "e \<in> set (ad_entries db)" for e
    using ok save that by (auto simp: anchor_db_ok_def save_anchor_Inr)
  have pick: "ae_id e \<in> ae_id ` set es \<longleftrightarrow> e \<in> set es" if "e \<in> set (ad_entries db)" for e
    using es(1) that d by (auto simp: unanchored_def dest: inj_onD [OF distinct_map [THEN iffD1, THEN conjunct2]])
  have "set (filter (\<lambda>e. ae_anchor e = Some (ar_id r)) (ad_entries db')) = ?set ` set es"
  proof -
    have "set (ad_entries db') = (\<lambda>e. if e \<in> set es then ?set e else e) ` set (ad_entries db)"
      using save pick by (force simp: save_anchor_Inr update_where_def)
    then show ?thesis using old es(1) by (auto simp: unanchored_def split: if_splits)
  qed
  then have "set (batch_of (ar_id r) db') = set (map ?set es)" by (simp add: batch_of_def)
  moreover have "map ae_id (ad_entries db') = map ae_id (ad_entries db)"
    using save by (simp add: save_anchor_Inr update_where_keys)
  then have "distinct (map ae_id (ad_entries db'))" using d by simp
  then have "distinct (map ae_id (batch_of (ar_id r) db'))" "inj_on ae_id (set (ad_entries db'))"
    by (auto simp: batch_of_def distinct_map intro: inj_on_subset)
  moreover have "set (batch_of (ar_id r) db') \<subseteq> set (ad_entries db')" by (auto simp: batch_of_def)
  ultimately show ?thesis
    using es(2,3) by (intro map_sorted_distinct_set_unique [of ae_id])
      (auto simp: batch_of_def comp_def intro: inj_on_subset)
qed

lemma index_of_nth:
  "e \<in> set es \<Longrightarrow> distinct (map ae_id es) \<Longrightarrow>
   \<exists>i < length es. index_of (ae_id e) es = Some i \<and> ae_id (es ! i) = ae_id e"
proof (induction es)
  case Nil
  then show ?case by simp
next
  case (Cons x es)
  show ?case
  proof (cases "ae_id x = ae_id e")
    case True
    then show ?thesis by auto
  next
    case False
    with Cons obtain i where "i < length es" "index_of (ae_id e) es = Some i" "ae_id (es ! i) = ae_id e"
      by auto
    with False show ?thesis by (intro exI [of _ "Suc i"]) auto
  qed
qed

section \<open>Properties\<close>


definition two_entries :: anchor_db where
  "two_entries = \<lparr>ad_records = [], ad_entries =
     [\<lparr>ae_id = 1, ae_created_at = Some 0, ae_account = ''a'', ae_delta = ''3'', ae_anchor = None\<rparr>,
      \<lparr>ae_id = 2, ae_created_at = Some 0, ae_account = ''b'', ae_delta = ''4'', ae_anchor = None\<rparr>]\<rparr>"

lemma two_entries_ok: "anchor_db_ok two_entries"
  by (simp add: anchor_db_ok_def two_entries_def)

lemma two_entries_fetch: "fetch_by_id 5 two_entries = ad_entries two_entries"
  by (simp add: fetch_by_id_def unanchored_def two_entries_def)

lemma two_entries_run:
  "\<exists>db'. run_once pad_hash (\<lambda>_. ''t'') noop_submit fetch_by_id 5 9 100 (two_entries, ()) = (Inr (), db', ())"
  by (simp add: run_once_def anchor_batch_def two_entries_fetch Let_def pad_tree_new noop_submit_def save_anchor_def)
     (simp add: two_entries_def)




section \<open>Progress of the bundler\<close>

text \<open>A chain that takes every root and never repeats a transaction hash; \<open>txs\<close> gives the hashes
  used so far.\<close>

definition accepting :: "'c submit_root \<Rightarrow> ('c \<Rightarrow> string set) \<Rightarrow> bool" where
  "accepting submit txs \<longleftrightarrow>
     (\<forall>r n c. \<exists>rc c'. submit r n c = (Inr rc, c') \<and> cr_tx rc \<notin> txs c \<and> txs c' = insert (cr_tx rc) (txs c))"

definition bundler_inv :: "('c \<Rightarrow> string set) \<Rightarrow> uuid set \<Rightarrow> anchor_db \<times> 'c \<Rightarrow> bool" where
  "bundler_inv txs ids s \<longleftrightarrow> anchor_db_ok (fst s) \<and> ar_tx ` set (ad_records (fst s)) \<subseteq> txs (snd s) \<and>
     ar_id ` set (ad_records (fst s)) \<inter> ids = {}"

lemma save_anchor_ok:
  assumes "anchor_db_ok db" and "save_anchor r ids db = Inr db'"
  shows "anchor_db_ok db'"
  using assms by (auto simp: anchor_db_ok_def save_anchor_Inr update_where_keys) (auto simp: update_where_def)

lemma unanchored_saved:
  assumes ok: "anchor_db_ok db" and save: "save_anchor r (map ae_id es) db = Inr db'"
    and es: "set es \<subseteq> set (unanchored db)" "distinct (map ae_id es)"
  shows "length (unanchored db') = length (unanchored db) - length es"
proof -
  have d: "distinct (map ae_id (ad_entries db))" using ok by (simp add: anchor_db_ok_def)
  have pick: "ae_id e \<in> ae_id ` set es \<longleftrightarrow> e \<in> set es" if "e \<in> set (ad_entries db)" for e
    using es(1) that d by (auto simp: unanchored_def dest: inj_onD [OF distinct_map [THEN iffD1, THEN conjunct2]])
  have "unanchored db' = filter (\<lambda>e. ae_anchor e = None)
      (map (\<lambda>e. if ae_id e \<in> ae_id ` set es then e\<lparr>ae_anchor := Some (ar_id r)\<rparr> else e) (ad_entries db))"
    using save by (simp add: unanchored_def save_anchor_Inr update_where_def)
  also have "\<dots> = filter (\<lambda>e. e \<notin> set es) (unanchored db)"
  proof -
    have "filter (\<lambda>e. ae_anchor e = None)
        (map (\<lambda>e. if ae_id e \<in> ae_id ` set es then e\<lparr>ae_anchor := Some (ar_id r)\<rparr> else e) xs) =
      filter (\<lambda>e. e \<notin> set es) (filter (\<lambda>e. ae_anchor e = None) xs)"
      if "set xs \<subseteq> set (ad_entries db)" for xs
      using that pick by (induction xs) auto
    then show ?thesis by (simp add: unanchored_def)
  qed
  finally have eq: "unanchored db' = filter (\<lambda>e. e \<notin> set es) (unanchored db)" .
  have u: "distinct (unanchored db)" using d by (simp add: unanchored_def distinct_map)
  have "length (unanchored db') = card (set (unanchored db) - set es)"
    unfolding eq using u by (simp add: distinct_card [symmetric] set_diff_eq)
  also have "\<dots> = card (set (unanchored db)) - card (set es)"
    using es(1) by (intro card_Diff_subset) auto
  also have "\<dots> = length (unanchored db) - length es"
    using u es(2) by (simp add: distinct_card distinct_map)
  finally show ?thesis .
qed

lemma run_once_progress:
  assumes inv: "bundler_inv txs (insert rid ids) (db, c)" and acc: "accepting submit txs"
    and fetch: "fetch_ok fetch" and rid: "rid \<notin> ids"
    and run: "run_once sha isof submit fetch b rid now (db, c) = (res, db', c')"
  shows "bundler_inv txs ids (db', c') \<and> length (unanchored db') = length (unanchored db) - b"
proof -
  let ?es = "fetch b db"
  have ok: "anchor_db_ok db" using inv by (simp add: bundler_inv_def)
  then have d: "distinct (map ae_id (ad_entries db))" by (simp add: anchor_db_ok_def)
  have es: "set ?es \<subseteq> set (unanchored db)" "distinct (map ae_id ?es)"
    "length ?es = min b (length (unanchored db))"
    using fetch d unfolding fetch_ok_def by blast+
  show ?thesis
  proof (cases "?es = []")
    case True
    with run es(3) inv show ?thesis by (auto simp: run_once_def bundler_inv_def)
  next
    case False
    then obtain t where t: "merkle_new sha (map (hash_input isof) ?es) = Inr t"
      by (simp add: merkle_new_def Let_def)
    obtain rc c1 where s: "submit (hex_of (mt_root t)) (length ?es) c = (Inr rc, c1)"
      "cr_tx rc \<notin> txs c" "txs c1 = insert (cr_tx rc) (txs c)"
      using acc unfolding accepting_def by blast
    define r where "r = \<lparr>ar_id = rid, ar_root = hex_of (mt_root t), ar_tx = cr_tx rc, ar_block = cr_block rc,
      ar_count = length ?es, ar_anchored_at = now\<rparr>"
    have "cr_tx rc \<notin> ar_tx ` set (ad_records db)" using s(2) inv by (auto simp: bundler_inv_def)
    moreover have "rid \<notin> ar_id ` set (ad_records db)" using inv by (auto simp: bundler_inv_def)
    ultimately obtain db1 where save: "save_anchor r (map ae_id ?es) db = Inr db1"
      by (simp add: save_anchor_def r_def)
    have "db' = db1" "c' = c1"
      using run False t s(1) save by (simp_all add: run_once_def anchor_batch_def Let_def r_def)
    moreover have "bundler_inv txs ids (db1, c1)"
      using save_anchor_ok [OF ok save] save inv s(3) rid
      by (auto simp: bundler_inv_def save_anchor_Inr r_def)
    ultimately show ?thesis
      using unanchored_saved [OF ok save es(1,2)] es(3) by simp
  qed
qed

lemma run_cycles_progress:
  assumes "bundler_inv txs (set (map fst ds)) (db, c)" and "accepting submit txs" and "fetch_ok fetch"
    and "distinct (map fst ds)"
  shows "length (unanchored (fst (run_cycles sha isof submit fetch b ds (db, c)))) =
    length (unanchored db) - length ds * b"
  using assms
proof (induction ds arbitrary: db c)
  case Nil
  then show ?case by simp
next
  case (Cons x ds)
  obtain rid now where x: "x = (rid, now)" by (cases x)
  obtain res db' c' where run: "run_once sha isof submit fetch b rid now (db, c) = (res, db', c')"
    using prod_cases3 by blast
  have "bundler_inv txs (set (map fst ds)) (db', c') \<and> length (unanchored db') = length (unanchored db) - b"
    by (rule run_once_progress [OF _ Cons.prems(2,3) _ run]) (use Cons.prems(1,4) x in auto)
  with Cons.IH [of db' c'] Cons.prems run x show ?case by simp
qed

lemma noop_stuck:
  "\<exists>r \<in> set (ad_records db). ar_tx r = ''0x'' @ replicate 64 (CHR ''0'') \<Longrightarrow>
   fst (run_cycles sha isof noop_submit fetch b ds (db, c)) = db"
proof (induction ds arbitrary: c)
  case Nil
  then show ?case by simp
next
  case (Cons x ds)
  obtain rid now where x: "x = (rid, now)" by (cases x)
  obtain res db' c' where run: "run_once sha isof noop_submit fetch b rid now (db, c) = (res, db', c')"
    using prod_cases3 by blast
  have "''0x'' @ replicate 64 (CHR ''0'') \<in> ar_tx ` set (ad_records db)"
    using Cons.prems by force
  then have "db' = db"
    using run by (auto simp: run_once_def anchor_batch_def noop_submit_def save_anchor_def Let_def
        split: if_splits sum.splits)
  with Cons x run show ?case by simp
qed


definition counting_submit :: "nat submit_root" where
  "counting_submit r n c = (Inr \<lparr>cr_tx = replicate c (CHR ''x''), cr_block = int c\<rparr>, Suc c)"

lemma counting_accepts: "accepting counting_submit (\<lambda>c. (\<lambda>k. replicate k (CHR ''x'')) ` {..<c})"
  by (auto simp: accepting_def counting_submit_def lessThan_Suc replicate_eq_replicate)


text \<open>The no-op client anchors one batch only. Every submission of \<open>NoOpChainClient\<close> returns the same
  transaction hash, and the hash is unique in the table: once one record holds it, every later
  cycle fails and no entry is ever anchored again.\<close>

theorem noop_client_anchors_once:
  assumes "\<exists>r \<in> set (ad_records db). ar_tx r = ''0x'' @ replicate 64 (CHR ''0'')"
  shows "fst (run_bundler_loop sha isof noop_submit fetch enabled b ds (db, c)) = db"
  by (simp add: run_bundler_loop_def noop_stuck [OF assms])

definition noop_record :: anchor_record where
  "noop_record = \<lparr>ar_id = 9, ar_root = '''', ar_tx = ''0x'' @ replicate 64 (CHR ''0''), ar_block = 0,
     ar_count = 1, ar_anchored_at = 0\<rparr>"

theorem noop_client_anchors_once_witness:
  "fst (run_bundler_loop pad_hash (\<lambda>_. ''t'') noop_submit fetch_by_id True 1 [(1, 0), (2, 0)]
     (two_entries\<lparr>ad_records := [noop_record]\<rparr>, ())) = two_entries\<lparr>ad_records := [noop_record]\<rparr>"
  by (rule noop_client_anchors_once) (simp add: noop_record_def)

end
