(* ===== verification/Rollup_Bundler.thy ===== *)
theory Rollup_Bundler
  imports Merkle Py_Strings
begin

text \<open>
  The stand-alone bundler of \<^verbatim>\<open>rollup_anchor/bundler.py\<close>: its own Merkle tree over hexadecimal
  digests, which promotes an unpaired last node to the next level, its proofs, the two statements
  on the \<open>ledger_entries\<close> table, and the main loop.

  SHA-256 is the parameter \<open>sha\<close>; sending the transaction \<open>anchorRoot\<close> and waiting for its receipt
  is the parameter \<open>send\<close>, which answers the transaction hash or an exception.
\<close>

section \<open>The tree\<close>

record rollup_tree =
  rt_leaves :: "string list"
  rt_tree :: "string list list"

definition rb_hash_leaf :: "(bytes \<Rightarrow> bytes) \<Rightarrow> string \<Rightarrow> string" where
  "rb_hash_leaf sha leaf = hex_of (sha (utf8 leaf))"

definition rb_hash_pair :: "(bytes \<Rightarrow> bytes) \<Rightarrow> string \<Rightarrow> string \<Rightarrow> string" where
  "rb_hash_pair sha left right = hex_of (sha (utf8 (left @ right)))"

fun rb_next_level :: "(bytes \<Rightarrow> bytes) \<Rightarrow> string list \<Rightarrow> string list" where
  "rb_next_level sha [] = []"
| "rb_next_level sha [x] = [x]"
| "rb_next_level sha (x # y # zs) = rb_hash_pair sha x y # rb_next_level sha zs"

lemma length_rb_next_level [simp]: "length (rb_next_level sha xs) = (length xs + 1) div 2"
  by (induction sha xs rule: rb_next_level.induct) auto

function rb_build_tree :: "(bytes \<Rightarrow> bytes) \<Rightarrow> string list \<Rightarrow> string list list" where
  "rb_build_tree sha level =
     (if 1 < length level then level # rb_build_tree sha (rb_next_level sha level) else [level])"
  by pat_completeness auto
termination
  by (relation "measure (\<lambda>(sha, level). length level)") auto

declare rb_build_tree.simps [simp del]

definition rb_new :: "(bytes \<Rightarrow> bytes) \<Rightarrow> string list \<Rightarrow> rollup_tree" where
  "rb_new sha leaves =
     (let hashed = map (rb_hash_leaf sha) leaves
      in \<lparr>rt_leaves = hashed, rt_tree = rb_build_tree sha hashed\<rparr>)"

definition rb_get_root :: "rollup_tree \<Rightarrow> string" where
  "rb_get_root t =
     (if rt_tree t = [] \<or> last (rt_tree t) = [] then '''' else hd (last (rt_tree t)))"

text \<open>A proof lists the siblings that exist, without their sides.\<close>

fun rb_siblings :: "string list list \<Rightarrow> nat \<Rightarrow> string list" where
  "rb_siblings [] i = []"
| "rb_siblings (level # levels) i =
     (let pair = (if i mod 2 = 1 then i - 1 else i + 1)
      in (if pair < length level then [level ! pair] else []) @ rb_siblings levels (i div 2))"

definition rb_get_proof :: "rollup_tree \<Rightarrow> int \<Rightarrow> string list" where
  "rb_get_proof t leaf_index =
     (if leaf_index < 0 \<or> int (length (rt_leaves t)) \<le> leaf_index then []
      else rb_siblings (butlast (rt_tree t)) (nat leaf_index))"

section \<open>The level interface holds for this tree\<close>

text \<open>The climb of one leaf: the step at a level where the leaf has a sibling hashes the pair in the
  order of the indices, an unpaired node keeps its value.\<close>

definition rb_sibling :: "string list \<Rightarrow> nat \<Rightarrow> nat \<times> string option" where
  "rb_sibling level i =
     (let pair = (if i mod 2 = 1 then i - 1 else i + 1)
      in (i, if pair < length level then Some (level ! pair) else None))"

fun rb_climb :: "(bytes \<Rightarrow> bytes) \<Rightarrow> string \<Rightarrow> nat \<times> string option \<Rightarrow> string" where
  "rb_climb sha x (i, None) = x"
| "rb_climb sha x (i, Some s) = (if i mod 2 = 1 then rb_hash_pair sha s x else rb_hash_pair sha x s)"

fun rb_path :: "string list list \<Rightarrow> nat \<Rightarrow> (nat \<times> string option) list" where
  "rb_path [] i = []"
| "rb_path (level # levels) i = rb_sibling level i # rb_path levels (i div 2)"

lemma rb_next_level_nth:
  "k < (length xs + 1) div 2 \<Longrightarrow>
   rb_next_level sha xs ! k =
     (if 2 * k + 1 < length xs then rb_hash_pair sha (xs ! (2 * k)) (xs ! (2 * k + 1)) else xs ! (2 * k))"
proof (induction sha xs arbitrary: k rule: rb_next_level.induct)
  case (3 sha x y zs)
  then show ?case by (cases k) (auto simp: nth_Cons')
qed auto

lemma rb_climb_sibling:
  "1 < length l \<Longrightarrow> i < length l \<Longrightarrow>
   rb_climb sha (l ! i) (rb_sibling l i) = rb_next_level sha l ! (i div 2)"
proof (cases "even i")
  case True
  assume "i < length l"
  moreover from True have "2 * (i div 2) = i" "i mod 2 = 0" by auto
  ultimately show ?thesis
    by (auto simp: rb_sibling_def rb_next_level_nth)
next
  case False
  assume l: "i < length l"
  from False have i: "2 * (i div 2) = i - 1" "i mod 2 = 1" "0 < i"
    by (auto elim: oddE)
  with l show ?thesis
    by (auto simp: rb_sibling_def rb_next_level_nth Let_def)
qed

interpretation rb: climbing_tree "rb_next_level sha" "rb_build_tree sha" rb_sibling "rb_climb sha" rb_path
  for sha
  by unfold_locales (simp_all add: rb_build_tree.simps rb_climb_sibling)

lemma rb_siblings_path: "rb_siblings levels i = List.map_filter snd (rb_path levels i)"
  by (induction levels arbitrary: i) (simp_all add: rb_sibling_def Let_def)

lemma rb_hash_pair_inj:
  assumes "rb_hash_pair sha l r = rb_hash_pair sha l' r'" and "length l = length l'"
    and "\<not> collision sha"
  shows "l = l' \<and> r = r'"
proof -
  have "utf8 (l @ r) = utf8 (l' @ r')"
    using assms(1) no_collisionD [OF assms(3)] by (simp add: rb_hash_pair_def)
  then have "l @ r = l' @ r'" by (rule utf8_inj)
  then show ?thesis using assms(2) by simp
qed

lemma rb_next_level_inj:
  assumes "\<not> collision sha"
  shows "length xs = length ys \<Longrightarrow> \<forall>x \<in> set xs \<union> set ys. length x = 64 \<Longrightarrow>
    rb_next_level sha xs = rb_next_level sha ys \<Longrightarrow> xs = ys"
proof (induction xs arbitrary: ys rule: induct_list012)
  case 1
  then show ?case by simp
next
  case (2 x)
  then show ?case by (cases ys) auto
next
  case (3 x x' zs)
  then obtain y y' ws where ys: "ys = y # y' # ws" by (cases ys; cases "tl ys") auto
  with 3 have "x = y \<and> x' = y'" by (intro rb_hash_pair_inj [OF _ _ assms]) auto
  moreover have "zs = ws" using 3 ys by (intro "3.IH") auto
  ultimately show ?case using ys by simp
qed

lemma rb_next_level_digests:
  "(\<And>x. length (sha x) = 32) \<Longrightarrow> \<forall>x \<in> set xs. length x = 64 \<Longrightarrow> x \<in> set (rb_next_level sha xs) \<Longrightarrow> length x = 64"
  by (induction sha xs rule: rb_next_level.induct) (auto simp: rb_hash_pair_def)

interpretation rb: binding_tree "rb_next_level sha" "rb_build_tree sha" "\<lambda>h. length h = 64"
    "\<not> collision sha \<and> (\<forall>x. length (sha x) = 32)"
  for sha
  by unfold_locales (use rb_next_level_digests rb_next_level_inj in blast)+

lemma rb_root_new: "leaves \<noteq> [] \<Longrightarrow>
   rb_get_root (rb_new sha leaves) = hd (last (rb_build_tree sha (map (rb_hash_leaf sha) leaves)))"
  using rb.build_nonempty rb.length_last_build [of "map (rb_hash_leaf sha) leaves" sha]
  by (auto simp: rb_get_root_def rb_new_def Let_def)

lemma rb_hash_leaf_inj: "rb_hash_leaf sha s = rb_hash_leaf sha t \<Longrightarrow> \<not> collision sha \<Longrightarrow> s = t"
  by (simp add: rb_hash_leaf_def) (blast dest: no_collisionD utf8_inj)

section \<open>The table and the chain\<close>

record rollup_entry =
  re_id :: int
  re_sha256 :: string
  re_anchored :: bool
  re_anchor_tx :: "string option"

definition get_unanchored_entries :: "nat \<Rightarrow> rollup_entry list \<Rightarrow> rollup_entry list" where
  "get_unanchored_entries batch_size rows =
     take batch_size (sort_key re_id (filter (\<lambda>r. \<not> re_anchored r) rows))"

definition update_anchored_entries :: "int list \<Rightarrow> string \<Rightarrow> rollup_entry list \<Rightarrow> rollup_entry list" where
  "update_anchored_entries entry_ids tx_hash rows =
     update_where (\<lambda>r. re_id r \<in> set entry_ids)
       (\<lambda>r. r\<lparr>re_anchored := True, re_anchor_tx := Some tx_hash\<rparr>) rows"

text \<open>\<open>anchor_to_blockchain\<close>: the root is decoded to bytes and sent.\<close>

type_synonym 'c send_root = "bytes \<Rightarrow> nat \<Rightarrow> 'c \<Rightarrow> (py_exc + string) \<times> 'c"

definition anchor_to_blockchain :: "'c send_root \<Rightarrow> string \<Rightarrow> nat \<Rightarrow> 'c \<Rightarrow> (py_exc + string) \<times> 'c" where
  "anchor_to_blockchain send merkle_root entry_count c =
     (case from_hex merkle_root of
        None \<Rightarrow> (Inl (ValueError ''Non-hexadecimal digit found''), c)
      | Some bs \<Rightarrow> send bs entry_count c)"

text \<open>One turn of \<open>main\<close>: the new state and the seconds slept. \<open>db_ok\<close> tells whether the UPDATE
  goes through; an exception of the chain or of the UPDATE is printed and the loop goes on.\<close>

definition bundle_once ::
  "(bytes \<Rightarrow> bytes) \<Rightarrow> 'c send_root \<Rightarrow> nat \<Rightarrow> bool \<Rightarrow> rollup_entry list \<times> 'c \<Rightarrow>
   int \<times> rollup_entry list \<times> 'c" where
  "bundle_once sha send batch_size db_ok s =
     (let entries = get_unanchored_entries batch_size (fst s)
      in if entries = [] then (60, s)
         else case anchor_to_blockchain send (rb_get_root (rb_new sha (map re_sha256 entries)))
                     (length entries) (snd s) of
                (Inl x, c) \<Rightarrow> (300, fst s, c)
              | (Inr tx, c) \<Rightarrow>
                  (300, (if db_ok then update_anchored_entries (map re_id entries) tx (fst s) else fst s), c))"

fun bundle_run ::
  "(bytes \<Rightarrow> bytes) \<Rightarrow> 'c send_root \<Rightarrow> nat \<Rightarrow> bool list \<Rightarrow> rollup_entry list \<times> 'c \<Rightarrow> rollup_entry list \<times> 'c" where
  "bundle_run sha send batch_size [] s = s"
| "bundle_run sha send batch_size (db_ok # oks) s =
     bundle_run sha send batch_size oks (snd (bundle_once sha send batch_size db_ok s))"

section \<open>Facts of one cycle\<close>

lemma rb_next_level_hex: "set (rb_next_level sha xs) \<subseteq> set xs \<union> range hex_of"
  by (induction sha xs rule: rb_next_level.induct) (auto simp: rb_hash_pair_def)

lemma rb_root_hex:
  "xs \<noteq> [] \<Longrightarrow> set xs \<subseteq> range hex_of \<Longrightarrow> hd (last (rb_build_tree sha xs)) \<in> range hex_of"
proof (induction xs rule: rb.level_induct [where sha = sha])
  case (small xs)
  then show ?case by (cases xs) (simp_all add: rb.build_stop)
next
  case (big xs)
  then show ?case using rb_next_level_hex [of sha xs] by (simp add: rb.last_build_up rb.up_nonempty) blast
qed

lemma rb_root_is_hex: "leaves \<noteq> [] \<Longrightarrow> \<exists>bs. rb_get_root (rb_new sha leaves) = hex_of bs"
proof -
  assume l: "leaves \<noteq> []"
  have "set (map (rb_hash_leaf sha) leaves) \<subseteq> range hex_of" by (auto simp: rb_hash_leaf_def)
  with l rb_root_hex [of "map (rb_hash_leaf sha) leaves" sha] show ?thesis by (auto simp: rb_root_new)
qed

lemma anchor_sends:
  "leaves \<noteq> [] \<Longrightarrow>
   anchor_to_blockchain send (rb_get_root (rb_new sha leaves)) n c =
     send (the (from_hex (rb_get_root (rb_new sha leaves)))) n c"
  using rb_root_is_hex [of leaves sha] by (auto simp: anchor_to_blockchain_def)

text \<open>The part of the table that waits, and what an UPDATE of a batch leaves of it.\<close>

definition waiting :: "rollup_entry list \<Rightarrow> rollup_entry list" where
  "waiting rows = filter (\<lambda>r. \<not> re_anchored r) rows"

lemma set_get_unanchored: "set (get_unanchored_entries b rows) \<subseteq> set (waiting rows)"
  by (auto simp: get_unanchored_entries_def waiting_def dest: in_set_takeD)

lemma length_get_unanchored: "length (get_unanchored_entries b rows) = min b (length (waiting rows))"
  by (simp add: get_unanchored_entries_def waiting_def min.commute)

lemma waiting_after_update:
  "waiting (update_anchored_entries ids tx rows) = filter (\<lambda>r. re_id r \<notin> set ids) (waiting rows)"
  by (induction rows) (simp_all add: waiting_def update_anchored_entries_def update_where_def)

lemma length_filter_ids:
  assumes "distinct (map re_id rows)" and "set xs \<subseteq> set rows" and "distinct xs"
  shows "length (filter (\<lambda>r. re_id r \<notin> re_id ` set xs) rows) = length rows - length xs"
proof -
  have "filter (\<lambda>r. re_id r \<in> re_id ` set xs) rows = filter (\<lambda>r. r \<in> set xs) rows"
    using assms(1,2) by (intro filter_cong) (auto simp: distinct_map inj_on_def)
  moreover have "length (filter (\<lambda>r. r \<in> set xs) rows) = length xs"
  proof -
    have "distinct rows" using assms(1) by (simp add: distinct_map)
    then have "length (filter (\<lambda>r. r \<in> set xs) rows) = card (set rows \<inter> set xs)"
      by (simp flip: distinct_card) (simp add: Int_def conj_commute)
    then show ?thesis using assms(2,3) by (simp add: Int_absorb1 distinct_card)
  qed
  ultimately show ?thesis
    using sum_length_filter_compl [of "\<lambda>r. re_id r \<in> re_id ` set xs" rows] by simp
qed

section \<open>Properties\<close>

text \<open>Whoever knows the number of leaves and the index recomputes the root from a proof: the sides,
  which the proof does not carry, follow from the index, and the levels without a sibling from the
  size. The code has no such routine; this one is the reference for what a proof is good for.\<close>

function rb_recompute :: "(bytes \<Rightarrow> bytes) \<Rightarrow> nat \<Rightarrow> nat \<Rightarrow> string \<Rightarrow> string list \<Rightarrow> string option" where
  "rb_recompute sha n i x ps =
     (if n \<le> 1 then (if ps = [] then Some x else None)
      else if i mod 2 = 0 \<and> i + 1 \<ge> n then rb_recompute sha ((n + 1) div 2) (i div 2) x ps
      else (case ps of
              [] \<Rightarrow> None
            | p # ps' \<Rightarrow> rb_recompute sha ((n + 1) div 2) (i div 2)
                (if i mod 2 = 1 then rb_hash_pair sha p x else rb_hash_pair sha x p) ps'))"
  by pat_completeness auto
termination
  by (relation "measure (\<lambda>(sha, n, i, x, ps). n)") auto

declare rb_recompute.simps [simp del]

lemma recompute_root:
  "i < length xs \<Longrightarrow>
   rb_recompute sha (length xs) i (xs ! i) (rb_siblings (butlast (rb_build_tree sha xs)) i) =
     Some (hd (last (rb_build_tree sha xs)))"
proof (induction xs arbitrary: i rule: rb.level_induct [where sha = sha])
  case (small xs)
  then show ?case by (cases xs) (simp_all add: rb.build_stop rb_recompute.simps)
next
  case (big xs)
  let ?up = "rb_next_level sha xs"
  have i: "i div 2 < length ?up" using big.prems by simp
  have split: "rb_build_tree sha xs = xs # rb_build_tree sha ?up" "butlast (rb_build_tree sha xs) = xs # butlast (rb_build_tree sha ?up)"
    "hd (last (rb_build_tree sha xs)) = hd (last (rb_build_tree sha ?up))"
    using big.hyps by (simp_all add: rb.build_step rb.build_nonempty)
  have nxt: "?up ! (i div 2) = rb_climb sha (xs ! i) (rb_sibling xs i)"
    using rb_climb_sibling [OF big.hyps big.prems] by simp
  note IH = big.IH [OF i, unfolded nxt length_rb_next_level]
  show ?case
  proof (cases "even i")
    case True
    then have e: "i mod 2 = 0" by simp
    show ?thesis
      using IH big.hyps e unfolding split(2,3) rb_recompute.simps [of sha "length xs"] rb_siblings.simps
      by (cases "i + 1 < length xs") (simp_all add: rb_sibling_def Let_def)
  next
    case False
    then have o: "i mod 2 = 1" "i - 1 < length xs" using big.prems by presburger+
    show ?thesis
      using IH big.hyps o unfolding split(2,3) rb_recompute.simps [of sha "length xs"] rb_siblings.simps
      by (simp add: rb_sibling_def Let_def)
  qed
qed

text \<open>A proof of the stand-alone bundler carries no sides, yet for every index of a batch of any
  size it suffices: recomputing from the leaf's hash, the index and the number of leaves gives
  exactly the root.\<close>

theorem rollup_proof_recomputes:
  assumes "0 \<le> i" and "i < int (length leaves)"
  shows "rb_recompute sha (length leaves) (nat i) (rb_hash_leaf sha (leaves ! nat i))
      (rb_get_proof (rb_new sha leaves) i) = Some (rb_get_root (rb_new sha leaves))"
proof -
  have "nat i < length (map (rb_hash_leaf sha) leaves)" and ne: "leaves \<noteq> []" using assms by auto
  from recompute_root [OF this(1), of sha] this(1) show ?thesis
    using assms(1) rb_root_new [OF ne, of sha]
    by (simp add: rb_get_proof_def rb_new_def Let_def nat_less_iff)
qed

theorem rollup_proof_recomputes_witness:
  "rb_recompute pad_hash 3 2 (rb_hash_leaf pad_hash ''c'') (rb_get_proof (rb_new pad_hash [''a'', ''b'', ''c'']) 2) =
     Some (rb_get_root (rb_new pad_hash [''a'', ''b'', ''c'']))"
  using rollup_proof_recomputes [of 2 "[''a'', ''b'', ''c'']" pad_hash] by (simp add: numeral_3_eq_3)

text \<open>Two batches of the same size with the same root of the stand-alone bundler are equal, or
  SHA-256 has a collision, although an unpaired last node is promoted unhashed.\<close>

theorem rollup_root_binds_batch:
  assumes "\<And>x. length (sha x) = 32" and "xs \<noteq> []" and "length xs = length ys"
    and "rb_get_root (rb_new sha xs) = rb_get_root (rb_new sha ys)"
  shows "xs = ys \<or> collision sha"
proof (rule ccontr)
  assume n: "\<not> (xs = ys \<or> collision sha)"
  have ys: "ys \<noteq> []" using assms(2,3) by auto
  have digests: "length (rb_hash_leaf sha x) = 64" for x by (simp add: rb_hash_leaf_def assms(1))
  have "map (rb_hash_leaf sha) xs = map (rb_hash_leaf sha) ys"
  proof (rule rb.root_inj [of sha])
    show "\<not> collision sha \<and> (\<forall>x. length (sha x) = 32)" using n assms(1) by blast
    show "length (map (rb_hash_leaf sha) xs) = length (map (rb_hash_leaf sha) ys)" using assms(3) by simp
    show "\<forall>x \<in> set (map (rb_hash_leaf sha) xs) \<union> set (map (rb_hash_leaf sha) ys). length x = 64"
      using digests by auto
    show "hd (last (rb_build_tree sha (map (rb_hash_leaf sha) xs))) = hd (last (rb_build_tree sha (map (rb_hash_leaf sha) ys)))"
      using assms(4) unfolding rb_root_new [OF assms(2)] rb_root_new [OF ys] .
  qed
  then have "xs = ys"
    by (rule map_inj_on) (use n in \<open>auto intro!: inj_onI dest: rb_hash_leaf_inj\<close>)
  with n show False by simp
qed

text \<open>Leaves and inner nodes are hashed alike, so a root does not determine the number of leaves:
  for every batch of at least two leaves, the batch of the concatenated hashes of its pairs (an
  unpaired last leaf as it is), half as long, has the same root.\<close>

fun pair_up :: "(bytes \<Rightarrow> bytes) \<Rightarrow> string list \<Rightarrow> string list" where
  "pair_up sha (x # y # zs) = (rb_hash_leaf sha x @ rb_hash_leaf sha y) # pair_up sha zs"
| "pair_up sha xs = xs"

lemma length_pair_up [simp]: "length (pair_up sha xs) = (length xs + 1) div 2"
  by (induction sha xs rule: pair_up.induct) auto

lemma pair_up_level: "map (rb_hash_leaf sha) (pair_up sha xs) = rb_next_level sha (map (rb_hash_leaf sha) xs)"
  by (induction sha xs rule: pair_up.induct) (simp_all add: rb_hash_leaf_def rb_hash_pair_def)

theorem rollup_no_domain_separation:
  assumes "2 \<le> length xs"
  shows "length (pair_up sha xs) < length xs \<and>
    rb_get_root (rb_new sha (pair_up sha xs)) = rb_get_root (rb_new sha xs)"
proof -
  have l: "length (pair_up sha xs) < length xs" using assms by simp
  moreover have "pair_up sha xs \<noteq> []" "xs \<noteq> []" using assms by (auto simp flip: length_greater_0_conv)
  moreover have "last (rb_build_tree sha (map (rb_hash_leaf sha) xs)) =
      last (rb_build_tree sha (rb_next_level sha (map (rb_hash_leaf sha) xs)))"
    using assms by (intro rb.last_build_up) simp
  ultimately have "rb_get_root (rb_new sha (pair_up sha xs)) = rb_get_root (rb_new sha xs)"
    by (simp only: rb_root_new pair_up_level not_False_eq_True)
  with l show ?thesis by blast
qed

theorem rollup_no_domain_separation_witness:
  "length (pair_up pad_hash [''a'', ''b'', ''c'']) = 2 \<and>
   rb_get_root (rb_new pad_hash (pair_up pad_hash [''a'', ''b'', ''c''])) =
     rb_get_root (rb_new pad_hash [''a'', ''b'', ''c''])"
  using rollup_no_domain_separation [of "[''a'', ''b'', ''c'']" pad_hash] by simp

theorem rollup_root_binds_batch_witness:
  "[''a'', ''b'', ''c''] = [''a'', ''b'', ''c''] \<or> collision pad_hash"
  using rollup_root_binds_batch [of pad_hash "[''a'', ''b'', ''c'']" "[''a'', ''b'', ''c'']"]
  by (simp add: length_pad_hash)

section \<open>Cycles\<close>

definition always_accepts :: "'c send_root \<Rightarrow> bool" where
  "always_accepts send \<longleftrightarrow> (\<forall>r n c. \<exists>tx c'. send r n c = (Inr tx, c'))"

lemma bundle_once_rows:
  assumes "always_accepts send"
  obtains tx c' where "snd (bundle_once sha send b ok (rows, c)) =
    (if ok then update_anchored_entries (map re_id (get_unanchored_entries b rows)) tx rows else rows, c')"
proof (cases "get_unanchored_entries b rows = []")
  case True
  then have "update_anchored_entries (map re_id (get_unanchored_entries b rows)) tx rows = rows" for tx
    by (simp add: update_anchored_entries_def update_where_def)
  with True that show ?thesis by (simp add: bundle_once_def)
next
  case False
  then have "map re_sha256 (get_unanchored_entries b rows) \<noteq> []" by simp
  note s = anchor_sends [OF this, of send sha]
  obtain tx c' where "anchor_to_blockchain send
      (rb_get_root (rb_new sha (map re_sha256 (get_unanchored_entries b rows))))
      (length (get_unanchored_entries b rows)) c = (Inr tx, c')"
    using assms unfolding s always_accepts_def by blast
  with False that [of tx c'] show ?thesis by (simp add: bundle_once_def Let_def)
qed

lemma waiting_after_batch:
  assumes "distinct (map re_id rows)"
  shows "length (waiting (update_anchored_entries (map re_id (get_unanchored_entries b rows)) tx rows)) =
    length (waiting rows) - b"
proof -
  have d: "distinct (map re_id (waiting rows))"
    using assms by (simp add: waiting_def distinct_map_filter)
  then have "distinct (get_unanchored_entries b rows)"
    by (auto simp: get_unanchored_entries_def waiting_def distinct_map)
  from length_filter_ids [OF d set_get_unanchored this] show ?thesis
    by (simp add: waiting_after_update length_get_unanchored)
qed

lemma update_anchored_keys [simp]: "map re_id (update_anchored_entries ids tx rows) = map re_id rows"
  by (simp add: update_anchored_entries_def update_where_keys)

text \<open>On a chain that accepts every root, each cycle whose UPDATE goes through takes one batch off
  the backlog and a cycle whose UPDATE fails takes nothing: after any run exactly the backlog minus
  the batch size times the number of successful cycles still waits (nothing, if that is not
  positive).\<close>

theorem rollup_backlog:
  assumes "always_accepts send" and "distinct (map re_id rows)"
  shows "length (waiting (fst (bundle_run sha send b oks (rows, c)))) =
    length (waiting rows) - b * length (filter (\<lambda>ok. ok) oks)"
  using assms(2)
proof (induction oks arbitrary: rows c)
  case Nil
  then show ?case by simp
next
  case (Cons ok oks)
  obtain tx c' where s: "snd (bundle_once sha send b ok (rows, c)) =
      (if ok then update_anchored_entries (map re_id (get_unanchored_entries b rows)) tx rows else rows, c')"
    by (rule bundle_once_rows [OF assms(1)])
  show ?case
    using Cons.IH [of "update_anchored_entries (map re_id (get_unanchored_entries b rows)) tx rows" c']
      Cons.IH [of rows c'] Cons.prems waiting_after_batch [OF Cons.prems, of b tx]
    unfolding bundle_run.simps s by (cases ok) (simp_all add: diff_diff_eq)
qed

definition logging_send :: "(bytes \<times> nat) list send_root" where
  "logging_send r n c = (Inr (show_nat (length c)), c @ [(r, n)])"

definition two_rows :: "rollup_entry list" where
  "two_rows = [\<lparr>re_id = 2, re_sha256 = ''b'', re_anchored = False, re_anchor_tx = None\<rparr>,
     \<lparr>re_id = 1, re_sha256 = ''a'', re_anchored = False, re_anchor_tx = None\<rparr>]"

theorem rollup_backlog_witness:
  "length (waiting (fst (bundle_run pad_hash logging_send 1 [True, False] (two_rows, [])))) = 1"
proof -
  have "always_accepts logging_send" by (simp add: always_accepts_def logging_send_def)
  moreover have "distinct (map re_id two_rows)" "length (waiting two_rows) = 2"
    by (simp_all add: two_rows_def waiting_def)
  ultimately show ?thesis
    using rollup_backlog [of logging_send two_rows pad_hash 1 "[True, False]" "[]"] by simp
qed

text \<open>Anchoring is at least once. When the transaction went through and the UPDATE failed, the next
  cycle sends the same root for the same entries again, and only the second transaction is recorded.\<close>

theorem rollup_update_failure_reanchors:
  assumes "get_unanchored_entries b rows \<noteq> []"
  shows "\<exists>r. bundle_run sha logging_send b [False, True] (rows, sent) =
    (update_anchored_entries (map re_id (get_unanchored_entries b rows)) (show_nat (Suc (length sent))) rows,
     sent @ [r, r])"
proof -
  define es where "es = get_unanchored_entries b rows"
  have ne: "es \<noteq> []" using assms by (simp add: es_def)
  then have m: "map re_sha256 es \<noteq> []" by simp
  have "bundle_once sha logging_send b ok (rows, l) =
      (300, if ok then update_anchored_entries (map re_id es) (show_nat (length l)) rows else rows,
       l @ [(the (from_hex (rb_get_root (rb_new sha (map re_sha256 es)))), length es)])" for ok l
    using ne anchor_sends [OF m, of logging_send sha]
    by (simp add: bundle_once_def logging_send_def flip: es_def)
  then show ?thesis by (simp add: es_def)
qed

theorem rollup_update_failure_reanchors_witness:
  "\<exists>r. snd (bundle_run pad_hash logging_send 2 [False, True] (two_rows, [])) = [r, r]"
proof -
  have "get_unanchored_entries 2 two_rows \<noteq> []"
    by (simp add: get_unanchored_entries_def two_rows_def)
  from rollup_update_failure_reanchors [OF this, of pad_hash "[]"] show ?thesis by auto
qed

end
