(* ===== verification/Storage.thy ===== *)
theory Storage
  imports Py_Strings "HOL-Library.Sublist"
begin

text \<open>
  Object storage (\<^verbatim>\<open>core/storage/service.py\<close>): the checks on storage keys, the construction of
  user-scoped keys, and the operations on the object store.

  The S3 client is the parameter \<open>s3\<close>, a record of its five calls on a store of type \<open>'s\<close>; a call
  answers a value or a \<open>ClientError\<close> with its code and its text. \<open>store_ok\<close> states the documented
  behaviour of a bucket: a stored object is read back, other keys are untouched, a missing key is
  answered with the code \<open>404\<close>.
\<close>

section \<open>Keys\<close>

datatype storage_exc =
    StorageKeyError string
  | StorageUploadError string
  | StorageDownloadError string
  | StorageDeleteError string
  | StorageError string
  | StorageValueError string

definition nul :: char where
  "nul = CHR 0x00"

definition validate_key :: "string \<Rightarrow> storage_exc + unit" where
  "validate_key key =
     (if key = [] \<or> py_strip key = [] then Inl (StorageKeyError ''Storage key must not be empty'')
      else if starts_with ''/'' key then Inl (StorageKeyError (''Storage key must not start with '' @ [CHR 39] @ ''/'' @ [CHR 39]))
      else if has_sub ''..'' key
        then Inl (StorageKeyError (''Storage key must not contain '' @ [CHR 39] @ ''..'' @ [CHR 39] @ '' path traversal sequences''))
      else if nul \<in> set key then Inl (StorageKeyError ''Storage key must not contain null bytes'')
      else Inr ())"

fun check_parts :: "(string \<times> string) list \<Rightarrow> storage_exc + unit" where
  "check_parts [] = Inr ()"
| "check_parts ((name, v) # ps) =
     (if v = [] then Inl (StorageKeyError (name @ '' must not be empty''))
      else if has_sub ''/'' v \<or> has_sub ''..'' v \<or> nul \<in> set v
        then Inl (StorageKeyError (name @ '' contains invalid characters''))
      else check_parts ps)"

definition build_key :: "string \<Rightarrow> string \<Rightarrow> string \<Rightarrow> storage_exc + string" where
  "build_key user_id job_id filename =
     (case check_parts [(''user_id'', user_id), (''job_id'', job_id), (''filename'', filename)] of
        Inl x \<Rightarrow> Inl x
      | Inr _ \<Rightarrow> Inr (user_id @ ''/'' @ job_id @ ''/'' @ filename))"

section \<open>The object store\<close>

type_synonym client_error = "string \<times> string"

record 's s3_client =
  put_object :: "string \<Rightarrow> bytes \<Rightarrow> string \<Rightarrow> 's \<Rightarrow> (client_error + unit) \<times> 's"
  get_object :: "string \<Rightarrow> 's \<Rightarrow> client_error + bytes"
  presigned_url :: "string \<Rightarrow> int \<Rightarrow> 's \<Rightarrow> client_error + string"
  delete_object :: "string \<Rightarrow> 's \<Rightarrow> (client_error + unit) \<times> 's"
  head_object :: "string \<Rightarrow> 's \<Rightarrow> client_error + unit"

abbreviation quoted :: "string \<Rightarrow> string" where
  "quoted s \<equiv> [CHR 39] @ s @ [CHR 39]"

definition upload_file :: "'s s3_client \<Rightarrow> string \<Rightarrow> bytes \<Rightarrow> string \<Rightarrow> 's \<Rightarrow> (storage_exc + string) \<times> 's" where
  "upload_file s3 key data content_type s =
     (case validate_key key of
        Inl x \<Rightarrow> (Inl x, s)
      | Inr _ \<Rightarrow>
          (case put_object s3 key data content_type s of
             (Inl (code, txt), s') \<Rightarrow> (Inl (StorageUploadError (''Failed to upload '' @ quoted key @ '': '' @ txt)), s')
           | (Inr _, s') \<Rightarrow> (Inr key, s')))"

definition download_file :: "'s s3_client \<Rightarrow> string \<Rightarrow> 's \<Rightarrow> storage_exc + bytes" where
  "download_file s3 key s =
     (case validate_key key of
        Inl x \<Rightarrow> Inl x
      | Inr _ \<Rightarrow>
          (case get_object s3 key s of
             Inl (code, txt) \<Rightarrow> Inl (StorageDownloadError (''Failed to download '' @ quoted key @ '': '' @ txt))
           | Inr data \<Rightarrow> Inr data))"

definition generate_presigned_url :: "'s s3_client \<Rightarrow> string \<Rightarrow> int \<Rightarrow> 's \<Rightarrow> storage_exc + string" where
  "generate_presigned_url s3 key expires_in s =
     (case validate_key key of
        Inl x \<Rightarrow> Inl x
      | Inr _ \<Rightarrow>
          if expires_in \<le> 0 then Inl (StorageValueError ''expires_in must be a positive integer'')
          else if 86400 < expires_in
            then Inl (StorageValueError (''expires_in must not exceed '' @ show_int 86400 @ '' seconds (24 hours)''))
          else (case presigned_url s3 key expires_in s of
                  Inl (code, txt) \<Rightarrow> Inl (StorageError (''Failed to generate presigned URL for '' @ quoted key @ '': '' @ txt))
                | Inr url \<Rightarrow> Inr url))"

definition delete_file :: "'s s3_client \<Rightarrow> string \<Rightarrow> 's \<Rightarrow> (storage_exc + unit) \<times> 's" where
  "delete_file s3 key s =
     (case validate_key key of
        Inl x \<Rightarrow> (Inl x, s)
      | Inr _ \<Rightarrow>
          (case delete_object s3 key s of
             (Inl (code, txt), s') \<Rightarrow> (Inl (StorageDeleteError (''Failed to delete '' @ quoted key @ '': '' @ txt)), s')
           | (Inr _, s') \<Rightarrow> (Inr (), s')))"

definition file_exists :: "'s s3_client \<Rightarrow> string \<Rightarrow> 's \<Rightarrow> storage_exc + bool" where
  "file_exists s3 key s =
     (case validate_key key of
        Inl x \<Rightarrow> Inl x
      | Inr _ \<Rightarrow>
          (case head_object s3 key s of
             Inr _ \<Rightarrow> Inr True
           | Inl (code, txt) \<Rightarrow>
               if code = ''404'' \<or> code = ''NoSuchKey'' then Inr False
               else Inl (StorageError (''Failed to check existence of '' @ quoted key @ '': '' @ txt))))"

definition store_ok :: "'s s3_client \<Rightarrow> bool" where
  "store_ok s3 \<longleftrightarrow>
     (\<forall>k d ct s s' u. put_object s3 k d ct s = (Inr u, s') \<longrightarrow>
        get_object s3 k s' = Inr d \<and> head_object s3 k s' = Inr () \<and>
        (\<forall>j. j \<noteq> k \<longrightarrow> get_object s3 j s' = get_object s3 j s \<and> head_object s3 j s' = head_object s3 j s)) \<and>
     (\<forall>k s s' u. delete_object s3 k s = (Inr u, s') \<longrightarrow>
        (\<exists>txt. head_object s3 k s' = Inl (''404'', txt)) \<and>
        (\<forall>j. j \<noteq> k \<longrightarrow> get_object s3 j s' = get_object s3 j s \<and> head_object s3 j s' = head_object s3 j s))"

section \<open>Properties\<close>

lemma check_parts_Inr:
  "check_parts ps = Inr () \<longleftrightarrow>
   (\<forall>(n, v) \<in> set ps. v \<noteq> [] \<and> CHR ''/'' \<notin> set v \<and> \<not> has_sub ''..'' v \<and> nul \<notin> set v)"
  by (induction ps rule: check_parts.induct) auto

lemma build_key_Inr:
  "build_key u j f = Inr k \<longleftrightarrow> k = join_with CHR ''/'' [u, j, f] \<and>
   (\<forall>v \<in> {u, j, f}. v \<noteq> [] \<and> CHR ''/'' \<notin> set v \<and> \<not> has_sub ''..'' v \<and> nul \<notin> set v)"
proof (cases "check_parts [(''user_id'', u), (''job_id'', j), (''filename'', f)]")
  case (Inl x)
  then have "check_parts [(''user_id'', u), (''job_id'', j), (''filename'', f)] \<noteq> Inr ()" by simp
  with Inl show ?thesis unfolding build_key_def check_parts_Inr by auto
next
  case (Inr x)
  then have "check_parts [(''user_id'', u), (''job_id'', j), (''filename'', f)] = Inr ()" by simp
  with Inr show ?thesis unfolding build_key_def check_parts_Inr by auto
qed

lemma validate_key_scoped:
  assumes "u \<noteq> []" "CHR ''/'' \<notin> set u" "\<not> has_sub ''..'' u" "nul \<notin> set u"
    and "\<not> has_sub ''..'' v" "nul \<notin> set v"
  shows "validate_key (u @ CHR ''/'' # v) = Inr ()"
proof -
  have "\<not> py_space CHR ''/''" by (simp add: py_space_def)
  then have "py_strip (u @ CHR ''/'' # v) \<noteq> []" by (auto simp: py_strip_empty_iff)
  moreover have "\<not> starts_with ''/'' (u @ CHR ''/'' # v)"
    using assms(1,2) by (cases u) (auto simp: starts_with_def)
  moreover have "\<not> has_sub ''..'' (u @ CHR ''/'' # v)"
    using assms(3,5) by (subst has_sub_sep) auto
  moreover have "nul \<notin> set (u @ CHR ''/'' # v)" using assms(4,6) by (auto simp: nul_def)
  ultimately show ?thesis by (simp only: validate_key_def) simp
qed

lemma built_keys:
  assumes "build_key u j f = Inr k" and "build_key u' j' f' = Inr k"
  shows "validate_key k = Inr () \<and> u = u' \<and> j = j' \<and> f = f'"
proof -
  have p: "\<forall>v \<in> {u, j, f}. v \<noteq> [] \<and> CHR ''/'' \<notin> set v \<and> \<not> has_sub ''..'' v \<and> nul \<notin> set v"
    and k: "k = join_with CHR ''/'' [u, j, f]"
    using assms(1) by (auto simp: build_key_Inr)
  have p': "\<forall>v \<in> {u', j', f'}. v \<noteq> [] \<and> CHR ''/'' \<notin> set v \<and> \<not> has_sub ''..'' v \<and> nul \<notin> set v"
    and k': "k = join_with CHR ''/'' [u', j', f']"
    using assms(2) by (auto simp: build_key_Inr)
  have "[u, j, f] = split_on CHR ''/'' k" using p unfolding k by (subst split_join) auto
  also have "\<dots> = [u', j', f']" using p' unfolding k' by (subst split_join) auto
  finally have "u = u' \<and> j = j' \<and> f = f'" by simp
  moreover have "\<not> has_sub ''..'' (j @ CHR ''/'' # f)" using p by (subst has_sub_sep) auto
  then have "validate_key (u @ CHR ''/'' # (j @ CHR ''/'' # f)) = Inr ()"
    using p by (intro validate_key_scoped) (auto simp: nul_def)
  ultimately show ?thesis using k by simp
qed

text \<open>Storage keys are scoped. A key that \<open>build_key\<close> returns passes \<open>validate_key\<close>, so every
  operation accepts it, and it determines its user, job and file name: keys of different users
  never meet.\<close>

theorem storage_keys_scoped:
  assumes "build_key u j f = Inr k" and "build_key u' j' f' = Inr k"
  shows "validate_key k = Inr () \<and> u = u' \<and> j = j' \<and> f = f'"
  using assms by (rule built_keys)

theorem storage_keys_scoped_witness:
  "\<exists>k. build_key ''u1'' ''job'' ''result'' = Inr k \<and> validate_key k = Inr () \<and> k = ''u1/job/result''"
proof -
  have b: "build_key ''u1'' ''job'' ''result'' = Inr ''u1/job/result''"
    by (simp add: build_key_def starts_with_def nul_def)
  from storage_keys_scoped [OF b b] b show ?thesis by blast
qed

end
