(* ===== verification/Encryption.thy ===== *)
theory Encryption
  imports Storage Merkle
begin

text \<open>
  Encryption at rest (\<^verbatim>\<open>core/storage/encryption.py\<close>): the master key read from its hexadecimal
  text, per-user keys, the wire format \<open>IV ++ tag ++ ciphertext\<close>, and re-encryption under a new
  master key.

  HKDF-SHA256 with the fixed context is the parameter \<open>hkdf\<close> (salt and master key to key);
  AES-256-GCM is the pair of parameters \<open>seal\<close> (which answers ciphertext followed by tag) and
  \<open>unseal\<close> (\<open>None\<close>: \<open>InvalidTag\<close>). \<open>gcm_ok\<close> states their documented behaviour. The random IV of a
  call is an argument.
\<close>

section \<open>The master key\<close>

text \<open>\<open>bytes.fromhex\<close>: pairs of digits, with ASCII blanks skipped before each pair.\<close>

definition hex_blank :: "char \<Rightarrow> bool" where
  "hex_blank c \<longleftrightarrow> of_char c \<in> ({9, 10, 11, 12, 13, 32} :: nat set)"

function py_fromhex :: "string \<Rightarrow> bytes option" where
  "py_fromhex s =
     (case dropWhile hex_blank s of
        [] \<Rightarrow> Some []
      | [c] \<Rightarrow> None
      | c # d # cs \<Rightarrow>
          (case (digit_value c, digit_value d, py_fromhex cs) of
             (Some x, Some y, Some bs) \<Rightarrow> Some (of_nat (x * 16 + y) # bs)
           | _ \<Rightarrow> None))"
  by pat_completeness auto
termination
proof (relation "measure length")
  fix s c l d cs
  assume e: "dropWhile hex_blank s = c # l" "l = d # cs"
  have "length (dropWhile hex_blank s) \<le> length s" by (rule length_dropWhile_le)
  with e show "(cs, s) \<in> measure length" by simp
qed simp

declare py_fromhex.simps [simp del]

definition enc_service :: "string \<Rightarrow> py_exc + bytes" where
  "enc_service master_key =
     (case py_fromhex master_key of
        None \<Rightarrow> Inl (ValueError ''master_key must be a valid hex string'')
      | Some raw \<Rightarrow>
          if length raw \<noteq> 32 then Inl (ValueError ''master_key must be 32 bytes (64 hex chars)'')
          else Inr raw)"

section \<open>Encryption and decryption\<close>

type_synonym hkdf = "bytes \<Rightarrow> bytes \<Rightarrow> bytes"
type_synonym seal = "bytes \<Rightarrow> bytes \<Rightarrow> bytes \<Rightarrow> bytes"
type_synonym unseal = "bytes \<Rightarrow> bytes \<Rightarrow> bytes \<Rightarrow> bytes option"

definition derive_user_key :: "hkdf \<Rightarrow> bytes \<Rightarrow> string \<Rightarrow> bytes" where
  "derive_user_key hkdf master user_id = hkdf (utf8 user_id) master"

definition encrypt :: "hkdf \<Rightarrow> seal \<Rightarrow> bytes \<Rightarrow> bytes \<Rightarrow> bytes \<Rightarrow> string \<Rightarrow> bytes" where
  "encrypt hkdf seal iv master data user_id =
     (let ct = seal (derive_user_key hkdf master user_id) iv data;
          ciphertext = take (length ct - 16) ct;
          tag = drop (length ct - 16) ct
      in iv @ tag @ ciphertext)"

definition decrypt :: "hkdf \<Rightarrow> unseal \<Rightarrow> bytes \<Rightarrow> bytes \<Rightarrow> string \<Rightarrow> py_exc + bytes" where
  "decrypt hkdf unseal master blob user_id =
     (if length blob < 28
      then Inl (ValueError (''encrypted_data too short: expected at least 28 bytes, got '' @ show_nat (length blob)))
      else
        let iv = take 12 blob; tag = take 16 (drop 12 blob); ciphertext = drop 28 blob
        in (case unseal (derive_user_key hkdf master user_id) iv (ciphertext @ tag) of
              None \<Rightarrow> Inl (OtherError ''InvalidTag'')
            | Some data \<Rightarrow> Inr data))"

definition rotate_key ::
  "hkdf \<Rightarrow> seal \<Rightarrow> unseal \<Rightarrow> bytes \<Rightarrow> string \<Rightarrow> string \<Rightarrow> string \<Rightarrow> bytes \<Rightarrow> py_exc + bytes" where
  "rotate_key hkdf seal unseal iv old_master_key new_master_key user_id blob =
     err_bind (enc_service old_master_key)
       (\<lambda>old. err_bind (enc_service new_master_key)
          (\<lambda>new. err_bind (decrypt hkdf unseal old blob user_id)
             (\<lambda>plaintext. Inr (encrypt hkdf seal iv new plaintext user_id))))"

text \<open>The file helpers: \<open>files\<close> is the file system (\<open>None\<close>: \<open>FileNotFoundError\<close>).\<close>

definition encrypt_file ::
  "hkdf \<Rightarrow> seal \<Rightarrow> bytes \<Rightarrow> bytes \<Rightarrow> (string \<rightharpoonup> bytes) \<Rightarrow> string \<Rightarrow> string \<Rightarrow> py_exc + bytes" where
  "encrypt_file hkdf seal iv master files path user_id =
     (case files path of
        None \<Rightarrow> Inl (OtherError ''FileNotFoundError'')
      | Some data \<Rightarrow> Inr (encrypt hkdf seal iv master data user_id))"

definition decrypt_file :: "hkdf \<Rightarrow> unseal \<Rightarrow> bytes \<Rightarrow> bytes \<Rightarrow> string \<Rightarrow> py_exc + bytes" where
  "decrypt_file hkdf unseal master blob user_id = decrypt hkdf unseal master blob user_id"

definition gcm_ok :: "seal \<Rightarrow> unseal \<Rightarrow> bool" where
  "gcm_ok seal unseal \<longleftrightarrow>
     (\<forall>k iv d. length (seal k iv d) = length d + 16) \<and>
     (\<forall>k iv d c. unseal k iv c = Some d \<longleftrightarrow> c = seal k iv d)"

lemma encrypt_layout:
  assumes "gcm_ok seal unseal"
  obtains tag ct where "encrypt hkdf seal iv master data user = iv @ tag @ ct" and "length tag = 16"
    and "length ct = length data" and "ct @ tag = seal (derive_user_key hkdf master user) iv data"
proof
  let ?s = "seal (derive_user_key hkdf master user) iv data"
  have l: "length ?s = length data + 16" using assms by (simp add: gcm_ok_def)
  show "encrypt hkdf seal iv master data user = iv @ drop (length ?s - 16) ?s @ take (length ?s - 16) ?s"
    by (simp add: encrypt_def Let_def)
  show "length (drop (length ?s - 16) ?s) = 16" "length (take (length ?s - 16) ?s) = length data"
    using l by simp_all
  show "take (length ?s - 16) ?s @ drop (length ?s - 16) ?s = ?s" by simp
qed

lemma decrypt_encrypt:
  assumes ok: "gcm_ok seal unseal" and iv: "length iv = 12"
  shows "decrypt hkdf unseal master (encrypt hkdf seal iv master data user) user = Inr data"
proof -
  obtain tag ct where e: "encrypt hkdf seal iv master data user = iv @ tag @ ct" and l: "length tag = 16"
    and s: "ct @ tag = seal (derive_user_key hkdf master user) iv data"
    by (rule encrypt_layout [OF ok, of hkdf iv master data user])
  have "unseal (derive_user_key hkdf master user) iv (ct @ tag) = Some data"
    using ok s by (simp add: gcm_ok_def)
  then show ?thesis using iv l by (simp add: e decrypt_def Let_def)
qed

lemma encrypt_decrypt:
  assumes ok: "gcm_ok seal unseal" and d: "decrypt hkdf unseal master blob user = Inr data"
  shows "blob = encrypt hkdf seal (take 12 blob) master data user"
proof -
  let ?iv = "take 12 blob" and ?tag = "take 16 (drop 12 blob)" and ?ct = "drop 28 blob"
  from d have l: "28 \<le> length blob"
    and u: "unseal (derive_user_key hkdf master user) ?iv (?ct @ ?tag) = Some data"
    by (auto simp: decrypt_def Let_def split: if_splits option.splits)
  from u ok have s: "seal (derive_user_key hkdf master user) ?iv data = ?ct @ ?tag"
    unfolding gcm_ok_def by metis
  have "length ?tag = 16" using l by simp
  then have "encrypt hkdf seal ?iv master data user = ?iv @ ?tag @ ?ct"
    by (simp add: encrypt_def s Let_def)
  also have "\<dots> = blob"
    using take_drop_glue [of 16 12 blob] by simp
  finally show ?thesis by simp
qed

section \<open>Properties\<close>

text \<open>A cipher that meets the contract, for the witnesses: the tag is sixteen zero bytes.\<close>

definition plain_seal :: seal where
  "plain_seal k iv d = d @ replicate 16 0"

definition plain_unseal :: unseal where
  "plain_unseal k iv c =
     (if 16 \<le> length c \<and> drop (length c - 16) c = replicate 16 0 then Some (take (length c - 16) c) else None)"

lemma plain_gcm_ok: "gcm_ok plain_seal plain_unseal"
proof -
  have "plain_unseal k iv c = Some d \<longleftrightarrow> c = plain_seal k iv d" for k iv c d
  proof
    assume u: "plain_unseal k iv c = Some d"
    then have "d = take (length c - 16) c" "drop (length c - 16) c = replicate 16 0"
      by (auto simp: plain_unseal_def split: if_splits)
    then show "c = plain_seal k iv d"
      unfolding plain_seal_def by (metis append_take_drop_id)
  qed (simp add: plain_unseal_def plain_seal_def)
  then show ?thesis by (simp add: gcm_ok_def) (simp add: plain_seal_def)
qed

abbreviation zero_hkdf :: hkdf where
  "zero_hkdf \<equiv> \<lambda>salt master. master"

text \<open>C27: encryption at rest is a round trip in both directions. An encrypted blob is 28 bytes longer
  than the data and decrypts to it; and a blob decrypts to some data exactly when it is at least 28
  bytes long and is the encryption of those data, for that user, under its own first twelve bytes
  as IV: nothing that \<open>encrypt\<close> did not produce is accepted.\<close>

theorem encryption_round_trip:
  assumes "gcm_ok seal unseal" and "length iv = 12"
  shows "decrypt hkdf unseal master (encrypt hkdf seal iv master data user) user = Inr data \<and>
    length (encrypt hkdf seal iv master data user) = length data + 28 \<and>
    (decrypt hkdf unseal master blob user = Inr d \<longleftrightarrow>
       28 \<le> length blob \<and> blob = encrypt hkdf seal (take 12 blob) master d user)"
proof (intro conjI)
  show "decrypt hkdf unseal master (encrypt hkdf seal iv master data user) user = Inr data"
    by (rule decrypt_encrypt [OF assms])
  obtain tag ct where "encrypt hkdf seal iv master data user = iv @ tag @ ct" "length tag = 16" "length ct = length data"
    by (rule encrypt_layout [OF assms(1), of hkdf iv master data user])
  then show "length (encrypt hkdf seal iv master data user) = length data + 28" using assms(2) by simp
  show "decrypt hkdf unseal master blob user = Inr d \<longleftrightarrow>
      28 \<le> length blob \<and> blob = encrypt hkdf seal (take 12 blob) master d user"
  proof
    assume d: "decrypt hkdf unseal master blob user = Inr d"
    then have "28 \<le> length blob" by (auto simp: decrypt_def split: if_splits)
    with encrypt_decrypt [OF assms(1) d] show "28 \<le> length blob \<and> blob = encrypt hkdf seal (take 12 blob) master d user"
      by blast
  next
    assume b: "28 \<le> length blob \<and> blob = encrypt hkdf seal (take 12 blob) master d user"
    then have "length (take 12 blob) = 12" by simp
    from decrypt_encrypt [OF assms(1) this, of hkdf master d user] b
    show "decrypt hkdf unseal master blob user = Inr d" by simp
  qed
qed

theorem encryption_round_trip_witness:
  "decrypt zero_hkdf plain_unseal [] (encrypt zero_hkdf plain_seal (replicate 12 7) [] [1, 2] ''u'') ''u'' = Inr [1, 2]"
proof -
  have "length (replicate 12 (7 :: 8 word)) = 12" by simp
  from encryption_round_trip [OF plain_gcm_ok this] show ?thesis by blast
qed

text \<open>Rotation of the master key loses nothing and forgives nothing: reading a rotated blob under
  the new key gives what the old blob gave under the old key, data or error.\<close>

theorem rotation_preserves:
  assumes "gcm_ok seal unseal" and "length iv = 12"
    and "enc_service old_key = Inr old" and "enc_service new_key = Inr new"
  shows "err_bind (rotate_key hkdf seal unseal iv old_key new_key user blob)
      (\<lambda>blob'. decrypt hkdf unseal new blob' user) = decrypt hkdf unseal old blob user"
  using assms by (cases "decrypt hkdf unseal old blob user") (simp_all add: rotate_key_def decrypt_encrypt)

definition hex_key :: "string \<Rightarrow> string" where
  "hex_key d = concat (replicate 32 d)"

lemma zero_key: "enc_service (hex_key ''00'') = Inr (replicate 32 0)"
  by code_simp

theorem rotation_preserves_witness:
  "\<exists>blob'. rotate_key zero_hkdf plain_seal plain_unseal (replicate 12 9) (hex_key ''00'') (hex_key ''00'') ''u''
      (encrypt zero_hkdf plain_seal (replicate 12 7) (replicate 32 0) [1, 2] ''u'') = Inr blob' \<and>
    decrypt zero_hkdf plain_unseal (replicate 32 0) blob' ''u'' = Inr [1, 2]"
proof -
  have l: "length (replicate 12 (9 :: 8 word)) = 12" "length (replicate 12 (7 :: 8 word)) = 12" by simp_all
  from rotation_preserves [OF plain_gcm_ok l(1) zero_key zero_key, of zero_hkdf "''u''"
      "encrypt zero_hkdf plain_seal (replicate 12 7) (replicate 32 0) [1, 2] ''u''"]
  show ?thesis by (simp add: decrypt_encrypt [OF plain_gcm_ok l(2)] err_bind_Inr)
qed

text \<open>The master key may be written with blanks between its bytes.\<close>

lemma py_fromhex_blank: "hex_blank c \<Longrightarrow> py_fromhex (c # s) = py_fromhex s"
  by (subst (1 2) py_fromhex.simps) simp

lemma master_key_blanks: "hex_blank c \<Longrightarrow> enc_service (c # key) = enc_service key"
  by (simp add: enc_service_def py_fromhex_blank)

text \<open>C28: what is stored encrypted under a built key is read back: after a successful upload of the
  encryption of some data, downloading the key and decrypting gives the data, and the object of
  every other user, job or file name is what it was.\<close>

theorem encrypted_storage_round_trip:
  assumes "gcm_ok seal unseal" and "length iv = 12" and "store_ok s3"
    and "build_key user job file = Inr key"
    and "upload_file s3 key (encrypt hkdf seal iv master data user) ct s = (Inr k, s')"
    and "build_key user' job' file' = Inr key'" and "(user', job', file') \<noteq> (user, job, file)"
  shows "download_file s3 key s' = Inr (encrypt hkdf seal iv master data user) \<and>
    decrypt hkdf unseal master (encrypt hkdf seal iv master data user) user = Inr data \<and>
    download_file s3 key' s' = download_file s3 key' s"
proof -
  have v: "validate_key key = Inr ()" "validate_key key' = Inr ()" and k: "key' \<noteq> key"
    using assms(4,6,7) by (auto dest: built_keys)
  obtain u where p: "put_object s3 key (encrypt hkdf seal iv master data user) ct s = (Inr u, s')"
    using assms(5) v by (auto simp: upload_file_def split: prod.splits sum.splits)
  with assms(3) k have "get_object s3 key s' = Inr (encrypt hkdf seal iv master data user)"
    "get_object s3 key' s' = get_object s3 key' s"
    unfolding store_ok_def by blast+
  then show ?thesis
    using v decrypt_encrypt [OF assms(1,2)] by (simp add: download_file_def)
qed

definition map_s3 :: "(string \<rightharpoonup> bytes) s3_client" where
  "map_s3 = \<lparr>put_object = (\<lambda>k d ct s. (Inr (), s(k \<mapsto> d))),
     get_object = (\<lambda>k s. case s k of None \<Rightarrow> Inl (''NoSuchKey'', ''missing'') | Some d \<Rightarrow> Inr d),
     presigned_url = (\<lambda>k n s. Inr (''https://bucket/'' @ k)),
     delete_object = (\<lambda>k s. (Inr (), s(k := None))),
     head_object = (\<lambda>k s. if s k = None then Inl (''404'', ''missing'') else Inr ())\<rparr>"

lemma map_s3_ok: "store_ok map_s3"
  by (auto simp: store_ok_def map_s3_def)

theorem encrypted_storage_round_trip_witness:
  "\<exists>s'. download_file map_s3 ''u1/job/result'' s' =
      Inr (encrypt zero_hkdf plain_seal (replicate 12 7) [] [1, 2] ''u1'')"
proof -
  have l: "length (replicate 12 (7 :: 8 word)) = 12" by simp
  have b: "build_key ''u1'' ''job'' ''result'' = Inr ''u1/job/result''"
    "build_key ''u2'' ''job'' ''result'' = Inr ''u2/job/result''"
    by (simp_all add: build_key_def starts_with_def nul_def)
  have d: "(''u2'', ''job'', ''result'') \<noteq> (''u1'', ''job'', ''result'')" by simp
  have "validate_key ''u1/job/result'' = Inr ()" using b(1) by (auto dest: built_keys)
  then have "upload_file map_s3 ''u1/job/result'' (encrypt zero_hkdf plain_seal (replicate 12 7) [] [1, 2] ''u1'')
      ''b'' (\<lambda>_. None) = (Inr ''u1/job/result'',
      [''u1/job/result'' \<mapsto> encrypt zero_hkdf plain_seal (replicate 12 7) [] [1, 2] ''u1''])"
    by (simp add: upload_file_def map_s3_def)
  from encrypted_storage_round_trip [OF plain_gcm_ok l map_s3_ok b(1) this b(2) d] show ?thesis by blast
qed

end
