(* ===== verification/Py_Decimal.thy ===== *)
theory Py_Decimal
  imports Py_Strings
begin

text \<open>
  Python's \<open>decimal.Decimal\<close> where the code meets it: the values a text can denote, the
  constructor that reads them (ASCII digits), and the comparison with zero, which raises on a NaN.
  Values are exact; the context's 28-digit rounding of results is not modelled.
\<close>

datatype decimal = DFin rat | DInf bool | DNaN

text \<open>An optional sign, then digits with at most one point and an optional exponent.\<close>

definition parse_exponent :: "string \<Rightarrow> int option" where
  "parse_exponent s =
     (case strip_sign s of (neg, ds) \<Rightarrow>
        if ds = [] \<or> \<not> all_digits ds then None
        else Some (if neg then - int (digits_value ds) else int (digits_value ds)))"

definition power10 :: "int \<Rightarrow> rat" where
  "power10 k = (if 0 \<le> k then 10 ^ nat k else 1 / 10 ^ nat (- k))"

definition parse_mantissa :: "string \<Rightarrow> rat option" where
  "parse_mantissa s =
     (case split_on CHR ''.'' s of
        [ip] \<Rightarrow> if ip = [] \<or> \<not> all_digits ip then None else Some (of_nat (digits_value ip))
      | [ip, fp] \<Rightarrow>
          if ip @ fp = [] \<or> \<not> all_digits (ip @ fp) then None
          else Some (of_nat (digits_value (ip @ fp)) / 10 ^ length fp)
      | _ \<Rightarrow> None)"

definition parse_number :: "string \<Rightarrow> rat option" where
  "parse_number s =
     (case split_on CHR ''e'' s of
        [m] \<Rightarrow> parse_mantissa m
      | [m, e] \<Rightarrow>
          (case (parse_mantissa m, parse_exponent e) of
             (Some x, Some k) \<Rightarrow> Some (x * power10 k)
           | _ \<Rightarrow> None)
      | _ \<Rightarrow> None)"

text \<open>\<open>Decimal(s)\<close> (\<open>None\<close>: \<open>InvalidOperation\<close>). Underscores anywhere and blanks around are dropped.\<close>

definition decimal_of :: "string \<Rightarrow> decimal option" where
  "decimal_of s =
     (case strip_sign (py_lower (filter (\<lambda>c. c \<noteq> CHR ''_'') (py_strip s))) of (neg, t) \<Rightarrow>
        if t = ''inf'' \<or> t = ''infinity'' then Some (DInf neg)
        else if starts_with ''nan'' t \<and> all_digits (drop 3 t) then Some DNaN
        else if starts_with ''snan'' t \<and> all_digits (drop 4 t) then Some DNaN
        else map_option (\<lambda>x. DFin (if neg then - x else x)) (parse_number t))"

text \<open>\<open>d <= 0\<close> (\<open>None\<close>: \<open>InvalidOperation\<close>, which an ordering comparison with a NaN signals).\<close>

fun decimal_le_zero :: "decimal \<Rightarrow> bool option" where
  "decimal_le_zero (DFin x) = Some (x \<le> 0)"
| "decimal_le_zero (DInf neg) = Some neg"
| "decimal_le_zero DNaN = None"

lemma decimal_of_special:
  "decimal_of ''NaN'' = Some DNaN" "decimal_of ''-Infinity'' = Some (DInf True)"
  "decimal_of ''abc'' = None" "decimal_of '''' = None"
  by code_simp+

end
