(* ===== verification/Credits_Api.thy ===== *)
theory Credits_Api
  imports CreditLedger Auth Py_Decimal
begin

text \<open>
  The credit endpoints of \<^verbatim>\<open>core/api/v1/credits.py\<close>: balance, history and deduction, over the
  ledger service.

  \<open>auth\<close> is the outcome of the dependency \<open>get_current_user\<close>, \<open>isof\<close> is \<open>datetime.isoformat\<close> and
  \<open>commit_ok\<close> tells whether the database accepts the commit. Responses print decimals with \<open>str\<close>;
  here they carry the values. An exception that the endpoint does not turn into an HTTP error is
  returned as it is.
\<close>

section \<open>Responses\<close>

record balance_response =
  br_balance :: rat
  br_user_id :: string

record ledger_entry_response =
  er_id :: string
  er_amount :: rat
  er_direction :: string
  er_source :: string
  er_reference_id :: string
  er_balance_after :: rat
  er_description :: "string option"
  er_created_at :: string

record history_response =
  hr_entries :: "ledger_entry_response list"
  hr_count :: nat

record deduct_request =
  dq_amount :: string
  dq_reference_id :: string
  dq_description :: "string option"

fun direction_value :: "transaction_direction \<Rightarrow> string" where
  "direction_value CREDIT = ''CREDIT''"
| "direction_value DEBIT = ''DEBIT''"

fun source_value :: "transaction_source \<Rightarrow> string" where
  "source_value STRIPE = ''STRIPE''"
| "source_value USAGE = ''USAGE''"
| "source_value ADJUSTMENT = ''ADJUSTMENT''"
| "source_value REFUND = ''REFUND''"

definition entry_response :: "(instant \<Rightarrow> string) \<Rightarrow> ledger_entry \<Rightarrow> ledger_entry_response" where
  "entry_response isof e =
     \<lparr>er_id = uuid_str (le_id e), er_amount = le_amount e, er_direction = direction_value (le_direction e),
      er_source = source_value (le_source e), er_reference_id = le_reference e,
      er_balance_after = le_balance_after e, er_description = le_description e,
      er_created_at = isof (le_created_at e)\<rparr>"

section \<open>Endpoints\<close>

definition credit_balance :: "py_exc + user \<Rightarrow> ledger_db \<Rightarrow> py_exc + balance_response" where
  "credit_balance auth db =
     err_bind auth (\<lambda>u. Inr \<lparr>br_balance = get_balance db (u_id u), br_user_id = uuid_str (u_id u)\<rparr>)"

definition credit_history ::
  "py_exc + user \<Rightarrow> (instant \<Rightarrow> string) \<Rightarrow> int \<Rightarrow> int \<Rightarrow> ledger_db \<Rightarrow> py_exc + history_response" where
  "credit_history auth isof limit offset db =
     err_bind auth
       (\<lambda>u. if limit < 1 \<or> 100 < limit \<or> offset < 0 then Inl (HTTPException 422 ''validation error'')
            else err_bind (get_history db (u_id u) limit offset)
              (\<lambda>es. let rs = map (entry_response isof) es in Inr \<lparr>hr_entries = rs, hr_count = length rs\<rparr>))"

text \<open>A deduction of \<open>Decimal('Infinity')\<close>: the service finds the reference used, or no balance
  suffices. The result is the entry or the available balance.\<close>

definition deduct_infinity :: "uuid \<Rightarrow> string \<Rightarrow> ledger_db \<Rightarrow> py_exc + (ledger_entry + rat)" where
  "deduct_infinity user ref db =
     err_bind (scalar_one_or_none (by_reference ref DEBIT db))
       (\<lambda>e. case e of Some x \<Rightarrow> Inr (Inl x) | None \<Rightarrow> Inr (Inr (get_balance db user)))"

text \<open>The reply is the entry or the body of the 402: what is available and what was requested.\<close>

datatype deduct_reply = Deducted ledger_entry_response | PaymentRequired rat decimal

definition credit_deduct ::
  "py_exc + user \<Rightarrow> numeric \<Rightarrow> (instant \<Rightarrow> string) \<Rightarrow> uuid \<Rightarrow> instant \<Rightarrow> bool \<Rightarrow> deduct_request \<Rightarrow>
   ledger_db session \<Rightarrow> (py_exc + deduct_reply) \<times> ledger_db session" where
  "credit_deduct auth num isof nid now commit_ok payload s =
     (case auth of
        Inl x \<Rightarrow> (Inl x, s)
      | Inr u \<Rightarrow>
          (case decimal_of (dq_amount payload) of
             None \<Rightarrow> (Inl (HTTPException 422 (''Invalid amount: '' @ dq_amount payload)), s)
           | Some amount \<Rightarrow>
               (case decimal_le_zero amount of
                  None \<Rightarrow> (Inl (OtherError ''InvalidOperation''), s)
                | Some True \<Rightarrow> (Inl (HTTPException 422 ''Amount must be a positive number''), s)
                | Some False \<Rightarrow>
                    (case (case amount of
                             DFin x \<Rightarrow>
                               (case deduct_credits num nid now (u_id u) x USAGE (dq_reference_id payload)
                                       (dq_description payload) s of
                                  (Inl (InsufficientCreditsError i req available), s1) \<Rightarrow>
                                    (Inr (PaymentRequired available (DFin req)), s1)
                                | (Inl e, s1) \<Rightarrow> (Inl e, s1)
                                | (Inr e, s1) \<Rightarrow> (Inr (Deducted (entry_response isof e)), s1))
                           | _ \<Rightarrow>
                               (case deduct_infinity (u_id u) (dq_reference_id payload) (working s) of
                                  Inl e \<Rightarrow> (Inl e, s)
                                | Inr (Inl e) \<Rightarrow> (Inr (Deducted (entry_response isof e)), s)
                                | Inr (Inr available) \<Rightarrow> (Inr (PaymentRequired available amount), s))) of
                       (Inl e, s1) \<Rightarrow> (Inl e, s1)
                     | (Inr (PaymentRequired a r), s1) \<Rightarrow> (Inr (PaymentRequired a r), s1)
                     | (Inr (Deducted r), s1) \<Rightarrow>
                         if commit_ok then (Inr (Deducted r), commit s1)
                         else (Inl (OtherError ''commit''), rollback s1)))))"

section \<open>Properties\<close>

lemma commit_open [simp]: "commit (open_session d) = open_session d" "rollback (open_session d) = open_session d"
  by (simp_all add: commit_def rollback_def open_session_def)


definition ten_request :: "string \<Rightarrow> deduct_request" where
  "ten_request a = \<lparr>dq_amount = a, dq_reference_id = ''j'', dq_description = None\<rparr>"

definition credit_user :: user where
  "credit_user = \<lparr>u_id = 7, u_email = ''a@b.c'', u_name = ''A'', u_hashed_password = ''h'', u_is_active = True, u_is_admin = False\<rparr>"

lemma decimal_20: "decimal_of ''20'' = Some (DFin 20)"
proof -
  have "parse_number ''20'' = Some (of_nat (digits_value ''20''))"
    by (simp add: parse_number_def parse_mantissa_def all_digits_def)
  moreover have "digits_value ''20'' = 20" by code_simp
  moreover have "strip_sign (py_lower (filter (\<lambda>c. c \<noteq> CHR ''_'') (py_strip ''20''))) = (False, ''20'')" by code_simp
  ultimately show ?thesis by (simp add: decimal_of_def starts_with_def)
qed


text \<open>References are not private to an account: whoever deducts under a reference that was used for
  any debit, with any positive amount, is answered with that debit's entry, of whatever account it
  is, and is charged nothing.\<close>

theorem deduct_reveals_foreign_entry:
  assumes "ledger_ok db" and "posted db (dq_reference_id p, DEBIT) = Some e"
    and "decimal_of (dq_amount p) = Some d" and "decimal_le_zero d = Some False"
  shows "credit_deduct (Inr u) num isof nid now True p (open_session db) =
    (Inr (Deducted (entry_response isof e)), open_session db)"
proof (cases d)
  case (DFin x)
  have "deduct_credits num nid now (u_id u) x USAGE (dq_reference_id p) (dq_description p) (open_session db) =
      (Inr e, open_session db)"
    using assms DFin by (intro deduct_posted_again) (simp_all add: ledger_session_ok_open)
  with assms DFin show ?thesis by (simp add: credit_deduct_def)
next
  case (DInf neg)
  with assms show ?thesis
    by (simp add: credit_deduct_def deduct_infinity_def by_reference_posted)
next
  case DNaN
  with assms show ?thesis by simp
qed

definition debit_entry :: ledger_entry where
  "debit_entry = \<lparr>le_id = 5, le_user = 9, le_amount = 3, le_direction = DEBIT, le_source = USAGE,
     le_reference = ''j'', le_balance_after = 4, le_description = Some ''private'', le_created_at = 5\<rparr>"

theorem deduct_reveals_foreign_entry_witness:
  "\<exists>r. credit_deduct (Inr credit_user) numeric_12_4 show_int 2 9 True (ten_request ''20'')
     (open_session \<lparr>ld_users = [7, 9], ld_entries = [debit_entry]\<rparr>) =
     (Inr (Deducted r), open_session \<lparr>ld_users = [7, 9], ld_entries = [debit_entry]\<rparr>) \<and>
   er_description r = Some ''private''"
proof -
  have "ledger_ok \<lparr>ld_users = [7, 9], ld_entries = [debit_entry]\<rparr>"
    "posted \<lparr>ld_users = [7, 9], ld_entries = [debit_entry]\<rparr> (dq_reference_id (ten_request ''20''), DEBIT) = Some debit_entry"
    by (simp_all add: ledger_ok_def posted_def debit_entry_def ten_request_def entry_key_def)
  from deduct_reveals_foreign_entry [OF this, of "DFin 20"] decimal_20 show ?thesis
    by (simp add: ten_request_def entry_response_def debit_entry_def)
qed

text \<open>The amount \<open>NaN\<close> is a valid decimal that cannot be compared: it escapes from the endpoint as an
  unhandled \<open>InvalidOperation\<close>, where every text that is no decimal, and every amount that is not
  positive, is answered with 422.\<close>

theorem nan_amount_unhandled:
  "fst (credit_deduct (Inr u) num isof nid now c \<lparr>dq_amount = ''NaN'', dq_reference_id = ref, dq_description = desc\<rparr> s) =
     Inl (OtherError ''InvalidOperation'') \<and>
   fst (credit_deduct (Inr u) num isof nid now c \<lparr>dq_amount = ''abc'', dq_reference_id = ref, dq_description = desc\<rparr> s) =
     Inl (HTTPException 422 ''Invalid amount: abc'')"
  by (simp add: credit_deduct_def decimal_of_special)

end
