(* ===== verification/Stripe_Webhook.thy ===== *)
theory Stripe_Webhook
  imports CreditLedger Py_Strings
begin

text \<open>
  The Stripe webhook of \<^verbatim>\<open>core/billing/stripe/stripe_webhook.py\<close>: signature header, verification,
  routing by event type, and the allocation of credits for a completed checkout through
  \<open>allocate_credits\<close> under the checkout session's identifier.

  \<open>construct_event\<close> is \<open>stripe.Webhook.construct_event\<close> under the endpoint's secret: it answers the decoded
  event, or that the signature or the payload is bad. \<open>py_str\<close> is \<open>str\<close> on decoded values that are
  not strings. \<open>nid\<close>, \<open>now\<close> are the identifier and the clock the ledger draws; \<open>commit_ok\<close> tells
  whether the database accepts the commit.
\<close>

section \<open>The handler\<close>

definition credit_map :: "string \<rightharpoonup> rat" where
  "credit_map = [''cred10'' \<mapsto> 100, ''cred50'' \<mapsto> 550]"

text \<open>The credits of a SKU; an unhashable value raises.\<close>

fun sku_amount :: "json \<Rightarrow> py_exc + (string \<times> rat) option" where
  "sku_amount (JStr s) = Inr (if s = [] then None else map_option (\<lambda>n. (s, n)) (credit_map s))"
| "sku_amount (JArr xs) = (if xs = [] then Inr None else Inl (OtherError ''TypeError''))"
| "sku_amount (JObj kvs) = (if kvs = [] then Inr None else Inl (OtherError ''TypeError''))"
| "sku_amount j = Inr None"

text \<open>The user, reference, SKU and amount of the call to the ledger.\<close>

definition allocation_of ::
  "(json \<Rightarrow> string) \<Rightarrow> json \<Rightarrow> json \<Rightarrow> (string \<times> rat) option \<Rightarrow> py_exc + (uuid \<times> string \<times> string \<times> rat) option" where
  "allocation_of py_str sid client m =
     (case m of
        None \<Rightarrow> Inr None
      | Some (name, amount) \<Rightarrow>
          (case uuid_parse (str_of py_str client) of
             None \<Rightarrow> Inl (ValueError ''badly formed hexadecimal UUID string'')
           | Some user \<Rightarrow> Inr (Some (user, str_of py_str sid, name, amount))))"

text \<open>What the session object asks for: nothing, or an allocation for a user under a reference.\<close>

definition checkout_request :: "(json \<Rightarrow> string) \<Rightarrow> json \<Rightarrow> py_exc + (uuid \<times> string \<times> string \<times> rat) option" where
  "checkout_request py_str sess =
     err_bind (get_default ''id'' (JStr '''') sess)
       (\<lambda>sid. err_bind (get_default ''client_reference_id'' JNull sess)
         (\<lambda>client. if \<not> json_truthy client then Inr None
            else err_bind (get_default ''metadata'' JNull sess)
              (\<lambda>md. err_bind (get_default ''sku'' JNull (if json_truthy md then md else JObj []))
                (\<lambda>sku. err_bind (sku_amount sku)
                  (allocation_of py_str sid client)))))"

definition handle_checkout ::
  "(json \<Rightarrow> string) \<Rightarrow> numeric \<Rightarrow> uuid \<Rightarrow> instant \<Rightarrow> bool \<Rightarrow> json \<Rightarrow> ledger_db session \<Rightarrow>
   (py_exc + unit) \<times> ledger_db session" where
  "handle_checkout py_str num nid now commit_ok event s =
     (case err_bind (get_item ''data'' event)
             (\<lambda>d. err_bind (get_item ''object'' d) (checkout_request py_str)) of
        Inl x \<Rightarrow> (Inl x, s)
      | Inr None \<Rightarrow> (Inr (), s)
      | Inr (Some (user, ref, sku, amount)) \<Rightarrow>
          (case allocate_credits num nid now user amount STRIPE ref (Some (''Stripe checkout: '' @ sku)) s of
             (Inl x, s1) \<Rightarrow> (Inl x, s1)
           | (Inr e, s1) \<Rightarrow> if commit_ok then (Inr (), commit s1) else (Inl (OtherError ''commit''), rollback s1)))"

datatype stripe_outcome = Event json | BadSignature | BadPayload

definition stripe_hook ::
  "(string \<Rightarrow> string \<Rightarrow> stripe_outcome) \<Rightarrow> (json \<Rightarrow> string) \<Rightarrow> numeric \<Rightarrow> uuid \<Rightarrow> instant \<Rightarrow> bool \<Rightarrow>
   string option \<Rightarrow> string \<Rightarrow> ledger_db session \<Rightarrow> (py_exc + bool) \<times> ledger_db session" where
  "stripe_hook construct_event py_str num nid now commit_ok header body s =
     (case header of
        None \<Rightarrow> (Inl (HTTPException 400 ''Missing stripe-signature header''), s)
      | Some h \<Rightarrow>
          if h = [] then (Inl (HTTPException 400 ''Missing stripe-signature header''), s)
          else
            (case construct_event body h of
               BadSignature \<Rightarrow> (Inl (HTTPException 400 ''Invalid signature''), s)
             | BadPayload \<Rightarrow> (Inl (HTTPException 400 ''Invalid payload''), s)
             | Event event \<Rightarrow>
                 (case err_bind (get_item ''type'' event)
                         (\<lambda>ty. err_bind (get_item ''id'' event) (\<lambda>_. Inr ty)) of
                    Inl x \<Rightarrow> (Inl x, s)
                  | Inr ty \<Rightarrow>
                      if ty = JStr ''checkout.session.completed'' then
                        (case handle_checkout py_str num nid now commit_ok event s of
                           (Inl x, s1) \<Rightarrow> (Inl x, s1)
                         | (Inr _, s1) \<Rightarrow> (Inr True, s1))
                      else (Inr True, s))))"

section \<open>Facts of one delivery\<close>

text \<open>A delivery that is acknowledged did nothing, or allocated under the reference of its session.\<close>

lemma credit_map_pos: "credit_map k = Some n \<Longrightarrow> 0 < n \<and> scale4 n"
  by (auto simp: credit_map_def split: if_splits)

lemma sku_amount_pos: "sku_amount j = Inr (Some (k, n)) \<Longrightarrow> 0 < n \<and> scale4 n"
  by (cases j) (auto dest: credit_map_pos split: if_splits)

lemma allocation_of_Some:
  "allocation_of py_str sid client m = Inr (Some (u, ref, sku, n)) \<Longrightarrow> m = Some (sku, n)"
  by (auto simp: allocation_of_def split: option.splits)

lemma checkout_request_pos: "checkout_request py_str sess = Inr (Some (u, ref, sku, n)) \<Longrightarrow> 0 < n \<and> scale4 n"
  unfolding checkout_request_def err_bind_Inr
  by (auto split: if_splits dest!: allocation_of_Some sku_amount_pos simp: err_bind_Inr)

text \<open>The allocation an event asks for: none unless it is a completed checkout of a known SKU.\<close>

definition event_request :: "(json \<Rightarrow> string) \<Rightarrow> json \<Rightarrow> py_exc + (uuid \<times> string \<times> string \<times> rat) option" where
  "event_request py_str event =
     err_bind (get_item ''type'' event)
       (\<lambda>ty. err_bind (get_item ''id'' event)
          (\<lambda>_. if ty = JStr ''checkout.session.completed''
               then err_bind (get_item ''data'' event) (\<lambda>d. err_bind (get_item ''object'' d) (checkout_request py_str))
               else Inr None))"

lemma stripe_hook_event:
  assumes "construct_event body h = Event event" and "h \<noteq> []"
  shows "stripe_hook construct_event py_str num nid now commit_ok (Some h) body s =
    (case event_request py_str event of
       Inl x \<Rightarrow> (Inl x, s)
     | Inr None \<Rightarrow> (Inr True, s)
     | Inr (Some (user, ref, sku, amount)) \<Rightarrow>
         (case allocate_credits num nid now user amount STRIPE ref (Some (''Stripe checkout: '' @ sku)) s of
            (Inl x, s1) \<Rightarrow> (Inl x, s1)
          | (Inr e, s1) \<Rightarrow> if commit_ok then (Inr True, commit s1) else (Inl (OtherError ''commit''), rollback s1)))"
proof -
  show ?thesis
  proof (cases "get_item ''type'' event")
    case (Inl x)
    with assms show ?thesis by (simp add: stripe_hook_def event_request_def)
  next
    case ty: (Inr ty)
    show ?thesis
    proof (cases "get_item ''id'' event")
      case (Inl x)
      with assms ty show ?thesis by (simp add: stripe_hook_def event_request_def)
    next
      case (Inr i)
      show ?thesis
        using assms ty Inr
        by (cases "err_bind (get_item ''data'' event) (\<lambda>d. err_bind (get_item ''object'' d) (checkout_request py_str))")
          (auto simp: stripe_hook_def event_request_def handle_checkout_def split: option.splits prod.splits sum.splits)
    qed
  qed
qed

section \<open>Properties\<close>

lemma committed_finish [simp]: "committed (snd (ledger_finish num p s)) = committed s"
  by (auto simp: ledger_finish_def split: prepared.splits sum.splits py_exc.splits)

lemma committed_allocate [simp]:
  "committed (snd (allocate_credits num nid now user amount source ref desc s)) = committed s"
  by (simp add: allocate_credits_def split: sum.split)

text \<open>C30: a verified checkout is credited once. For an event that asks for an allocation, an
  acknowledged delivery adds the SKU's credits to the committed balance of the user, and of nobody
  else, if the session's reference is new, and nothing if it was used; delivering it again, at any
  later time, is acknowledged and changes nothing.\<close>

theorem stripe_credits_once:
  assumes "construct_event body h = Event ev" and "h \<noteq> []"
    and "event_request py_str ev = Inr (Some (u, ref, sku, n))"
    and "ledger_balanced db" and "keeps_scale4 num" and "clock_after db u now"
    and "stripe_hook construct_event py_str num nid now True (Some h) body (open_session db) = (Inr ack, s')"
  shows "ack \<and> get_balance (committed s') =
      (get_balance db)(u := get_balance db u + (if posted db (ref, CREDIT) = None then n else 0)) \<and>
    stripe_hook construct_event py_str num nid' now' True (Some h) body (open_session (committed s')) =
      (Inr True, open_session (committed s'))"
proof -
  have n: "0 < n" "scale4 n"
    using assms(3) by (auto simp: event_request_def err_bind_Inr split: if_splits dest: checkout_request_pos)
  note hook = stripe_hook_event [where construct_event = construct_event and body = body and h = h, OF assms(1,2), unfolded assms(3)]
  let ?call = "allocate_credits num nid now u n STRIPE ref (Some (''Stripe checkout: '' @ sku)) (open_session db)"
  obtain e s1 where call: "?call = (Inr e, s1)" and s': "s' = commit s1" and "ack"
    using assms(7) unfolding hook assms(3) by (auto split: prod.splits sum.splits)
  have ok: "ledger_session_ok s1"
    using allocate_credits_ok [OF balanced_session [OF assms(4)], of num nid now u n STRIPE ref] call
    by (metis snd_conv)
  have bal: "get_balance (working s1) i = get_balance db i + (if i = u \<and> posted db (ref, CREDIT) = None then n else 0)" for i
    using allocate_balanced [OF assms(4,5) n(2) assms(6) call] by blast
  have "posted (working s1) (ref, CREDIT) \<noteq> None"
    by (rule allocate_Inr_cases [OF balanced_session [OF assms(4)] call]) (simp_all add: posted_append entry_key_def)
  then obtain x where "posted (working (open_session (working s1))) (ref, CREDIT) = Some x" by auto
  from allocate_posted_again [OF _ n(1) this]
  have "allocate_credits num nid' now' u n STRIPE ref (Some (''Stripe checkout: '' @ sku)) (open_session (working s1)) =
      (Inr x, open_session (working s1))"
    using ledger_session_okD(1) [OF ok] by (simp add: ledger_session_ok_open)
  then show ?thesis
    using \<open>ack\<close> bal by (auto simp: hook assms(3) s' fun_eq_iff commit_def open_session_def)
qed

text \<open>Credits come from verified events only: a delivery that changes the committed ledger carries a
  signature under which the body verifies as a completed checkout, and the SKU is one of the map.\<close>

theorem stripe_only_verified:
  assumes "stripe_hook construct_event py_str num nid now c header body s = (out, s')"
    and "committed s' \<noteq> committed s"
  shows "\<exists>h ev u ref sku n. header = Some h \<and> construct_event body h = Event ev \<and>
    event_request py_str ev = Inr (Some (u, ref, sku, n)) \<and> get_item ''type'' ev = Inr (JStr ''checkout.session.completed'')"
proof (cases header)
  case None
  with assms show ?thesis by (auto simp: stripe_hook_def)
next
  case (Some h)
  show ?thesis
  proof (cases "h = []")
    case True
    with Some assms show ?thesis by (auto simp: stripe_hook_def)
  next
    case False
    show ?thesis
    proof (cases "construct_event body h")
      case (Event ev)
      note hook = stripe_hook_event [where construct_event = construct_event and body = body and h = h, OF Event False]
      obtain u ref sku n where r: "event_request py_str ev = Inr (Some (u, ref, sku, n))"
        using assms by (cases "event_request py_str ev") (auto simp: hook Some split: option.splits)
      then have "get_item ''type'' ev = Inr (JStr ''checkout.session.completed'')"
        by (auto simp: event_request_def err_bind_Inr split: if_splits)
      with r Event Some show ?thesis by blast
    qed (use Some False assms in \<open>auto simp: stripe_hook_def\<close>)
  qed
qed

text \<open>An event whose user does not exist is never acknowledged: the foreign key is violated, the
  handler looks for the entry of a concurrent delivery, finds none, and \<open>NoResultFound\<close> leaves the
  endpoint; the ledger is as it was, and every retry ends the same way.\<close>

theorem stripe_unknown_user_fails:
  assumes "construct_event body h = Event ev" and "h \<noteq> []"
    and "event_request py_str ev = Inr (Some (u, ref, sku, n))"
    and "ledger_ok db" and "u \<notin> set (ld_users db)" and "posted db (ref, CREDIT) = None"
    and "num n = Some a" and "num (get_balance db u + n) = Some b" and "length ref \<le> 255"
  shows "stripe_hook construct_event py_str num nid now c (Some h) body (open_session db) =
    (Inl NoResultFound, open_session db)"
proof -
  have n: "0 < n"
    using assms(3) by (auto simp: event_request_def err_bind_Inr split: if_splits dest: checkout_request_pos)
  have "by_reference ref CREDIT db = []" using assms(4,6) by (simp add: by_reference_posted)
  then have "allocate_credits num nid now u n STRIPE ref d (open_session db) = (Inl NoResultFound, open_session db)" for d
    using n assms(5,7,8,9)
    by (simp add: allocate_credits_def allocate_prepare_def ledger_finish_def flush_entry_def rollback_def open_session_def)
  then show ?thesis by (simp add: stripe_hook_event [where construct_event = construct_event and body = body and h = h, OF assms(1,2)] assms(3))
qed

definition demo_event :: "uuid \<Rightarrow> json" where
  "demo_event u = JObj [(''id'', JStr ''evt_1''), (''type'', JStr ''checkout.session.completed''),
     (''data'', JObj [(''object'', JObj [(''id'', JStr ''cs_1''), (''client_reference_id'', JStr (uuid_str u)),
        (''metadata'', JObj [(''sku'', JStr ''cred50'')])])])]"

definition demo_construct :: "uuid \<Rightarrow> string \<Rightarrow> string \<Rightarrow> stripe_outcome" where
  "demo_construct u body h = (if h = ''sig'' then Event (demo_event u) else BadSignature)"

lemma demo_request: "event_request (\<lambda>_. []) (demo_event u) = Inr (Some (u, ''cs_1'', ''cred50'', 550))"
proof -
  have "uuid_str u \<noteq> []" using length_uuid_str [of u] by (auto simp del: length_uuid_str)
  then show ?thesis
    by (simp add: event_request_def demo_event_def get_item_def get_default_def checkout_request_def
        allocation_of_def credit_map_def str_of_def)
qed

theorem stripe_credits_once_witness:
  "\<exists>s'. stripe_hook (demo_construct 7) (\<lambda>_. []) numeric_12_4 3 9 True (Some ''sig'') ''body'' (open_session demo_ledger) =
      (Inr True, s') \<and> get_balance (committed s') 7 = 562"
proof -
  have c: "demo_construct 7 ''body'' ''sig'' = Event (demo_event 7)" "''sig'' \<noteq> []" by (simp_all add: demo_construct_def)
  have k: "clock_after demo_ledger 7 9" "posted demo_ledger (''cs_1'', CREDIT) = None" "get_balance demo_ledger 7 = 12"
    by (simp_all add: demo_ledger_defs)
  have "\<exists>s'. stripe_hook (demo_construct 7) (\<lambda>_. []) numeric_12_4 3 9 True (Some ''sig'') ''body'' (open_session demo_ledger) =
      (Inr True, s')"
    unfolding stripe_hook_event [where construct_event = "demo_construct 7" and body = "''body''" and h = "''sig''", OF c] demo_request by (simp add: demo_ledger_defs)
  then obtain s' where r: "stripe_hook (demo_construct 7) (\<lambda>_. []) numeric_12_4 3 9 True (Some ''sig'') ''body''
      (open_session demo_ledger) = (Inr True, s')" by blast
  note res = stripe_credits_once [where nid' = 4 and now' = 10 and construct_event = "demo_construct 7" and body = "''body''" and h = "''sig''", OF c demo_request demo_ledger_balanced keeps_scale4_numeric k(1) r]
  then have "get_balance (committed s') 7 = 562" using k by simp_all
  with r show ?thesis by blast
qed

theorem stripe_unknown_user_fails_witness:
  "stripe_hook (demo_construct 8) (\<lambda>_. []) numeric_12_4 3 9 True (Some ''sig'') ''body'' (open_session demo_ledger) =
    (Inl NoResultFound, open_session demo_ledger)"
proof -
  have c: "demo_construct 8 ''body'' ''sig'' = Event (demo_event 8)" "''sig'' \<noteq> []" by (simp_all add: demo_construct_def)
  show ?thesis
  proof (rule stripe_unknown_user_fails [where construct_event = "demo_construct 8" and body = "''body''" and h = "''sig''", OF c demo_request])
    show "ledger_ok demo_ledger" using demo_ledger_balanced by (simp add: ledger_balanced_def)
    show "8 \<notin> set (ld_users demo_ledger)" "posted demo_ledger (''cs_1'', CREDIT) = None"
      "numeric_12_4 550 = Some 550" "numeric_12_4 (get_balance demo_ledger 8 + 550) = Some 550"
      "length ''cs_1'' \<le> 255"
      by (simp_all add: demo_ledger_defs)
  qed
qed

theorem stripe_only_verified_witness:
  "\<exists>ev. demo_construct 7 ''body'' ''sig'' = Event ev \<and> get_item ''type'' ev = Inr (JStr ''checkout.session.completed'')"
proof -
  have c: "demo_construct 7 ''body'' ''sig'' = Event (demo_event 7)" "''sig'' \<noteq> []" by (simp_all add: demo_construct_def)
  have "\<exists>out s'. stripe_hook (demo_construct 7) (\<lambda>_. []) numeric_12_4 3 9 True (Some ''sig'') ''body'' (open_session demo_ledger) =
      (out, s') \<and> committed s' \<noteq> demo_ledger"
    unfolding stripe_hook_event [where construct_event = "demo_construct 7" and body = "''body''" and h = "''sig''", OF c] demo_request by (simp add: demo_ledger_defs commit_def)
  then obtain out s' where "stripe_hook (demo_construct 7) (\<lambda>_. []) numeric_12_4 3 9 True (Some ''sig'') ''body''
      (open_session demo_ledger) = (out, s')" "committed s' \<noteq> committed (open_session demo_ledger)" by auto
  from stripe_only_verified [OF this] show ?thesis by (auto simp: demo_construct_def split: if_splits)
qed

end
