(* ===== verification/Relay.thy ===== *)
theory Relay
  imports Nodes "HOL-Library.AList"
begin

text \<open>
  The relay of the gateway: the message types of \<^verbatim>\<open>core/relay/protocol.py\<close>, the connection
  manager of \<^verbatim>\<open>core/relay/manager.py\<close>, and the websocket endpoint of
  \<^verbatim>\<open>core/relay/server.py\<close> with its heartbeat task.

  A websocket is a number, given out in the order of the connections. The manager's dict is an
  association list, updated in place. The endpoint's coroutines become the events of
  \<open>relay_event\<close>: a connection attempt, a frame received (or the peer gone), a wake-up of the
  heartbeat task. Sending a ping is two events, because the task awaits the send before it
  clears the pong flag, and frames are handled in between. \<open>loads\<close> is \<open>json.loads\<close> (\<open>None\<close> where it
  raises). Frames that reach the endpoint after it closed the socket end the session.
\<close>

section \<open>Messages\<close>

datatype relay_message_type = JOB_ASSIGN | JOB_ACK | STATUS_UPDATE | HEARTBEAT_PING | HEARTBEAT_PONG

fun relay_type_value :: "relay_message_type \<Rightarrow> string" where
  "relay_type_value JOB_ASSIGN = ''job_assign''"
| "relay_type_value JOB_ACK = ''job_ack''"
| "relay_type_value STATUS_UPDATE = ''status_update''"
| "relay_type_value HEARTBEAT_PING = ''heartbeat_ping''"
| "relay_type_value HEARTBEAT_PONG = ''heartbeat_pong''"

lemma relay_type_value_inj [simp]: "relay_type_value a = relay_type_value b \<longleftrightarrow> a = b"
  by (cases a; cases b) simp_all

record relay_message =
  rm_type :: relay_message_type
  rm_payload :: json
  rm_timestamp :: instant

record job_assign_message =
  ja_type :: relay_message_type
  ja_job_id :: uuid
  ja_job_type :: string
  ja_payload_ref :: string
  ja_timestamp :: instant

record job_ack_message =
  jk_type :: relay_message_type
  jk_job_id :: uuid
  jk_accepted :: bool
  jk_timestamp :: instant

record status_update_message =
  su_type :: relay_message_type
  su_job_id :: uuid
  su_status :: string
  su_progress :: "pyfloat option"
  su_detail :: "string option"
  su_timestamp :: instant

section \<open>The connection manager\<close>

type_synonym connections = "(uuid \<times> nat) list"

definition cm_connect :: "uuid \<Rightarrow> nat \<Rightarrow> connections \<Rightarrow> connections" where
  "cm_connect node_id websocket conns = AList.update node_id websocket conns"

definition cm_disconnect :: "uuid \<Rightarrow> connections \<Rightarrow> connections" where
  "cm_disconnect node_id conns = AList.delete node_id conns"

definition send_to_node ::
  "(nat \<Rightarrow> bool) \<Rightarrow> uuid \<Rightarrow> json \<Rightarrow> connections \<Rightarrow> (py_exc + bool) \<times> (nat \<times> json) list" where
  "send_to_node alive node_id message conns =
     (case map_of conns node_id of
        None \<Rightarrow> (Inr False, [])
      | Some websocket \<Rightarrow>
          if alive websocket then (Inr True, [(websocket, message)])
          else (Inl (OtherError ''send''), []))"

definition broadcast :: "(nat \<Rightarrow> bool) \<Rightarrow> json \<Rightarrow> connections \<Rightarrow> (nat \<times> json) list" where
  "broadcast alive message conns = [(websocket, message). (node_id, websocket) \<leftarrow> conns, alive websocket]"

definition is_connected :: "uuid \<Rightarrow> connections \<Rightarrow> bool" where
  "is_connected node_id conns \<longleftrightarrow> node_id \<in> fst ` set conns"

definition connected_count :: "connections \<Rightarrow> nat" where
  "connected_count conns = length conns"

lemma cm_entries:
  "(i, k) \<in> set (cm_connect n w conns) \<Longrightarrow> (i, k) = (n, w) \<or> (i, k) \<in> set conns"
  "(i, k) \<in> set (cm_disconnect n conns) \<Longrightarrow> i \<noteq> n \<and> (i, k) \<in> set conns"
  by (induction conns) (auto simp: cm_connect_def cm_disconnect_def AList.delete_eq split: if_splits)

lemma cm_lookup [simp]:
  "map_of (cm_connect n w conns) = (map_of conns)(n \<mapsto> w)"
  "map_of (cm_disconnect n conns) = (map_of conns)(n := None)"
  by (simp_all add: cm_connect_def cm_disconnect_def update_conv' delete_conv')

lemma cm_distinct:
  "distinct (map fst conns) \<Longrightarrow> distinct (map fst (cm_connect n w conns))"
  "distinct (map fst conns) \<Longrightarrow> distinct (map fst (cm_disconnect n conns))"
  by (simp_all add: cm_connect_def cm_disconnect_def distinct_update distinct_delete)

section \<open>The websocket endpoint\<close>

definition heartbeat_interval :: int where "heartbeat_interval = 30"
definition heartbeat_timeout :: int where "heartbeat_timeout = 90"
definition close_auth_failed :: nat where "close_auth_failed = 4001"
definition close_heartbeat_timeout :: nat where "close_heartbeat_timeout = 4002"

definition authenticate_websocket :: "jwt_decode \<Rightarrow> instant \<Rightarrow> uuid \<Rightarrow> string option \<Rightarrow> bool" where
  "authenticate_websocket dec now node_id token =
     (case token of
        None \<Rightarrow> False
      | Some t \<Rightarrow>
          if t = '''' then False
          else (case verify_node_token dec now t of
                  Inl _ \<Rightarrow> False
                | Inr payload \<Rightarrow> Some (uuid_str node_id) = cl_sub payload))"

text \<open>Where the heartbeat task stands: asleep until an instant, awaiting the send of a ping, waiting
  for the pong until an instant, or returned.\<close>

datatype heart = Asleep instant | Pinging | AwaitPong instant | Returned

record relay_session =
  ws_node :: uuid
  ws_open :: bool
  ws_pong :: bool
  ws_heart :: heart

datatype sent = SentJson nat json | SentClose nat nat

datatype relay_log =
    JobAcknowledged uuid "json option" "json option"
  | StatusReceived uuid "json option" "json option"
  | UnhandledType uuid "json option"

record relay =
  rl_conns :: connections
  rl_sessions :: "nat \<rightharpoonup> relay_session"
  rl_next :: nat
  rl_sent :: "sent list"
  rl_log :: "relay_log list"

datatype frame = TextFrame string | BinaryFrame | Gone

datatype relay_input =
    OpenSocket uuid "string option"
  | Frame nat frame
  | Wake nat bool

definition ping_json :: json where
  "ping_json = JObj [(''type'', JStr (relay_type_value HEARTBEAT_PING)), (''payload'', JObj [])]"

text \<open>One wake-up of \<open>_heartbeat_loop\<close>; \<open>ok\<close> tells whether the send or close it makes succeeds.\<close>

definition heartbeat_loop ::
  "instant \<Rightarrow> bool \<Rightarrow> nat \<Rightarrow> relay_session \<Rightarrow> relay_session \<times> sent list" where
  "heartbeat_loop now ok websocket s =
     (case ws_heart s of
        Asleep t \<Rightarrow>
          if now < t then (s, [])
          else if ok \<and> ws_open s then (s\<lparr>ws_heart := Pinging\<rparr>, [SentJson websocket ping_json])
          else (s\<lparr>ws_heart := Returned\<rparr>, [])
      | Pinging \<Rightarrow>
          (s\<lparr>ws_pong := False, ws_heart := AwaitPong (now + seconds heartbeat_timeout)\<rparr>, [])
      | AwaitPong t \<Rightarrow>
          if ws_pong s then (s\<lparr>ws_heart := Asleep (now + seconds heartbeat_interval)\<rparr>, [])
          else if now < t then (s, [])
          else (s\<lparr>ws_open := False, ws_heart := Returned\<rparr>,
                if ok then [SentClose websocket close_heartbeat_timeout] else [])
      | Returned \<Rightarrow> (s, []))"

definition relay_handle_message :: "uuid \<Rightarrow> json \<Rightarrow> relay_log" where
  "relay_handle_message node_id data =
     (let msg_type = json_get ''type'' data
      in if msg_type = Some (JStr (relay_type_value JOB_ACK))
         then JobAcknowledged node_id (json_get ''job_id'' data) (json_get ''accepted'' data)
         else if msg_type = Some (JStr (relay_type_value STATUS_UPDATE))
         then StatusReceived node_id (json_get ''job_id'' data) (json_get ''status'' data)
         else UnhandledType node_id msg_type)"

text \<open>The \<open>finally\<close> block: the heartbeat task is cancelled and the node leaves the manager.\<close>

definition end_session :: "nat \<Rightarrow> relay_session \<Rightarrow> relay \<Rightarrow> relay" where
  "end_session websocket s r =
     r\<lparr>rl_conns := cm_disconnect (ws_node s) (rl_conns r),
       rl_sessions := (rl_sessions r)(websocket := None)\<rparr>"

definition relay_receive :: "(string \<Rightarrow> json option) \<Rightarrow> nat \<Rightarrow> frame \<Rightarrow> relay_session \<Rightarrow> relay \<Rightarrow> relay" where
  "relay_receive loads websocket f s r =
     (case (ws_open s, f) of
        (True, TextFrame text) \<Rightarrow>
          (case loads text of
             Some (JObj kvs) \<Rightarrow>
               if json_get ''type'' (JObj kvs) = Some (JStr (relay_type_value HEARTBEAT_PONG))
               then r\<lparr>rl_sessions := (rl_sessions r)(websocket \<mapsto> s\<lparr>ws_pong := True\<rparr>)\<rparr>
               else r\<lparr>rl_log := rl_log r @ [relay_handle_message (ws_node s) (JObj kvs)]\<rparr>
           | _ \<Rightarrow> end_session websocket s r)
      | _ \<Rightarrow> end_session websocket s r)"

definition relay_websocket :: "jwt_decode \<Rightarrow> instant \<Rightarrow> uuid \<Rightarrow> string option \<Rightarrow> relay \<Rightarrow> relay" where
  "relay_websocket dec now node_id token r =
     (let w = rl_next r; r1 = r\<lparr>rl_next := w + 1\<rparr>
      in if \<not> authenticate_websocket dec now node_id token
         then r1\<lparr>rl_sent := rl_sent r @ [SentClose w close_auth_failed]\<rparr>
         else r1\<lparr>rl_conns := cm_connect node_id w (rl_conns r),
                 rl_sessions := (rl_sessions r)(w \<mapsto>
                   \<lparr>ws_node = node_id, ws_open = True, ws_pong = False,
                    ws_heart = Asleep (now + seconds heartbeat_interval)\<rparr>)\<rparr>)"

fun relay_event ::
  "jwt_decode \<Rightarrow> (string \<Rightarrow> json option) \<Rightarrow> instant \<times> relay_input \<Rightarrow> relay \<Rightarrow> relay" where
  "relay_event dec loads (now, OpenSocket node_id token) r = relay_websocket dec now node_id token r"
| "relay_event dec loads (now, Frame w f) r =
     (case rl_sessions r w of None \<Rightarrow> r | Some s \<Rightarrow> relay_receive loads w f s r)"
| "relay_event dec loads (now, Wake w ok) r =
     (case rl_sessions r w of
        None \<Rightarrow> r
      | Some s \<Rightarrow>
          (case heartbeat_loop now ok w s of
             (s', out) \<Rightarrow> r\<lparr>rl_sessions := (rl_sessions r)(w \<mapsto> s'), rl_sent := rl_sent r @ out\<rparr>))"

definition relay_init :: relay where
  "relay_init = \<lparr>rl_conns = [], rl_sessions = Map.empty, rl_next = 0, rl_sent = [], rl_log = []\<rparr>"

definition relay_run ::
  "jwt_decode \<Rightarrow> (string \<Rightarrow> json option) \<Rightarrow> (instant \<times> relay_input) list \<Rightarrow> relay \<Rightarrow> relay" where
  "relay_run dec loads evs r = fold (relay_event dec loads) evs r"


section \<open>Who is reached\<close>

text \<open>A registered connection belongs to a live session of that node, and every session was opened by
  a token of its node.\<close>

definition opened_by_owner :: "jwt_decode \<Rightarrow> (instant \<times> relay_input) list \<Rightarrow> uuid \<Rightarrow> bool" where
  "opened_by_owner dec evs i \<longleftrightarrow>
     (\<exists>now tok. (now, OpenSocket i (Some tok)) \<in> set evs \<and> authenticate_websocket dec now i (Some tok))"

definition relay_ok :: "jwt_decode \<Rightarrow> (instant \<times> relay_input) list \<times> relay \<Rightarrow> bool" where
  "relay_ok dec h \<longleftrightarrow>
     distinct (map fst (rl_conns (snd h))) \<and>
     (\<forall>i k. (i, k) \<in> set (rl_conns (snd h)) \<longrightarrow>
        (\<exists>s. rl_sessions (snd h) k = Some s \<and> ws_node s = i)) \<and>
     (\<forall>k s. rl_sessions (snd h) k = Some s \<longrightarrow> k < rl_next (snd h) \<and> opened_by_owner dec (fst h) (ws_node s))"

definition relay_step ::
  "jwt_decode \<Rightarrow> (string \<Rightarrow> json option) \<Rightarrow> (instant \<times> relay_input) list \<times> relay \<Rightarrow>
   (instant \<times> relay_input) list \<times> relay \<Rightarrow> bool" where
  "relay_step dec loads h h' \<longleftrightarrow>
     (\<exists>e. h' = (fst h @ [e], relay_event dec loads e (snd h)))"

lemma opened_by_owner_later [intro]:
  "opened_by_owner dec evs i \<Longrightarrow> opened_by_owner dec (evs @ es) i"
  by (auto simp: opened_by_owner_def)

lemma relay_ok_end:
  assumes "relay_ok dec (evs, r)" and "rl_sessions r w = Some s"
  shows "relay_ok dec (evs @ es, end_session w s r)"
proof -
  have "\<exists>t. (rl_sessions (end_session w s r)) k = Some t \<and> ws_node t = i"
    if "(i, k) \<in> set (rl_conns (end_session w s r))" for i k
  proof -
    from that have "i \<noteq> ws_node s" "(i, k) \<in> set (rl_conns r)"
      using cm_entries(2) by (auto simp: end_session_def)
    moreover from this(2) assms(1) obtain t where "rl_sessions r k = Some t" "ws_node t = i"
      by (auto simp: relay_ok_def)
    ultimately show ?thesis using assms(2) by (auto simp: end_session_def)
  qed
  moreover have "distinct (map fst (rl_conns (end_session w s r)))"
    using assms(1) by (simp add: relay_ok_def end_session_def cm_distinct)
  moreover have "k < rl_next (end_session w s r) \<and> opened_by_owner dec (evs @ es) (ws_node t)"
    if "rl_sessions (end_session w s r) k = Some t" for k t
    using that assms(1) by (auto simp: relay_ok_def end_session_def split: if_splits)
  ultimately show ?thesis unfolding relay_ok_def fst_conv snd_conv by blast
qed

lemma relay_ok_replace:
  assumes "relay_ok dec (evs, r)" and "rl_sessions r w = Some s" and "ws_node s' = ws_node s"
  shows "relay_ok dec (evs @ es, r\<lparr>rl_sessions := (rl_sessions r)(w \<mapsto> s')\<rparr>)"
  using assms by (fastforce simp: relay_ok_def split: if_splits)

lemma relay_ok_outputs:
  "relay_ok dec (evs, r\<lparr>rl_sent := x\<rparr>) = relay_ok dec (evs, r)"
  "relay_ok dec (evs, r\<lparr>rl_log := y\<rparr>) = relay_ok dec (evs, r)"
  by (simp_all add: relay_ok_def)

lemma relay_ok_later: "relay_ok dec (evs, r) \<Longrightarrow> relay_ok dec (evs @ es, r)"
  by (auto simp: relay_ok_def)

lemma relay_ok_open:
  assumes ok: "relay_ok dec (evs, r)"
  shows "relay_ok dec (evs @ [(now, OpenSocket i token)], relay_websocket dec now i token r)"
proof (cases "authenticate_websocket dec now i token")
  case False
  with ok show ?thesis
    by (auto simp: relay_ok_def relay_websocket_def Let_def less_SucI)
next
  case True
  then obtain tok where tok: "token = Some tok"
    by (cases token) (auto simp: authenticate_websocket_def)
  let ?r = "relay_websocket dec now i token r"
  have "\<exists>s. rl_sessions ?r k = Some s \<and> ws_node s = j" if "(j, k) \<in> set (rl_conns ?r)" for j k
    using that ok True cm_entries(1) [of j k i "rl_next r" "rl_conns r"]
    by (fastforce simp: relay_ok_def relay_websocket_def Let_def)
  moreover have "distinct (map fst (rl_conns ?r))"
    using ok True by (simp add: relay_ok_def relay_websocket_def Let_def cm_distinct)
  moreover have own: "opened_by_owner dec (evs @ [(now, OpenSocket i token)]) i"
    using True by (auto simp: tok opened_by_owner_def)
  moreover have "k < rl_next ?r \<and> opened_by_owner dec (evs @ [(now, OpenSocket i token)]) (ws_node t)"
    if "rl_sessions ?r k = Some t" for k t
    using that ok True own
    by (auto simp: relay_ok_def relay_websocket_def Let_def less_SucI split: if_splits)
  ultimately show ?thesis unfolding relay_ok_def fst_conv snd_conv by blast
qed

lemma heartbeat_loop_node: "heartbeat_loop now ok w s = (s', out) \<Longrightarrow> ws_node s' = ws_node s"
  by (auto simp: heartbeat_loop_def split: heart.splits if_splits)

lemma relay_ok_event: "relay_ok dec (evs, r) \<Longrightarrow> relay_ok dec (evs @ [e], relay_event dec loads e r)"
proof (induction dec loads e r rule: relay_event.induct)
  case (1 dec loads now i token r)
  then show ?case by (simp add: relay_ok_open)
next
  case (2 dec loads now w f r)
  then show ?case
    by (auto simp: relay_receive_def relay_ok_later relay_ok_end relay_ok_replace relay_ok_outputs
        split: option.splits frame.splits json.splits bool.splits)
next
  case (3 dec loads now w ok r)
  then show ?case
    by (auto simp: relay_ok_later relay_ok_outputs split: option.splits prod.splits
        intro!: relay_ok_replace dest: heartbeat_loop_node)
qed

interpretation rli: step_invariant "\<lambda>h. h = ([], relay_init)" "relay_step dec loads" "relay_ok dec"
proof unfold_locales
  show "h = ([], relay_init) \<Longrightarrow> relay_ok dec h" for h
    by (simp add: relay_ok_def relay_init_def)
  show "relay_ok dec h \<Longrightarrow> relay_step dec loads h h' \<Longrightarrow> relay_ok dec h'" for h h'
    by (cases h) (auto simp: relay_step_def intro: relay_ok_event)
qed

lemma relay_run_reachable:
  "(relay_step dec loads)\<^sup>*\<^sup>* ([], relay_init) (evs, relay_run dec loads evs relay_init)"
proof (induction evs rule: rev_induct)
  case Nil
  show ?case by (simp add: relay_run_def)
next
  case (snoc e evs)
  moreover have "relay_step dec loads (evs, relay_run dec loads evs relay_init)
      (evs @ [e], relay_run dec loads (evs @ [e]) relay_init)"
    by (auto simp: relay_step_def relay_run_def)
  ultimately show ?case by (rule rtranclp.rtrancl_into_rtrancl)
qed

lemma relay_run_ok: "relay_ok dec (evs, relay_run dec loads evs relay_init)"
  by (rule rli.inv_reachable [OF refl relay_run_reachable])



lemma node_token_opens:
  "codec_ok enc dec \<Longrightarrow> unix_seconds t \<le> unix_seconds (now + seconds (24 * 3600)) \<Longrightarrow>
   create_node_token enc now jti i caps \<noteq> '''' \<Longrightarrow>
   authenticate_websocket dec t i (Some (create_node_token enc now jti i caps))"
  by (simp add: authenticate_websocket_def verify_node_token_def create_node_token_def codec_ok_def
      node_claims_def)

definition demo_token :: "uuid \<Rightarrow> string" where
  "demo_token i = create_node_token unary_encode 0 1 i []"

lemma demo_token_opens: "authenticate_websocket unary_decode 0 i (Some (demo_token i))"
  unfolding demo_token_def
  by (rule node_token_opens [OF unary_codec])
     (simp_all add: unix_seconds_def create_node_token_def unary_encode_def)


section \<open>Reconnecting nodes\<close>

text \<open>A node that reconnects before its old socket is noticed gone becomes unreachable. When the
  session of the old socket ends it removes the entry of the node, which by then is the new
  socket's: the new session is still open, yet the node counts as not connected and a message
  for it is refused.\<close>

theorem stale_close_unregisters:
  assumes "rl_sessions r w = Some s" and "rl_sessions r w' = Some s'" and "w \<noteq> w'"
    and "ws_node s = i" and "ws_node s' = i" and "ws_open s'"
  shows "rl_sessions (relay_event dec loads (now, Frame w Gone) r) w' = Some s' \<and>
    \<not> is_connected i (rl_conns (relay_event dec loads (now, Frame w Gone) r)) \<and>
    send_to_node alive i m (rl_conns (relay_event dec loads (now, Frame w Gone) r)) = (Inr False, [])"
  using assms
  by (auto simp: relay_receive_def end_session_def send_to_node_def is_connected_def
      dest: cm_entries(2) split: bool.splits)

text \<open>The node 7 connects twice; then the first socket is closed.\<close>

definition twice_connected :: relay where
  "twice_connected = relay_run unary_decode (\<lambda>_. None)
     [(0, OpenSocket 7 (Some (demo_token 7))), (0, OpenSocket 7 (Some (demo_token 7)))] relay_init"

lemma twice_connected_sessions:
  "rl_sessions twice_connected 0 = Some \<lparr>ws_node = 7, ws_open = True, ws_pong = False, ws_heart = Asleep 30000000\<rparr>"
  "rl_sessions twice_connected 1 = Some \<lparr>ws_node = 7, ws_open = True, ws_pong = False, ws_heart = Asleep 30000000\<rparr>"
  "send_to_node (\<lambda>_. True) 7 JNull (rl_conns twice_connected) = (Inr True, [(1, JNull)])"
  by (simp_all add: twice_connected_def relay_run_def relay_websocket_def Let_def demo_token_opens
      relay_init_def heartbeat_interval_def send_to_node_def)

theorem stale_close_unregisters_witness:
  "send_to_node (\<lambda>_. True) 7 JNull (rl_conns twice_connected) = (Inr True, [(1, JNull)]) \<and>
   send_to_node (\<lambda>_. True) 7 JNull
     (rl_conns (relay_event unary_decode (\<lambda>_. None) (5, Frame 0 Gone) twice_connected)) = (Inr False, [])"
  using stale_close_unregisters [OF twice_connected_sessions(1,2), of 7 unary_decode "\<lambda>_. None" 5
      "\<lambda>_. True" JNull]
  by (simp add: twice_connected_sessions(3))

section \<open>Heartbeats\<close>

text \<open>An event leaves the heartbeat of a session alone: it is about another socket, or it is a frame
  that is no pong.\<close>

fun no_pong :: "(string \<Rightarrow> json option) \<Rightarrow> nat \<Rightarrow> relay_input \<Rightarrow> bool" where
  "no_pong loads w (OpenSocket i token) = True"
| "no_pong loads w (Wake v ok) = (v \<noteq> w)"
| "no_pong loads w (Frame v (TextFrame t)) =
     (v \<noteq> w \<or> (case loads t of
        Some d \<Rightarrow> json_get ''type'' d \<noteq> Some (JStr (relay_type_value HEARTBEAT_PONG)) | None \<Rightarrow> True))"
| "no_pong loads w (Frame v f) = True"

lemma no_pong_step:
  assumes "no_pong loads w ev" and "w < rl_next r" and "rl_sessions r w = None \<or> rl_sessions r w = Some s"
  shows "w < rl_next (relay_event dec loads (now, ev) r) \<and>
    (rl_sessions (relay_event dec loads (now, ev) r) w = None \<or>
     rl_sessions (relay_event dec loads (now, ev) r) w = Some s)"
  using assms
  by (cases ev)
     (auto simp: relay_websocket_def relay_receive_def end_session_def Let_def
       split: option.splits frame.splits bool.splits json.splits prod.splits)

lemma no_pong_run:
  "\<forall>e \<in> set evs. no_pong loads w (snd e) \<Longrightarrow> w < rl_next r \<Longrightarrow>
   rl_sessions r w = None \<or> rl_sessions r w = Some s \<Longrightarrow>
   rl_sessions (relay_run dec loads evs r) w = None \<or> rl_sessions (relay_run dec loads evs r) w = Some s"
proof (induction evs arbitrary: r)
  case Nil
  then show ?case by (simp add: relay_run_def)
next
  case (Cons e evs)
  obtain now ev where e: "e = (now, ev)" by fastforce
  with no_pong_step [of loads w ev r s dec now] Cons show ?case
    by (simp add: relay_run_def)
qed

text \<open>C34: a silent node is dropped. Ninety seconds after a ping went out without a pong, whatever else
  the node sent and whatever other nodes did, the session is over or its socket has been closed
  with code 4002.\<close>

theorem silent_node_closed:
  assumes "rl_sessions r w = Some s" and "ws_heart s = Pinging" and "w < rl_next r"
    and "\<forall>e \<in> set evs. no_pong loads w (snd e)" and "t + seconds heartbeat_timeout \<le> t'"
  shows "let r' = relay_run dec loads ((t, Wake w ok) # evs @ [(t', Wake w True)]) r
    in rl_sessions r' w = None \<or>
       (\<exists>s'. rl_sessions r' w = Some s' \<and> \<not> ws_open s' \<and> SentClose w close_heartbeat_timeout \<in> set (rl_sent r'))"
proof -
  let ?r1 = "relay_event dec loads (t, Wake w ok) r"
  let ?s1 = "s\<lparr>ws_pong := False, ws_heart := AwaitPong (t + seconds heartbeat_timeout)\<rparr>"
  let ?r2 = "relay_run dec loads evs ?r1"
  have "rl_sessions ?r1 w = Some ?s1" "w < rl_next ?r1"
    using assms(1-3) by (simp_all add: heartbeat_loop_def)
  then have "rl_sessions ?r2 w = None \<or> rl_sessions ?r2 w = Some ?s1"
    using no_pong_run [OF assms(4), of ?r1 ?s1 dec] by simp
  moreover have "relay_run dec loads ((t, Wake w ok) # evs @ [(t', Wake w True)]) r =
      relay_event dec loads (t', Wake w True) ?r2"
    by (simp add: relay_run_def)
  ultimately show ?thesis
    using assms(5) by (auto simp: heartbeat_loop_def Let_def)
qed

definition pinged :: relay where
  "pinged = relay_run unary_decode (\<lambda>_. None)
     [(0, OpenSocket 7 (Some (demo_token 7))), (30000000, Wake 0 True)] relay_init"

lemma pinged_facts:
  "rl_sessions pinged 0 = Some \<lparr>ws_node = 7, ws_open = True, ws_pong = False, ws_heart = Pinging\<rparr>"
  "rl_next pinged = 1" "rl_sent pinged = [SentJson 0 ping_json]" "rl_conns pinged = [(7, 0)]"
  by (simp_all add: pinged_def relay_run_def relay_websocket_def Let_def demo_token_opens
      relay_init_def heartbeat_interval_def heartbeat_loop_def cm_connect_def)

theorem silent_node_closed_witness:
  "rl_sessions (relay_run unary_decode (\<lambda>_. None)
      [(30000001, Wake 0 True), (31000000, OpenSocket 8 None), (120000001, Wake 0 True)] pinged) 0 = None \<or>
   SentClose 0 4002 \<in> set (rl_sent (relay_run unary_decode (\<lambda>_. None)
      [(30000001, Wake 0 True), (31000000, OpenSocket 8 None), (120000001, Wake 0 True)] pinged))"
  using silent_node_closed [OF pinged_facts(1), of "[(31000000, OpenSocket 8 None)]" "\<lambda>_. None"
      30000001 120000001 unary_decode True]
  by (auto simp: pinged_facts(2) heartbeat_timeout_def close_heartbeat_timeout_def Let_def)

text \<open>A pong that is handled while the ping is still being sent is lost. The flag it sets is
  cleared after the send, so the node that answered at once is closed as silent 90 seconds later
  unless it sends another pong.\<close>

theorem early_pong_lost:
  assumes "rl_sessions r w = Some s" and "ws_heart s = Pinging" and "ws_open s" and "w < rl_next r"
    and "loads pong = Some (JObj [(''type'', JStr ''heartbeat_pong''), (''payload'', JObj [])])"
    and "t + seconds heartbeat_timeout \<le> t'"
  shows "let r' = relay_run dec loads [(t, Frame w (TextFrame pong)), (t, Wake w True), (t', Wake w True)] r
    in SentClose w close_heartbeat_timeout \<in> set (rl_sent r') \<and>
       (\<exists>s'. rl_sessions r' w = Some s' \<and> \<not> ws_open s')"
  using assms
  by (simp add: relay_run_def relay_receive_def heartbeat_loop_def Let_def)

theorem early_pong_lost_witness:
  "SentClose 0 4002 \<in> set (rl_sent (relay_run unary_decode
      (\<lambda>_. Some (JObj [(''type'', JStr ''heartbeat_pong''), (''payload'', JObj [])]))
      [(30000001, Frame 0 (TextFrame ''p'')), (30000001, Wake 0 True), (120000001, Wake 0 True)] pinged))"
  using early_pong_lost [OF pinged_facts(1), of "\<lambda>_. Some (JObj [(''type'', JStr ''heartbeat_pong''), (''payload'', JObj [])])"
      "''p''" 30000001 120000001 unary_decode]
  by (simp add: pinged_facts(2) heartbeat_timeout_def close_heartbeat_timeout_def Let_def)

end
