(* ===== verification/Workers.thy ===== *)
theory Workers
  imports Py_Strings "HOL-Library.Char_ord" "HOL-Library.List_Lexorder"
begin

text \<open>
  The worker side of an edge node: the plugins of \<^verbatim>\<open>edgekit/workers/plugins/\<close> and the executor of
  \<^verbatim>\<open>edgekit/workers/executor.py\<close>.

  A plugin's \<open>execute\<close> either awaits for a time before its outcome, or never suspends (\<open>Blocks\<close>):
  \<open>asyncio.wait_for\<close> can only interrupt the first kind. The relay the executor reports to is a
  parameter \<open>send\<close> over a state of its own. \<open>py_str\<close> and \<open>py_repr\<close> print decoded values that are no
  strings, \<open>dumps\<close> is \<open>json.dumps\<close>. The floats NaN and infinity, which Python's JSON reader
  accepts, are not values of \<open>json\<close>.
\<close>

section \<open>Plugins\<close>

record worker_result =
  wr_success :: bool
  wr_result_ref :: "string option"
  wr_error :: "string option"

datatype outcome = Result worker_result | RaisesTimeout | Raises string

datatype plugin_run = Awaits rat outcome | Blocks outcome

record plugin =
  pl_job_type :: string
  pl_name :: string
  pl_execute :: "uuid \<Rightarrow> json \<Rightarrow> plugin_run"

definition echo_execute :: "(json \<Rightarrow> string) \<Rightarrow> (json \<Rightarrow> string) \<Rightarrow> uuid \<Rightarrow> json \<Rightarrow> plugin_run" where
  "echo_execute py_str dumps job_id payload =
     (let echo_content = (case json_get ''message'' payload of
            Some m \<Rightarrow> str_of py_str m
          | None \<Rightarrow> dumps payload)
      in Blocks (Result \<lparr>wr_success = True, wr_result_ref = Some echo_content, wr_error = None\<rparr>))"

definition echo_plugin :: "(json \<Rightarrow> string) \<Rightarrow> (json \<Rightarrow> string) \<Rightarrow> plugin" where
  "echo_plugin py_str dumps =
     \<lparr>pl_job_type = ''echo'', pl_name = ''EchoPlugin'', pl_execute = echo_execute py_str dumps\<rparr>"

section \<open>The prime sieve\<close>

text \<open>\<open>math.isqrt\<close>, and the assignment of zeros to the slice \<open>xs[start::step]\<close>.\<close>

definition isqrt :: "nat \<Rightarrow> nat" where
  "isqrt n = length (takeWhile (\<lambda>m. m * m \<le> n) [1..<Suc n])"

definition zero_slice :: "nat \<Rightarrow> nat \<Rightarrow> bool list \<Rightarrow> bool list" where
  "zero_slice start stride xs =
     map (\<lambda>k. if start \<le> k \<and> (k - start) mod stride = 0 then False else xs ! k) [0..<length xs]"

definition sieve_step :: "nat \<Rightarrow> bool list \<Rightarrow> bool list" where
  "sieve_step i is_prime = (if is_prime ! i then zero_slice (i * i) i is_prime else is_prime)"

definition sieve_of_eratosthenes :: "nat \<Rightarrow> nat" where
  "sieve_of_eratosthenes limit =
     (if limit < 2 then 0
      else let is_prime = (replicate (limit + 1) True)[0 := False, 1 := False]
           in length (filter id (fold sieve_step [2..<isqrt limit + 1] is_prime)))"

definition max_limit :: int where "max_limit = 10000000"
definition default_limit :: int where "default_limit = 100000"

definition cpu_execute ::
  "(json \<Rightarrow> string) \<Rightarrow> (json \<Rightarrow> string) \<Rightarrow> rat \<Rightarrow> uuid \<Rightarrow> json \<Rightarrow> plugin_run" where
  "cpu_execute py_repr dumps duration job_id payload =
     (let raw_limit = (case json_get ''limit'' payload of Some v \<Rightarrow> v | None \<Rightarrow> JNum (of_int default_limit));
          failure = (\<lambda>msg. Blocks (Result \<lparr>wr_success = False, wr_result_ref = None, wr_error = Some msg\<rparr>))
      in case py_int raw_limit of
           None \<Rightarrow> failure (''Invalid limit value: '' @ py_repr raw_limit @ '' (must be a positive integer)'')
         | Some limit \<Rightarrow>
             if limit < 2 then failure (''Limit must be >= 2, got '' @ show_int limit)
             else if max_limit < limit
             then failure (''Limit '' @ show_int limit @ '' exceeds maximum allowed value of '' @ show_int max_limit)
             else Blocks (Result
               \<lparr>wr_success = True,
                wr_result_ref = Some (dumps (JObj
                  [(''job_id'', JStr (uuid_str job_id)),
                   (''primes_found'', JNum (of_nat (sieve_of_eratosthenes (nat limit)))),
                   (''limit'', JNum (of_int limit)), (''duration_seconds'', JNum duration)])),
                wr_error = None\<rparr>))"

definition cpu_benchmark_plugin :: "(json \<Rightarrow> string) \<Rightarrow> (json \<Rightarrow> string) \<Rightarrow> rat \<Rightarrow> plugin" where
  "cpu_benchmark_plugin py_repr dumps duration =
     \<lparr>pl_job_type = ''cpu_benchmark'', pl_name = ''CpuBenchmarkPlugin'',
      pl_execute = cpu_execute py_repr dumps duration\<rparr>"

section \<open>The executor\<close>

record executor =
  ex_timeout :: rat
  ex_max_memory_bytes :: int
  ex_max_cpu_seconds :: int
  ex_plugins :: "(string \<times> plugin) list"

fun register_plugins :: "plugin list \<Rightarrow> (string \<times> plugin) list \<Rightarrow> py_exc + (string \<times> plugin) list" where
  "register_plugins [] reg = Inr reg"
| "register_plugins (p # ps) reg =
     (case map_of reg (pl_job_type p) of
        Some q \<Rightarrow> Inl (ValueError (''Duplicate job_type '' @ [CHR 39] @ pl_job_type p @ [CHR 39] @
          '' registered by '' @ pl_name p @ '' (already registered by '' @ pl_name q @ '')''))
      | None \<Rightarrow> register_plugins ps (reg @ [(pl_job_type p, p)]))"

definition make_executor :: "plugin list \<Rightarrow> rat \<Rightarrow> int \<Rightarrow> int \<Rightarrow> py_exc + executor" where
  "make_executor plugins timeout max_memory_bytes max_cpu_seconds =
     err_bind (register_plugins plugins [])
       (\<lambda>reg. Inr \<lparr>ex_timeout = timeout, ex_max_memory_bytes = max_memory_bytes,
                   ex_max_cpu_seconds = max_cpu_seconds, ex_plugins = reg\<rparr>)"

definition registered_job_types :: "executor \<Rightarrow> string list" where
  "registered_job_types ex = sort (map fst (ex_plugins ex))"

text \<open>The process's limits on its address space and CPU time, as soft and hard values (no value:
  unlimited). A soft value above the hard one is refused.\<close>

record rlimits =
  rl_as :: "int option \<times> int option"
  rl_cpu :: "int option \<times> int option"

definition set_soft :: "int \<Rightarrow> int option \<times> int option \<Rightarrow> int option \<times> int option" where
  "set_soft n lm =
     (case snd lm of
        Some h \<Rightarrow> if h < n then lm else (Some n, snd lm)
      | None \<Rightarrow> (Some n, snd lm))"

definition apply_resource_limits :: "executor \<Rightarrow> rlimits \<Rightarrow> rlimits" where
  "apply_resource_limits ex l =
     l\<lparr>rl_as := set_soft (ex_max_memory_bytes ex) (rl_as l),
       rl_cpu := set_soft (ex_max_cpu_seconds ex) (rl_cpu l)\<rparr>"

text \<open>\<open>asyncio.wait_for(plugin.execute(...), timeout)\<close>.\<close>

definition wait_for :: "rat \<Rightarrow> plugin_run \<Rightarrow> outcome" where
  "wait_for timeout run =
     (if timeout \<le> 0 then RaisesTimeout
      else case run of
        Blocks out \<Rightarrow> out
      | Awaits d out \<Rightarrow> if timeout < d then RaisesTimeout else out)"

text \<open>A status update: job, status, progress, detail. A send that raises is logged and ignored.\<close>

type_synonym status_call = "uuid \<times> string \<times> rat option \<times> string option"
type_synonym 'w status_sender = "status_call \<Rightarrow> 'w \<Rightarrow> (py_exc + unit) \<times> 'w"

definition send_status :: "'w status_sender \<Rightarrow> status_call \<Rightarrow> 'w \<Rightarrow> 'w" where
  "send_status send c w = snd (send c w)"

text \<open>The plugin a job type selects: \<open>dict.get\<close> raises on a list or an object.\<close>

fun plugin_for :: "executor \<Rightarrow> json \<Rightarrow> py_exc + plugin option" where
  "plugin_for ex (JStr s) = Inr (map_of (ex_plugins ex) s)"
| "plugin_for ex (JArr xs) = Inl (OtherError ''TypeError'')"
| "plugin_for ex (JObj kvs) = Inl (OtherError ''TypeError'')"
| "plugin_for ex j = Inr None"

definition handle_job ::
  "(json \<Rightarrow> string) \<Rightarrow> executor \<Rightarrow> 'w status_sender \<Rightarrow> json \<Rightarrow> rlimits \<times> 'w \<Rightarrow> (py_exc + unit) \<times> rlimits \<times> 'w" where
  "handle_job py_str ex send job_data st =
     (let (l, w) = st
      in case json_get ''job_id'' job_data of
        None \<Rightarrow> (Inr (), l, w)
      | Some JNull \<Rightarrow> (Inr (), l, w)
      | Some raw_job_id \<Rightarrow>
          (case uuid_parse (str_of py_str raw_job_id) of
             None \<Rightarrow> (Inr (), l, w)
           | Some job_id \<Rightarrow>
               (let job_type = (case json_get ''job_type'' job_data of Some v \<Rightarrow> v | None \<Rightarrow> JNull)
                in if \<not> json_truthy job_type
                   then (Inr (), l, send_status send (job_id, ''failed'', None, Some ''Missing job_type in job data'') w)
                   else case plugin_for ex job_type of
                     Inl x \<Rightarrow> (Inl x, l, w)
                   | Inr None \<Rightarrow>
                       (Inr (), l, send_status send
                          (job_id, ''failed'', None, Some (''Unknown job_type: '' @ str_of py_str job_type)) w)
                   | Inr (Some plugin) \<Rightarrow>
                       (let w1 = send_status send (job_id, ''running'', None, None) w;
                            l1 = apply_resource_limits ex l
                        in case wait_for (ex_timeout ex) (pl_execute plugin job_id job_data) of
                             RaisesTimeout \<Rightarrow>
                               (Inr (), l1, send_status send (job_id, ''failed'', None,
                                  Some (''Job timed out after '' @ py_str (JNum (ex_timeout ex)) @ ''s'')) w1)
                           | Raises exc \<Rightarrow>
                               (Inr (), l1, send_status send (job_id, ''failed'', None,
                                  Some (''Plugin raised exception: '' @ exc)) w1)
                           | Result result \<Rightarrow>
                               if wr_success result
                               then (Inr (), l1, send_status send
                                      (job_id, ''completed'', Some 1, wr_result_ref result) w1)
                               else (Inr (), l1, send_status send
                                      (job_id, ''failed'', None, wr_error result) w1)))))"


section \<open>The sieve counts the primes\<close>

definition prime_number :: "nat \<Rightarrow> bool" where
  "prime_number p \<longleftrightarrow> 1 < p \<and> (\<forall>m. m dvd p \<longrightarrow> m = 1 \<or> m = p)"

lemma isqrt_iff: "i \<le> isqrt n \<longleftrightarrow> i * i \<le> n"
proof -
  have take: "takeWhile (\<lambda>m. m * m \<le> n) [a..<b] = [a..<Suc r]"
    if "a \<le> Suc r" "r < b" "r * r \<le> n" "n < Suc r * Suc r" "b \<noteq> Suc r \<longrightarrow> Suc r < b" for a b r
  proof -
    have sp: "[a..<b] = [a..<Suc r] @ [Suc r..<b]"
      using that by (metis Suc_leI le_add_diff_inverse upt_add_eq_append)
    have "\<forall>m \<in> set [a..<Suc r]. m * m \<le> n"
      using that(3) by (auto simp: less_Suc_eq_le intro: le_trans [OF mult_le_mono [of _ r _ r]])
    moreover have "takeWhile (\<lambda>m. m * m \<le> n) [Suc r..<b] = []"
      using that(4) by (cases "Suc r < b") (auto simp: upt_rec)
    ultimately show ?thesis unfolding sp by (subst takeWhile_append2) (simp_all del: upt_Suc)
  qed
  define r where "r = (GREATEST m. m * m \<le> n)"
  have bound: "m * m \<le> n \<Longrightarrow> m \<le> n" for m by (cases m) auto
  have r: "r * r \<le> n"
    unfolding r_def by (rule GreatestI_nat [of _ 0 n]) (auto dest: bound)
  have up: "m * m \<le> n \<Longrightarrow> m \<le> r" for m
    unfolding r_def by (rule Greatest_le_nat [of _ m n]) (auto dest: bound)
  have s: "n < Suc r * Suc r" using up [of "Suc r"] by (meson not_less_eq_eq not_le order_refl)
  have "isqrt n = r"
    using take [of 1 r "Suc n"] r s bound [OF r] by (simp add: isqrt_def del: upt_Suc)
  moreover have "i \<le> r \<longleftrightarrow> i * i \<le> n"
    using up r by (meson le_trans mult_le_mono)
  ultimately show ?thesis by simp
qed

text \<open>The flags when the candidates below \<open>j\<close> have been struck.\<close>

definition struck :: "nat \<Rightarrow> nat \<Rightarrow> bool list \<Rightarrow> bool" where
  "struck limit j xs \<longleftrightarrow> length xs = limit + 1 \<and>
     (\<forall>k \<le> limit. xs ! k \<longleftrightarrow> 2 \<le> k \<and> (\<forall>i. 2 \<le> i \<and> i < j \<longrightarrow> \<not> (i dvd k \<and> i * i \<le> k)))"

lemma struck_init: "2 \<le> limit \<Longrightarrow> struck limit 2 ((replicate (limit + 1) True)[0 := False, 1 := False])"
  by (auto simp: struck_def nth_list_update less_Suc_eq_le simp del: replicate_Suc)

lemma length_zero_slice [simp]: "length (zero_slice a i xs) = length xs"
  by (simp add: zero_slice_def)

lemma zero_slice_nth:
  "k < length xs \<Longrightarrow> 0 < i \<Longrightarrow> zero_slice (i * i) i xs ! k \<longleftrightarrow> xs ! k \<and> \<not> (i dvd k \<and> i * i \<le> k)"
proof -
  have "i dvd k - i * i \<longleftrightarrow> i dvd k" if "i * i \<le> k"
    using that by (metis dvd_diff_nat dvd_diffD dvd_triv_left)
  then show "k < length xs \<Longrightarrow> ?thesis"
    by (auto simp: zero_slice_def mod_eq_0_iff_dvd)
qed

lemma struck_step:
  assumes "struck limit j xs" and "2 \<le> j" and "j \<le> limit"
  shows "struck limit (Suc j) (sieve_step j xs)"
proof (cases "xs ! j")
  case True
  then have "sieve_step j xs = zero_slice (j * j) j xs" by (simp add: sieve_step_def)
  moreover have "zero_slice (j * j) j xs ! k \<longleftrightarrow> xs ! k \<and> \<not> (j dvd k \<and> j * j \<le> k)" if "k \<le> limit" for k
    using that assms by (intro zero_slice_nth) (auto simp: struck_def)
  ultimately show ?thesis
    using assms(1,2) by (auto simp: struck_def less_Suc_eq)
next
  case False
  then obtain i where i: "2 \<le> i" "i < j" "i dvd j" "i * i \<le> j"
    using assms by (auto simp: struck_def)
  have "\<exists>i. 2 \<le> i \<and> i < j \<and> i dvd k \<and> i * i \<le> k" if "j dvd k" "j * j \<le> k" for k
  proof -
    have "j \<le> j * j" by simp
    then show ?thesis using i that by (meson dvd_trans le_trans)
  qed
  with False show ?thesis
    using assms by (auto simp: struck_def sieve_step_def less_Suc_eq)
qed

lemma struck_fold:
  "struck limit 2 xs \<Longrightarrow> n \<le> limit \<Longrightarrow> struck limit (2 + (n - 1)) (fold sieve_step [2..<n + 1] xs)"
proof (induction n)
  case 0
  then show ?case by simp
next
  case (Suc n)
  show ?case
  proof (cases "n = 0")
    case True
    with Suc.prems show ?thesis by simp
  next
    case False
    then have "struck limit (Suc n) (fold sieve_step [2..<Suc n] xs)" using Suc by simp
    then have "struck limit (Suc (Suc n)) (sieve_step (Suc n) (fold sieve_step [2..<Suc n] xs))"
      using False Suc.prems(2) by (intro struck_step) auto
    with False show ?thesis by simp
  qed
qed

lemma prime_by_trial:
  assumes "2 \<le> k" and "k \<le> limit"
  shows "(\<forall>i. 2 \<le> i \<and> i < isqrt limit + 1 \<longrightarrow> \<not> (i dvd k \<and> i * i \<le> k)) \<longleftrightarrow> prime_number k"
proof
  assume none: "\<forall>i. 2 \<le> i \<and> i < isqrt limit + 1 \<longrightarrow> \<not> (i dvd k \<and> i * i \<le> k)"
  have small: False if "2 \<le> d" "d dvd k" "d * d \<le> k" for d
    using none that assms(2) isqrt_iff [of d limit] by (auto simp: less_Suc_eq_le)
  show "prime_number k" unfolding prime_number_def
  proof (intro conjI allI impI)
    show "1 < k" using assms by simp
    fix m assume m: "m dvd k"
    then obtain e where e: "k = m * e" by (elim dvdE)
    with assms(1) have nz: "m \<noteq> 0" "e \<noteq> 0" by (auto intro: ccontr)
    show "m = 1 \<or> m = k"
    proof (rule ccontr)
      assume c: "\<not> (m = 1 \<or> m = k)"
      with e nz have ge: "2 \<le> m" "2 \<le> e" by (auto intro: ccontr simp: not_le less_2_cases_iff)
      have "e dvd k" using e by simp
      show False
      proof (cases "m \<le> e")
        case True
        then have "m * m \<le> k" using e by simp
        with small [OF ge(1) m] show False by blast
      next
        case False
        then have "e * e \<le> k" using e by simp
        with small [OF ge(2) \<open>e dvd k\<close>] show False by blast
      qed
    qed
  qed
next
  assume p: "prime_number k"
  show "\<forall>i. 2 \<le> i \<and> i < isqrt limit + 1 \<longrightarrow> \<not> (i dvd k \<and> i * i \<le> k)"
  proof (intro allI impI notI)
    fix i assume "2 \<le> i \<and> i < isqrt limit + 1" and "i dvd k \<and> i * i \<le> k"
    with p have "i = k" "2 \<le> i" "i * i \<le> k" by (auto simp: prime_number_def)
    then have "k * k \<le> k" "2 \<le> k" by auto
    then show False by (metis mult_le_cancel2 not_numeral_le_zero numeral_le_one_iff le_zero_eq mult.right_neutral mult_is_0 nat_mult_le_cancel1 not_gr_zero semiring_norm(69) le_trans)
  qed
qed

lemma sieve_count:
  "sieve_of_eratosthenes limit = card {p. prime_number p \<and> p \<le> limit}"
proof (cases "limit < 2")
  case True
  then have "{p. prime_number p \<and> p \<le> limit} = {}" by (auto simp: prime_number_def)
  with True show ?thesis by (simp add: sieve_of_eratosthenes_def)
next
  case False
  define xs where "xs = fold sieve_step [2..<isqrt limit + 1] ((replicate (limit + 1) True)[0 := False, 1 := False])"
  have r: "isqrt limit \<le> limit" "1 \<le> isqrt limit"
    using isqrt_iff [of "isqrt limit" limit] isqrt_iff [of 1 limit] False
    by (auto intro: le_trans [OF _ le_square [of "isqrt limit"]]) (metis le_square le_trans)
  have "struck limit (2 + (isqrt limit - 1)) xs"
    unfolding xs_def using False r(1) by (intro struck_fold struck_init) auto
  moreover have "2 + (isqrt limit - 1) = isqrt limit + 1" using r(2) by simp
  ultimately have st: "struck limit (isqrt limit + 1) xs" by metis
  have flag: "xs ! k \<longleftrightarrow> prime_number k" if "k \<le> limit" for k
  proof (cases "2 \<le> k")
    case True
    then show ?thesis using st that prime_by_trial [OF True that] by (simp add: struck_def)
  next
    case False
    then show ?thesis using st that by (simp add: struck_def prime_number_def)
  qed
  have "sieve_of_eratosthenes limit = length (filter id xs)"
    using False by (simp add: sieve_of_eratosthenes_def xs_def Let_def)
  also have "\<dots> = card {k. k < length xs \<and> id (xs ! k)}" by (rule length_filter_conv_card)
  also have "{k. k < length xs \<and> id (xs ! k)} = {p. prime_number p \<and> p \<le> limit}"
    using st flag by (auto simp: struck_def less_Suc_eq_le)
  finally show ?thesis .
qed


text \<open>C37: the benchmark's sieve is right. For every limit it returns the number of primes up to and
  including the limit.\<close>

theorem sieve_counts_primes:
  "sieve_of_eratosthenes limit = card {p. prime_number p \<and> p \<le> limit}"
  by (rule sieve_count)

section \<open>What a node reports about a job\<close>

lemma register_plugins_distinct:
  "register_plugins ps reg = Inr reg' \<Longrightarrow> distinct (map fst reg) \<Longrightarrow>
   distinct (map fst reg') \<and> (\<forall>p \<in> set ps. map_of reg' (pl_job_type p) = Some p) \<and>
   (\<forall>k v. map_of reg k = Some v \<longrightarrow> map_of reg' k = Some v) \<and> length reg' = length reg + length ps"
proof (induction ps arbitrary: reg)
  case Nil
  then show ?case by simp
next
  case (Cons p ps)
  then have new: "map_of reg (pl_job_type p) = None"
    and go: "register_plugins ps (reg @ [(pl_job_type p, p)]) = Inr reg'"
    by (auto split: option.splits)
  have "distinct (map fst (reg @ [(pl_job_type p, p)]))"
    using Cons.prems(2) new by (auto simp: map_of_eq_None_iff)
  note ih = Cons.IH [OF go this]
  have "map_of (reg @ [(pl_job_type p, p)]) (pl_job_type p) = Some p"
    using new by (simp add: map_add_def)
  with ih have "map_of reg' (pl_job_type p) = Some p" by blast
  moreover have "map_of reg' k = Some v" if "map_of reg k = Some v" for k v
    using ih that new by (auto simp: map_add_def split: option.splits if_splits)
  moreover have "length reg' = length reg + length (p # ps)" "distinct (map fst reg')"
    using ih by simp_all
  ultimately show ?case using ih by (metis set_ConsD)
qed

lemma make_executor_lookup:
  "make_executor ps t mem cpu = Inr ex \<Longrightarrow> p \<in> set ps \<Longrightarrow>
   map_of (ex_plugins ex) (pl_job_type p) = Some p \<and> ex_timeout ex = t"
  using register_plugins_distinct [of ps "[]"]
  by (auto simp: make_executor_def err_bind_Inr)

text \<open>The report that ends a job.\<close>

definition final_report :: "(json \<Rightarrow> string) \<Rightarrow> rat \<Rightarrow> uuid \<Rightarrow> outcome \<Rightarrow> status_call" where
  "final_report py_str timeout i out =
     (case out of
        RaisesTimeout \<Rightarrow> (i, ''failed'', None, Some (''Job timed out after '' @ py_str (JNum timeout) @ ''s''))
      | Raises exc \<Rightarrow> (i, ''failed'', None, Some (''Plugin raised exception: '' @ exc))
      | Result r \<Rightarrow>
          if wr_success r then (i, ''completed'', Some 1, wr_result_ref r)
          else (i, ''failed'', None, wr_error r))"

lemma final_report_job [simp]: "fst (final_report py_str t i out) = i"
  by (simp add: final_report_def split: outcome.splits)

lemma handle_job_plugin:
  assumes "json_get ''job_id'' data = Some (JStr s)" and "uuid_parse s = Some i"
    and "json_get ''job_type'' data = Some (JStr ty)" and "ty \<noteq> ''''"
    and "map_of (ex_plugins ex) ty = Some p"
  shows "handle_job py_str ex send data (l, w) =
    (Inr (), apply_resource_limits ex l,
     send_status send (final_report py_str (ex_timeout ex) i (wait_for (ex_timeout ex) (pl_execute p i data)))
       (send_status send (i, ''running'', None, None) w))"
  using assms
  by (simp add: handle_job_def final_report_def str_of_def Let_def split: outcome.splits)

text \<open>A job that reaches its plugin is reported twice, whatever the plugin does and whether or
  not the reports get through: first as running, then once more, as completed with the plugin's
  result when the plugin succeeded in time, and as failed when it reported failure, raised, or
  overran the timeout. No exception leaves the handler.\<close>

theorem handle_job_reports:
  assumes "json_get ''job_id'' data = Some (JStr s)" and "uuid_parse s = Some i"
    and "json_get ''job_type'' data = Some (JStr ty)" and "ty \<noteq> ''''"
    and "map_of (ex_plugins ex) ty = Some p"
  shows "\<exists>final. handle_job py_str ex send data (l, w) =
      (Inr (), apply_resource_limits ex l,
       send_status send (i, final) (send_status send (i, ''running'', None, None) w)) \<and>
    (case wait_for (ex_timeout ex) (pl_execute p i data) of
       Result r \<Rightarrow> if wr_success r then final = (''completed'', Some 1, wr_result_ref r)
                   else final = (''failed'', None, wr_error r)
     | Raises exc \<Rightarrow> final = (''failed'', None, Some (''Plugin raised exception: '' @ exc))
     | RaisesTimeout \<Rightarrow>
         final = (''failed'', None, Some (''Job timed out after '' @ py_str (JNum (ex_timeout ex)) @ ''s'')))"
  unfolding handle_job_plugin [OF assms]
  by (cases "wait_for (ex_timeout ex) (pl_execute p i data)") (auto simp: final_report_def)

text \<open>A sender that keeps what it is given, and one that always raises.\<close>

definition recording :: "status_call list status_sender" where
  "recording c w = (Inr (), w @ [c])"

definition demo_assignment :: "string \<Rightarrow> json" where
  "demo_assignment ty = JObj [(''type'', JStr ''job_assign''), (''job_id'', JStr (uuid_str 7)),
     (''job_type'', JStr ty), (''message'', JStr ''hi'')]"

definition demo_executor :: executor where
  "demo_executor =
     \<lparr>ex_timeout = 300, ex_max_memory_bytes = 2147483648, ex_max_cpu_seconds = 600,
      ex_plugins = [(''echo'', echo_plugin (\<lambda>_. ''1'') (\<lambda>_. ''d'')),
        (''slow'', \<lparr>pl_job_type = ''slow'', pl_name = ''Slow'', pl_execute = \<lambda>_ _. Awaits 301 RaisesTimeout\<rparr>)]\<rparr>"

lemma demo_executor_made:
  "make_executor [echo_plugin (\<lambda>_. ''1'') (\<lambda>_. ''d''),
     \<lparr>pl_job_type = ''slow'', pl_name = ''Slow'', pl_execute = \<lambda>_ _. Awaits 301 RaisesTimeout\<rparr>]
     300 2147483648 600 = Inr demo_executor"
  by (simp add: make_executor_def demo_executor_def echo_plugin_def)

lemma demo_assignment_keys:
  "json_get ''job_id'' (demo_assignment ty) = Some (JStr (uuid_str 7))"
  "json_get ''job_type'' (demo_assignment ty) = Some (JStr ty)"
  "json_get ''message'' (demo_assignment ty) = Some (JStr ''hi'')"
  by (simp_all add: demo_assignment_def)

theorem handle_job_reports_witness:
  "\<exists>l. handle_job (\<lambda>_. ''300'') demo_executor recording (demo_assignment ''echo'') (\<lparr>rl_as = (None, None), rl_cpu = (None, None)\<rparr>, []) =
     (Inr (), l, [(7, ''running'', None, None), (7, ''completed'', Some 1, Some ''hi'')])"
  using handle_job_reports [OF demo_assignment_keys(1) uuid_parse_str demo_assignment_keys(2) [of "''echo''"],
      of demo_executor "echo_plugin (\<lambda>_. ''1'') (\<lambda>_. ''d'')" "\<lambda>_. ''300''" recording
      "\<lparr>rl_as = (None, None), rl_cpu = (None, None)\<rparr>" "[]"]
  by (auto simp: demo_executor_def echo_plugin_def wait_for_def echo_execute_def demo_assignment_keys str_of_def
      send_status_def recording_def)

text \<open>The timeout does not bind the CPU benchmark. It never suspends, so \<open>wait_for\<close> has no point
  at which to interrupt it: under every positive timeout, however short, an accepted limit is
  sieved to the end and the job is reported completed with the number of primes.\<close>

theorem benchmark_ignores_timeout:
  assumes "make_executor ps t mem cpu = Inr ex" and "cpu_benchmark_plugin py_repr dumps duration \<in> set ps"
    and "0 < t"
    and "json_get ''job_id'' data = Some (JStr s)" and "uuid_parse s = Some i"
    and "json_get ''job_type'' data = Some (JStr ''cpu_benchmark'')"
    and "json_get ''limit'' data = Some (JNum (of_int n))" and "2 \<le> n" and "n \<le> 10000000"
  shows "handle_job py_str ex send data (l, w) =
    (Inr (), apply_resource_limits ex l,
     send_status send (i, ''completed'', Some 1, Some (dumps (JObj
         [(''job_id'', JStr (uuid_str i)),
          (''primes_found'', JNum (of_nat (card {p. prime_number p \<and> p \<le> nat n}))),
          (''limit'', JNum (of_int n)), (''duration_seconds'', JNum duration)])))
       (send_status send (i, ''running'', None, None) w))"
proof -
  let ?p = "cpu_benchmark_plugin py_repr dumps duration"
  have p: "map_of (ex_plugins ex) ''cpu_benchmark'' = Some ?p" "ex_timeout ex = t"
    using make_executor_lookup [OF assms(1,2)] by (simp_all add: cpu_benchmark_plugin_def)
  have n: "py_int (JNum (of_int n)) = Some n" using assms(8) by simp
  have s: "sieve_of_eratosthenes (nat n) = card {p. prime_number p \<and> p \<le> nat n}"
    by (rule sieve_count)
  show ?thesis
    unfolding handle_job_plugin [OF assms(4,5,6) _ p(1), simplified]
    using assms(3,7,8,9) n
    by (simp add: p(2) cpu_benchmark_plugin_def cpu_execute_def wait_for_def max_limit_def
        final_report_def s del: py_int.simps)
qed

definition bench_job :: json where
  "bench_job = JObj [(''job_id'', JStr (uuid_str 7)), (''job_type'', JStr ''cpu_benchmark''), (''limit'', JNum 2)]"

theorem benchmark_ignores_timeout_witness:
  "\<exists>ex l. make_executor [cpu_benchmark_plugin (\<lambda>_. '''') (\<lambda>_. ''out'') 9] (1/1000) 1 1 = Inr ex \<and>
     handle_job (\<lambda>_. '''') ex recording bench_job (\<lparr>rl_as = (None, None), rl_cpu = (None, None)\<rparr>, []) =
     (Inr (), l, [(7, ''running'', None, None), (7, ''completed'', Some 1, Some ''out'')])"
proof -
  obtain ex where ex: "make_executor [cpu_benchmark_plugin (\<lambda>_. '''') (\<lambda>_. ''out'') 9] (1/1000) 1 1 = Inr ex"
    by (simp add: make_executor_def)
  have "handle_job (\<lambda>_. '''') ex recording bench_job (\<lparr>rl_as = (None, None), rl_cpu = (None, None)\<rparr>, []) =
     (Inr (), apply_resource_limits ex \<lparr>rl_as = (None, None), rl_cpu = (None, None)\<rparr>,
      send_status recording (7, ''completed'', Some 1, Some ''out'')
       (send_status recording (7, ''running'', None, None) []))"
    by (rule benchmark_ignores_timeout [where n = 2 and s = "uuid_str 7", OF ex]) (simp_all add: bench_job_def)
  with ex show ?thesis by (auto simp: send_status_def recording_def)
qed

end
