(* ===== verification/Edge_Client.thy ===== *)
theory Edge_Client
  imports Workers
begin

text \<open>
  The relay client of an edge node, \<^verbatim>\<open>edgekit/relay/client.py\<close>: its connection state, the two
  messages it sends, its message handler, and the run loop with its reconnect backoff.

  The socket library is a parameter of the state: \<open>rc_live\<close> tells whether the current connection
  still accepts a send. A sent message is kept as the JSON value that \<open>json.dumps\<close> renders;
  \<open>loads\<close> is \<open>json.loads\<close> (\<open>None\<close>: \<open>JSONDecodeError\<close>) and \<open>decode_utf\<close> is \<open>bytes.decode\<close> (\<open>None\<close> where it
  raises). Delays are exact rationals, in seconds. The job callback is a state transformer that
  may raise.
\<close>

section \<open>State\<close>

record relay_client =
  rc_server_url :: string
  rc_node_id :: uuid
  rc_token :: string
  rc_initial_backoff :: rat
  rc_max_backoff :: rat
  rc_multiplier :: rat
  rc_ws :: "nat option"
  rc_running :: bool
  rc_connected :: bool
  rc_live :: bool
  rc_sent :: "(nat \<times> json) list"

definition new_relay_client :: "string \<Rightarrow> uuid \<Rightarrow> string \<Rightarrow> rat \<Rightarrow> rat \<Rightarrow> rat \<Rightarrow> relay_client" where
  "new_relay_client server_url node_id token initial_backoff max_backoff multiplier =
     \<lparr>rc_server_url = rstrip_char CHR ''/'' server_url, rc_node_id = node_id, rc_token = token,
      rc_initial_backoff = initial_backoff, rc_max_backoff = max_backoff, rc_multiplier = multiplier,
      rc_ws = None, rc_running = False, rc_connected = False, rc_live = False, rc_sent = []\<rparr>"

definition default_relay_client :: "string \<Rightarrow> uuid \<Rightarrow> string \<Rightarrow> relay_client" where
  "default_relay_client server_url node_id token = new_relay_client server_url node_id token 1 30 2"

definition ws_url :: "relay_client \<Rightarrow> string" where
  "ws_url c = rc_server_url c @ ''/relay/ws/'' @ uuid_str (rc_node_id c) @ ''?token='' @ rc_token c"

text \<open>\<open>connect()\<close>: the library answers with a connection, or raises.\<close>

definition client_connect :: "nat option \<Rightarrow> relay_client \<Rightarrow> (py_exc + unit) \<times> relay_client" where
  "client_connect answer c =
     (case answer of
        None \<Rightarrow> (Inl (OtherError ''connect''), c)
      | Some w \<Rightarrow> (Inr (), c\<lparr>rc_ws := Some w, rc_connected := True, rc_live := True\<rparr>))"

definition client_disconnect :: "relay_client \<Rightarrow> relay_client" where
  "client_disconnect c =
     (let c1 = c\<lparr>rc_running := False, rc_connected := False\<rparr>
      in case rc_ws c of None \<Rightarrow> c1 | Some w \<Rightarrow> c1\<lparr>rc_ws := None, rc_live := False\<rparr>)"

section \<open>Messages\<close>

definition ws_send :: "nat \<Rightarrow> json \<Rightarrow> relay_client \<Rightarrow> (py_exc + unit) \<times> relay_client" where
  "ws_send w m c =
     (if rc_live c then (Inr (), c\<lparr>rc_sent := rc_sent c @ [(w, m)]\<rparr>)
      else (Inl (OtherError ''ConnectionClosed''), c))"

abbreviation not_connected :: py_exc where
  "not_connected \<equiv> RuntimeError ''Not connected to relay server''"

definition ack_json :: "uuid \<Rightarrow> bool \<Rightarrow> json" where
  "ack_json job_id accepted =
     JObj [(''type'', JStr ''job_ack''), (''job_id'', JStr (uuid_str job_id)), (''accepted'', JBool accepted)]"

definition send_job_ack :: "uuid \<Rightarrow> bool \<Rightarrow> relay_client \<Rightarrow> (py_exc + unit) \<times> relay_client" where
  "send_job_ack job_id accepted c =
     (case rc_ws c of
        None \<Rightarrow> (Inl not_connected, c)
      | Some w \<Rightarrow> ws_send w (ack_json job_id accepted) c)"

definition status_json :: "status_call \<Rightarrow> json" where
  "status_json sc =
     (case sc of (job_id, status, progress, detail) \<Rightarrow>
        JObj ([(''type'', JStr ''status_update''), (''job_id'', JStr (uuid_str job_id)), (''status'', JStr status)] @
          (case progress of None \<Rightarrow> [] | Some p \<Rightarrow> [(''progress'', JNum p)]) @
          (case detail of None \<Rightarrow> [] | Some d \<Rightarrow> [(''detail'', JStr d)])))"

definition send_status_update :: "relay_client status_sender" where
  "send_status_update sc c =
     (case rc_ws c of
        None \<Rightarrow> (Inl not_connected, c)
      | Some w \<Rightarrow> ws_send w (status_json sc) c)"

definition pong_json :: json where
  "pong_json = JObj [(''type'', JStr ''heartbeat_pong''), (''payload'', JObj [])]"

section \<open>The message handler\<close>

type_synonym job_callback = "json \<Rightarrow> relay_client \<Rightarrow> (py_exc + unit) \<times> relay_client"

text \<open>The acknowledgement of an assignment: a truthy \<open>job_id\<close> that is no string makes \<open>uuid.UUID\<close>
  raise \<open>AttributeError\<close>, which is not handled; a string that is no UUID is logged.\<close>

definition auto_ack :: "json option \<Rightarrow> relay_client \<Rightarrow> (py_exc + unit) \<times> relay_client" where
  "auto_ack job_id c =
     (case job_id of
        None \<Rightarrow> (Inr (), c)
      | Some v \<Rightarrow>
          if \<not> json_truthy v then (Inr (), c)
          else (case v of
                  JStr s \<Rightarrow>
                    (case uuid_parse s of
                       None \<Rightarrow> (Inr (), c)
                     | Some i \<Rightarrow> send_job_ack i True c)
                | _ \<Rightarrow> (Inl (OtherError ''AttributeError''), c)))"

definition client_handle_message ::
  "(string \<Rightarrow> json option) \<Rightarrow> job_callback option \<Rightarrow> string \<Rightarrow> relay_client \<Rightarrow> (py_exc + unit) \<times> relay_client" where
  "client_handle_message loads on_job raw c =
     (case loads raw of
        None \<Rightarrow> (Inr (), c)
      | Some (JObj kvs) \<Rightarrow>
          (let data = JObj kvs; msg_type = json_get ''type'' data
           in if msg_type = Some (JStr ''heartbeat_ping'')
              then (case rc_ws c of None \<Rightarrow> (Inr (), c) | Some w \<Rightarrow> ws_send w pong_json c)
              else if msg_type = Some (JStr ''job_assign'')
              then (case auto_ack (json_get ''job_id'' data) c of
                      (Inl x, c') \<Rightarrow> (Inl x, c')
                    | (Inr _, c') \<Rightarrow>
                        (case on_job of
                           None \<Rightarrow> (Inr (), c')
                         | Some cb \<Rightarrow> (Inr (), snd (cb data c'))))
              else (Inr (), c))
      | Some _ \<Rightarrow> (Inl (OtherError ''AttributeError''), c))"

datatype ws_message = TextMsg string | BytesMsg bytes

text \<open>The loop ends when the library has no more messages: the connection was closed.\<close>

fun receive_loop ::
  "(string \<Rightarrow> json option) \<Rightarrow> (bytes \<Rightarrow> string option) \<Rightarrow> job_callback option \<Rightarrow> ws_message list \<Rightarrow>
   relay_client \<Rightarrow> (py_exc + unit) \<times> relay_client" where
  "receive_loop loads decode_utf on_job [] c = (Inr (), c)"
| "receive_loop loads decode_utf on_job (m # ms) c =
     (case (case m of TextMsg t \<Rightarrow> Some t | BytesMsg b \<Rightarrow> decode_utf b) of
        None \<Rightarrow> (Inl (ValueError ''UnicodeDecodeError''), c)
      | Some raw \<Rightarrow>
          (case client_handle_message loads on_job raw c of
             (Inl x, c') \<Rightarrow> (Inl x, c')
           | (Inr _, c') \<Rightarrow> receive_loop loads decode_utf on_job ms c'))"

section \<open>The run loop\<close>

text \<open>What the environment does in one turn of the loop: the connection is refused, or serves some
  messages and ends, or the task is cancelled; and whether \<open>disconnect()\<close> is called during the
  sleep that follows.\<close>

datatype attempt = Refused | Served nat "ws_message list" | Cancelled

definition connect_and_serve ::
  "(string \<Rightarrow> json option) \<Rightarrow> (bytes \<Rightarrow> string option) \<Rightarrow> job_callback option \<Rightarrow> attempt \<Rightarrow>
   rat \<Rightarrow> relay_client \<Rightarrow> rat \<times> relay_client" where
  "connect_and_serve loads decode_utf on_job a backoff c =
     (case a of
        Served w ms \<Rightarrow>
          (rc_initial_backoff c,
           snd (receive_loop loads decode_utf on_job ms (snd (client_connect (Some w) c)))
             \<lparr>rc_connected := False, rc_ws := None, rc_live := False\<rparr>)
      | _ \<Rightarrow> (backoff, (snd (client_connect None c))\<lparr>rc_connected := False, rc_ws := None, rc_live := False\<rparr>))"

fun client_loop ::
  "(string \<Rightarrow> json option) \<Rightarrow> (bytes \<Rightarrow> string option) \<Rightarrow> job_callback option \<Rightarrow> (attempt \<times> bool) list \<Rightarrow>
   rat \<Rightarrow> relay_client \<Rightarrow> rat list \<times> relay_client" where
  "client_loop loads decode_utf on_job [] backoff c = ([], c)"
| "client_loop loads decode_utf on_job ((a, stopped) # rest) backoff c =
     (if \<not> rc_running c then ([], c)
      else case connect_and_serve loads decode_utf on_job a backoff c of
        (backoff1, c1) \<Rightarrow>
          if a = Cancelled \<or> \<not> rc_running c1 then ([], c1)
          else (case client_loop loads decode_utf on_job rest (min (backoff1 * rc_multiplier c1) (rc_max_backoff c1))
                       (if stopped then client_disconnect c1 else c1) of
                  (sleeps, c2) \<Rightarrow> (backoff1 # sleeps, c2)))"

definition client_run where
  "client_run loads decode_utf on_job attempts c =
     client_loop loads decode_utf on_job attempts (rc_initial_backoff c) (c\<lparr>rc_running := True\<rparr>)"


section \<open>Properties\<close>

lemma client_connect_keeps [simp]:
  "rc_running (snd (client_connect a c)) = rc_running c"
  "rc_multiplier (snd (client_connect a c)) = rc_multiplier c"
  "rc_max_backoff (snd (client_connect a c)) = rc_max_backoff c"
  by (simp_all add: client_connect_def split: option.splits)

lemma refused_turn [simp]:
  "connect_and_serve loads decode_utf on_job Refused b c =
     (b, c\<lparr>rc_connected := False, rc_ws := None, rc_live := False\<rparr>)"
  by (simp add: connect_and_serve_def client_connect_def)

lemma backoff_next:
  fixes i m :: rat
  assumes "1 \<le> m" and "i \<le> mx" and "0 \<le> i"
  shows "min (min (i * m ^ k) mx * m) mx = min (i * m ^ Suc k) mx"
proof (cases "i * m ^ k \<le> mx")
  case True
  then show ?thesis by (simp add: ac_simps)
next
  case False
  have "i * m ^ k \<le> i * m ^ Suc k"
    using assms by (intro mult_left_mono power_increasing) auto
  moreover have "mx * 1 \<le> mx * m" using assms by (intro mult_left_mono) auto
  ultimately show ?thesis using False by (simp add: min_def)
qed

lemma client_loop_refused:
  "rc_running c \<Longrightarrow> 1 \<le> rc_multiplier c \<Longrightarrow> 0 \<le> i \<Longrightarrow> i \<le> rc_max_backoff c \<Longrightarrow>
   fst (client_loop loads decode_utf on_job (replicate n (Refused, False)) (min (i * rc_multiplier c ^ k) (rc_max_backoff c)) c) =
     map (\<lambda>j. min (i * rc_multiplier c ^ (k + j)) (rc_max_backoff c)) [0..<n]"
proof (induction n arbitrary: k c)
  case 0
  then show ?case by simp
next
  case (Suc n)
  let ?c = "c\<lparr>rc_connected := False, rc_ws := None, rc_live := False\<rparr>"
  have "fst (client_loop loads decode_utf on_job (replicate n (Refused, False))
      (min (i * rc_multiplier ?c ^ Suc k) (rc_max_backoff ?c)) ?c) =
    map (\<lambda>j. min (i * rc_multiplier ?c ^ (Suc k + j)) (rc_max_backoff ?c)) [0..<n]"
    using Suc.prems by (intro Suc.IH) simp_all
  then show ?case
    using Suc.prems backoff_next [of "rc_multiplier c" i "rc_max_backoff c" k]
    by (auto simp: upt_conv_Cons map_Suc_upt [symmetric] simp del: upt_Suc power_Suc split: prod.splits)
qed

text \<open>While the gateway refuses every connection the waits grow geometrically up to the cap. The
  k-th wait is the initial delay times the multiplier to the k, or the maximum delay when that
  is smaller, and no wait exceeds the maximum.\<close>

theorem reconnect_backoff:
  assumes "1 \<le> rc_multiplier c" and "0 \<le> rc_initial_backoff c" and "rc_initial_backoff c \<le> rc_max_backoff c"
  shows "fst (client_run loads decode_utf on_job (replicate n (Refused, False)) c) =
    map (\<lambda>k. min (rc_initial_backoff c * rc_multiplier c ^ k) (rc_max_backoff c)) [0..<n]"
proof -
  have "min (rc_initial_backoff c) (rc_max_backoff c) = rc_initial_backoff c"
    using assms(3) by (simp add: min_def)
  then show ?thesis
    using client_loop_refused [of "c\<lparr>rc_running := True\<rparr>" "rc_initial_backoff c" loads decode_utf on_job n 0] assms
    by (simp add: client_run_def)
qed

theorem reconnect_backoff_witness:
  "fst (client_run (\<lambda>_. None) (\<lambda>_. None) None (replicate 7 (Refused, False)) (default_relay_client ''ws://h/'' 7 ''t'')) =
     [1, 2, 4, 8, 16, 30, 30]"
  using reconnect_backoff [of "default_relay_client ''ws://h/'' 7 ''t''" "\<lambda>_. None" "\<lambda>_. None" None 7]
  by (simp add: default_relay_client_def new_relay_client_def upt_rec)

text \<open>The executor as the job callback of the client.\<close>

definition executor_callback :: "(json \<Rightarrow> string) \<Rightarrow> executor \<Rightarrow> rlimits \<Rightarrow> job_callback" where
  "executor_callback py_str ex l data c =
     (case handle_job py_str ex send_status_update data (l, c) of (res, _, c') \<Rightarrow> (res, c'))"

lemma send_status_live:
  "rc_ws c = Some w \<Longrightarrow> rc_live c \<Longrightarrow>
   send_status send_status_update sc c = c\<lparr>rc_sent := rc_sent c @ [(w, status_json sc)]\<rparr>"
  by (simp add: send_status_def send_status_update_def ws_send_def)

text \<open>A message assigns a job to a plugin of the executor.\<close>

definition assigns :: "(string \<Rightarrow> json option) \<Rightarrow> executor \<Rightarrow> string \<Rightarrow> json \<Rightarrow> uuid \<Rightarrow> plugin \<Rightarrow> bool" where
  "assigns loads ex raw data i p \<longleftrightarrow>
     loads raw = Some data \<and> json_get ''type'' data = Some (JStr ''job_assign'') \<and>
     (\<exists>s. json_get ''job_id'' data = Some (JStr s) \<and> uuid_parse s = Some i \<and> s \<noteq> '''') \<and>
     (\<exists>ty. json_get ''job_type'' data = Some (JStr ty) \<and> ty \<noteq> '''' \<and> map_of (ex_plugins ex) ty = Some p)"

lemma assignment_handled:
  assumes live: "rc_ws c = Some w" "rc_live c" and job: "assigns loads ex raw data i p"
  shows "client_handle_message loads (Some (executor_callback py_str ex l)) raw c =
    (Inr (), c\<lparr>rc_sent := rc_sent c @
       [(w, ack_json i True), (w, status_json (i, ''running'', None, None)),
        (w, status_json (final_report py_str (ex_timeout ex) i
              (wait_for (ex_timeout ex) (pl_execute p i data))))]\<rparr>)"
proof -
  obtain s ty where k: "loads raw = Some data" "json_get ''type'' data = Some (JStr ''job_assign'')"
    "json_get ''job_id'' data = Some (JStr s)" "uuid_parse s = Some i" "s \<noteq> ''''"
    "json_get ''job_type'' data = Some (JStr ty)" "ty \<noteq> ''''" "map_of (ex_plugins ex) ty = Some p"
    using job by (auto simp: assigns_def)
  then obtain kvs where d: "data = JObj kvs" by (cases data) simp_all
  have "auto_ack (json_get ''job_id'' data) c = (Inr (), c\<lparr>rc_sent := rc_sent c @ [(w, ack_json i True)]\<rparr>)"
    using live k by (simp add: auto_ack_def send_job_ack_def ws_send_def)
  then show ?thesis
    using live k handle_job_plugin [where send = send_status_update, OF k(3,4,6,7,8), of py_str l]
    by (simp add: d client_handle_message_def Let_def executor_callback_def send_status_live del: json_get.simps)
qed

lemma client_reply_order:
  assumes "rc_ws c = Some w" and "rc_live c" and "assigns loads ex raw data i p"
    and "loads ping = Some pdata" and "json_get ''type'' pdata = Some (JStr ''heartbeat_ping'')"
  shows "\<exists>final. rc_sent (snd (receive_loop loads decode_utf (Some (executor_callback py_str ex l))
      [TextMsg raw, TextMsg ping] c)) =
    rc_sent c @ [(w, ack_json i True), (w, status_json (i, ''running'', None, None)),
                 (w, status_json (i, final)), (w, pong_json)]"
proof -
  obtain kvs where d: "pdata = JObj kvs" using assms(5) by (cases pdata) simp_all
  obtain final where "final_report py_str (ex_timeout ex) i
      (wait_for (ex_timeout ex) (pl_execute p i data)) = (i, final)"
    by (metis final_report_job surjective_pairing)
  then show ?thesis
    unfolding receive_loop.simps ws_message.case option.case assignment_handled [OF assms(1-3)]
    using assms(1,2,4,5)
    by (intro exI [of _ final]) (simp add: d client_handle_message_def ws_send_def del: json_get.simps)
qed

text \<open>The client answers nothing while it runs a job. When an assignment and then a heartbeat
  ping arrive, the acknowledgement and both reports of the job go out before the pong does.\<close>

theorem pong_waits_for_job:
  assumes "rc_ws c = Some w" and "rc_live c" and "assigns loads ex raw data i p"
    and "loads ping = Some pdata" and "json_get ''type'' pdata = Some (JStr ''heartbeat_ping'')"
  shows "\<exists>final. rc_sent (snd (receive_loop loads decode_utf (Some (executor_callback py_str ex l))
      [TextMsg raw, TextMsg ping] c)) =
    rc_sent c @ [(w, ack_json i True), (w, status_json (i, ''running'', None, None)),
                 (w, status_json (i, final)), (w, pong_json)]"
  using assms by (rule client_reply_order)

definition ping_frame :: json where
  "ping_frame = JObj [(''type'', JStr ''heartbeat_ping''), (''payload'', JObj [])]"

definition demo_loads :: "string \<Rightarrow> json option" where
  "demo_loads s = (if s = ''job'' then Some (demo_assignment ''echo'') else if s = ''ping'' then Some ping_frame else None)"

definition demo_client :: relay_client where
  "demo_client = snd (client_connect (Some 0) (default_relay_client ''ws://h'' 7 ''t''))"

lemma demo_client_facts:
  "rc_ws demo_client = Some 0" "rc_live demo_client" "rc_sent demo_client = []"
  by (simp_all add: demo_client_def client_connect_def default_relay_client_def new_relay_client_def)

lemma demo_assigns:
  "assigns demo_loads demo_executor ''job'' (demo_assignment ''echo'') 7 (echo_plugin (\<lambda>_. ''1'') (\<lambda>_. ''d''))"
proof -
  have s: "uuid_str 7 \<noteq> ''''" using length_uuid_str [of 7] by (metis length_0_conv zero_neq_numeral)
  then show ?thesis
    by (simp add: assigns_def demo_loads_def demo_assignment_def demo_executor_def)
qed

theorem pong_waits_for_job_witness:
  "\<exists>final. rc_sent (snd (receive_loop demo_loads (\<lambda>_. None)
      (Some (executor_callback (\<lambda>_. ''300'') demo_executor \<lparr>rl_as = (None, None), rl_cpu = (None, None)\<rparr>))
      [TextMsg ''job'', TextMsg ''ping''] demo_client)) =
    [(0, ack_json 7 True), (0, status_json (7, ''running'', None, None)),
     (0, status_json (7, final)), (0, pong_json)]"
  using pong_waits_for_job [OF demo_client_facts(1,2) demo_assigns, of "''ping''" ping_frame "\<lambda>_. None" "\<lambda>_. ''300''"
      "\<lparr>rl_as = (None, None), rl_cpu = (None, None)\<rparr>"]
  by (simp add: demo_loads_def ping_frame_def demo_client_facts(3))

end
