(* ===== verification/Edge_Relay.thy ===== *)
theory Edge_Relay
  imports Relay Edge_Client
begin

text \<open>
  The two ends of the relay together: an edge node (\<^verbatim>\<open>edgekit/relay/client.py\<close> with its executor)
  and the gateway's endpoint (\<^verbatim>\<open>core/relay/server.py\<close>). What the client sends on its socket
  reaches the endpoint as frames, in the order sent; \<open>dumps\<close> is the text of a message, which
  \<open>loads\<close> reads back.
\<close>

definition delivered :: "(json \<Rightarrow> string) \<Rightarrow> instant \<Rightarrow> nat \<times> json \<Rightarrow> instant \<times> relay_input" where
  "delivered dumps t m = (t, Frame (fst m) (TextFrame (dumps (snd m))))"

definition codec_roundtrip :: "(json \<Rightarrow> string) \<Rightarrow> (string \<Rightarrow> json option) \<Rightarrow> bool" where
  "codec_roundtrip dumps loads \<longleftrightarrow> (\<forall>j. loads (dumps j) = Some j)"

lemma deliver_json:
  "codec_roundtrip dumps loads \<Longrightarrow> rl_sessions r w = Some s \<Longrightarrow> ws_open s \<Longrightarrow>
   relay_event dec loads (delivered dumps t (w, JObj kvs)) r =
     (if json_get ''type'' (JObj kvs) = Some (JStr ''heartbeat_pong'')
      then r\<lparr>rl_sessions := (rl_sessions r)(w \<mapsto> s\<lparr>ws_pong := True\<rparr>)\<rparr>
      else r\<lparr>rl_log := rl_log r @ [relay_handle_message (ws_node s) (JObj kvs)]\<rparr>)"
  by (simp add: delivered_def codec_roundtrip_def relay_receive_def del: json_get.simps)

lemma deliver_log:
  "codec_roundtrip dumps loads \<Longrightarrow> rl_sessions r w = Some s \<Longrightarrow> ws_open s \<Longrightarrow>
   json_get ''type'' m = Some (JStr ty) \<Longrightarrow> ty \<noteq> ''heartbeat_pong'' \<Longrightarrow>
   relay_event dec loads (delivered dumps t (w, m)) r =
     r\<lparr>rl_log := rl_log r @ [relay_handle_message (ws_node s) m]\<rparr>"
  by (cases m) (simp_all add: deliver_json del: json_get.simps(1) relay_event.simps)

lemma deliver_closed:
  "rl_sessions r w = Some s \<Longrightarrow> \<not> ws_open s \<Longrightarrow>
   relay_event dec loads (delivered dumps t (w, m)) r = end_session w s r"
  by (simp add: delivered_def relay_receive_def)

lemma deliver_gone: "rl_sessions r w = None \<Longrightarrow> relay_event dec loads (delivered dumps t (w, m)) r = r"
  by (simp add: delivered_def)

lemma ack_type: "json_get ''type'' (ack_json i b) = Some (JStr ''job_ack'')"
  by (simp add: ack_json_def)

lemma status_type: "json_get ''type'' (status_json sc) = Some (JStr ''status_update'')"
  "json_get ''job_id'' (status_json sc) = Some (JStr (uuid_str (fst sc)))"
  "json_get ''status'' (status_json sc) = Some (JStr (fst (snd sc)))"
  by (auto simp: status_json_def map_add_def split: prod.splits option.splits)

lemma log_ack:
  "relay_handle_message n (ack_json i b) = JobAcknowledged n (Some (JStr (uuid_str i))) (Some (JBool b))"
  by (simp add: relay_handle_message_def ack_json_def Let_def)

lemma log_status:
  "relay_handle_message n (status_json sc) =
     StatusReceived n (Some (JStr (uuid_str (fst sc)))) (Some (JStr (fst (snd sc))))"
  by (simp add: relay_handle_message_def status_type Let_def)

text \<open>A node that answers a ping in time is pinged again half a minute later.\<close>

lemma pong_in_time:
  assumes "codec_roundtrip dumps loads" and "rl_sessions r w = Some s" and "ws_heart s = Pinging" and "ws_open s"
  shows "rl_sessions (relay_run dec loads [(t, Wake w True), delivered dumps t1 (w, pong_json), (t2, Wake w True)] r) w =
    Some (s\<lparr>ws_pong := True, ws_heart := Asleep (t2 + seconds heartbeat_interval)\<rparr>)"
  using assms
  by (simp add: relay_run_def delivered_def codec_roundtrip_def relay_receive_def pong_json_def heartbeat_loop_def)

lemma relay_run_append: "relay_run dec loads (xs @ ys) r = relay_run dec loads ys (relay_run dec loads xs r)"
  by (simp add: relay_run_def)



section \<open>What the client sends is typed by the protocol\<close>

text \<open>Reading a frame as a model of \<^verbatim>\<open>core/relay/protocol.py\<close>, with the fields' declared types and
  defaults; \<open>now\<close> is the default of \<open>timestamp\<close>.\<close>

definition message_type_of :: "json \<Rightarrow> relay_message_type option" where
  "message_type_of m =
     (case json_get ''type'' m of
        Some (JStr s) \<Rightarrow> List.find (\<lambda>ty. relay_type_value ty = s)
          [JOB_ASSIGN, JOB_ACK, STATUS_UPDATE, HEARTBEAT_PING, HEARTBEAT_PONG]
      | _ \<Rightarrow> None)"

definition uuid_field :: "string \<Rightarrow> json \<Rightarrow> uuid option" where
  "uuid_field k m = (case json_get k m of Some (JStr s) \<Rightarrow> uuid_parse s | _ \<Rightarrow> None)"

definition ack_message_of :: "instant \<Rightarrow> json \<Rightarrow> job_ack_message option" where
  "ack_message_of now m =
     (case (message_type_of m, uuid_field ''job_id'' m, json_get ''accepted'' m) of
        (Some ty, Some i, None) \<Rightarrow> Some \<lparr>jk_type = ty, jk_job_id = i, jk_accepted = True, jk_timestamp = now\<rparr>
      | (Some ty, Some i, Some (JBool b)) \<Rightarrow> Some \<lparr>jk_type = ty, jk_job_id = i, jk_accepted = b, jk_timestamp = now\<rparr>
      | _ \<Rightarrow> None)"

fun optional :: "(json \<Rightarrow> 'a option) \<Rightarrow> json option \<Rightarrow> 'a option option" where
  "optional f None = Some None"
| "optional f (Some JNull) = Some None"
| "optional f (Some v) = map_option Some (f v)"

fun json_float :: "json \<Rightarrow> pyfloat option" where
  "json_float (JNum x) = Some (Fin x)"
| "json_float v = None"

fun json_text :: "json \<Rightarrow> string option" where
  "json_text (JStr s) = Some s"
| "json_text v = None"

definition status_message_of :: "instant \<Rightarrow> json \<Rightarrow> status_update_message option" where
  "status_message_of now m =
     (case (message_type_of m, uuid_field ''job_id'' m, Option.bind (json_get ''status'' m) json_text,
            optional json_float (json_get ''progress'' m), optional json_text (json_get ''detail'' m)) of
        (Some ty, Some i, Some s, Some p, Some d) \<Rightarrow>
          Some \<lparr>su_type = ty, su_job_id = i, su_status = s, su_progress = p, su_detail = d, su_timestamp = now\<rparr>
      | _ \<Rightarrow> None)"

definition relay_message_of :: "instant \<Rightarrow> json \<Rightarrow> relay_message option" where
  "relay_message_of now m =
     (case (message_type_of m, json_get ''payload'' m) of
        (Some ty, None) \<Rightarrow> Some \<lparr>rm_type = ty, rm_payload = JObj [], rm_timestamp = now\<rparr>
      | (Some ty, Some (JObj kvs)) \<Rightarrow> Some \<lparr>rm_type = ty, rm_payload = JObj kvs, rm_timestamp = now\<rparr>
      | _ \<Rightarrow> None)"

text \<open>The messages a node may send, each as an instance of its model.\<close>

definition node_message :: "instant \<Rightarrow> json \<Rightarrow> bool" where
  "node_message now m \<longleftrightarrow>
     (case message_type_of m of
        Some JOB_ACK \<Rightarrow> ack_message_of now m \<noteq> None
      | Some STATUS_UPDATE \<Rightarrow> status_message_of now m \<noteq> None
      | Some HEARTBEAT_PONG \<Rightarrow> relay_message_of now m \<noteq> None
      | _ \<Rightarrow> False)"

lemma ack_message:
  "ack_message_of now (ack_json i b) = Some \<lparr>jk_type = JOB_ACK, jk_job_id = i, jk_accepted = b, jk_timestamp = now\<rparr>"
  by (simp add: ack_message_of_def message_type_of_def uuid_field_def ack_json_def uuid_parse_str)

lemma status_message:
  "status_message_of now (status_json (i, s, p, d)) =
     Some \<lparr>su_type = STATUS_UPDATE, su_job_id = i, su_status = s, su_progress = map_option Fin p, su_detail = d,
          su_timestamp = now\<rparr>"
  by (cases p; cases d)
     (simp_all add: status_message_of_def message_type_of_def uuid_field_def status_json_def uuid_parse_str map_add_def)

lemma node_message_ack: "node_message now (ack_json i b)"
  using ack_message [of now i b] by (simp add: node_message_def message_type_of_def ack_type)

lemma node_message_status: "node_message now (status_json sc)"
  using status_message [of now] by (cases sc) (simp add: node_message_def message_type_of_def status_type)

lemma node_message_pong: "node_message now pong_json"
  by (simp add: node_message_def relay_message_of_def message_type_of_def pong_json_def)

lemmas node_messages = node_message_ack node_message_status node_message_pong

text \<open>Sending only ever appends such messages.\<close>

definition sends_typed :: "instant \<Rightarrow> relay_client \<Rightarrow> relay_client \<Rightarrow> bool" where
  "sends_typed now c c' \<longleftrightarrow> (\<exists>ms. rc_sent c' = rc_sent c @ ms \<and> list_all (node_message now \<circ> snd) ms)"

lemma sends_typed_refl [simp]: "rc_sent c' = rc_sent c \<Longrightarrow> sends_typed now c c'"
  by (auto simp: sends_typed_def)

lemma sends_typed_trans: "sends_typed now c d \<Longrightarrow> sends_typed now d e \<Longrightarrow> sends_typed now c e"
  by (fastforce simp: sends_typed_def)

lemma ws_send_typed: "node_message now m \<Longrightarrow> sends_typed now c (snd (ws_send w m c))"
  by (auto simp: ws_send_def sends_typed_def)

lemma send_status_typed: "sends_typed now c (send_status send_status_update sc c)"
  by (simp add: send_status_def send_status_update_def ws_send_typed node_messages split: option.splits)

lemma send_status_typed_twice:
  "sends_typed now c (send_status send_status_update sc' (send_status send_status_update sc c))"
  using send_status_typed sends_typed_trans by blast

lemma handle_job_typed: "sends_typed now c (snd (snd (handle_job py_str ex send_status_update data (l, c))))"
proof (cases "json_get ''job_id'' data")
  case None
  then show ?thesis by (simp add: handle_job_def del: json_get.simps)
next
  case (Some v)
  define ty where "ty = (case json_get ''job_type'' data of Some v \<Rightarrow> v | None \<Rightarrow> JNull)"
  show ?thesis
    unfolding handle_job_def Some Let_def prod.case option.case ty_def [symmetric]
    by (cases "plugin_for ex ty"; cases "uuid_parse (str_of py_str v)"; cases v)
       (simp_all add: send_status_typed send_status_typed_twice del: json_get.simps split: option.split outcome.split)
qed

lemma executor_callback_typed: "sends_typed now c (snd (executor_callback py_str ex l data c))"
proof -
  obtain res l' c' where "handle_job py_str ex send_status_update data (l, c) = (res, l', c')"
    using prod_cases3 by blast
  then show ?thesis
    using handle_job_typed [of now c py_str ex data l] by (simp add: executor_callback_def)
qed

lemma auto_ack_typed: "sends_typed now c (snd (auto_ack v c))"
  by (auto simp: auto_ack_def send_job_ack_def intro: ws_send_typed node_messages split: option.splits json.splits)

lemma client_handle_message_typed:
  assumes "\<And>data c. sends_typed now c (snd (cb data c))"
  shows "sends_typed now c (snd (client_handle_message loads (Some cb) raw c))"
proof -
  have job: "sends_typed now c (snd (case auto_ack v c of (Inl x, c') \<Rightarrow> (Inl x, c') | (Inr _, c') \<Rightarrow> (Inr (), snd (cb d c'))))"
    for v d
  proof -
    obtain r c' where a: "auto_ack v c = (r, c')" by (cases "auto_ack v c")
    have "sends_typed now c c'" using auto_ack_typed [of now c v] a by simp
    moreover have "sends_typed now c' (snd (cb d c'))" by (rule assms)
    ultimately have "sends_typed now c (snd (cb d c'))" by (rule sends_typed_trans)
    with \<open>sends_typed now c c'\<close> show ?thesis by (simp add: a split: sum.split)
  qed
  have pong: "sends_typed now c (snd (ws_send w pong_json c))" for w
    by (rule ws_send_typed) (rule node_message_pong)
  show ?thesis
    unfolding client_handle_message_def Let_def option.case using job pong
    by (simp del: json_get.simps split: option.split json.split)
qed

lemma receive_loop_typed:
  assumes "\<And>data c. sends_typed now c (snd (cb data c))"
  shows "sends_typed now c (snd (receive_loop loads decode_utf (Some cb) ms c))"
proof (induction ms arbitrary: c)
  case Nil
  then show ?case by simp
next
  case (Cons m ms)
  have "sends_typed now c (snd (case client_handle_message loads (Some cb) raw c of
      (Inl x, c') \<Rightarrow> (Inl x, c') | (Inr _, c') \<Rightarrow> receive_loop loads decode_utf (Some cb) ms c'))" for raw
  proof -
    obtain r c' where a: "client_handle_message loads (Some cb) raw c = (r, c')"
      by (cases "client_handle_message loads (Some cb) raw c")
    have "sends_typed now c c'" using client_handle_message_typed [of now cb c loads raw, OF assms] a by simp
    then show ?thesis using sends_typed_trans Cons.IH by (auto simp: a split: sum.split)
  qed
  then show ?case by (simp split: option.split)
qed

lemma connect_and_serve_typed:
  assumes "\<And>data c. sends_typed now c (snd (cb data c))"
  shows "sends_typed now c (snd (connect_and_serve loads decode_utf (Some cb) a b c))"
proof (cases a)
  case (Served w ms)
  let ?c = "snd (client_connect (Some w) c)"
  have "sends_typed now ?c (snd (receive_loop loads decode_utf (Some cb) ms ?c))"
    using assms by (rule receive_loop_typed)
  then show ?thesis by (simp add: connect_and_serve_def Served sends_typed_def client_connect_def)
qed (simp_all add: connect_and_serve_def client_connect_def)

lemma client_loop_typed:
  assumes "\<And>data c. sends_typed now c (snd (cb data c))"
  shows "sends_typed now c (snd (client_loop loads decode_utf (Some cb) as b c))"
proof (induction as arbitrary: b c)
  case Nil
  then show ?case by simp
next
  case (Cons x as)
  obtain a stopped where x: "x = (a, stopped)" by (cases x)
  obtain b1 c1 where r: "connect_and_serve loads decode_utf (Some cb) a b c = (b1, c1)"
    by (cases "connect_and_serve loads decode_utf (Some cb) a b c")
  let ?d = "if stopped then client_disconnect c1 else c1"
  let ?b = "min (b1 * rc_multiplier c1) (rc_max_backoff c1)"
  obtain sl c2 where l: "client_loop loads decode_utf (Some cb) as ?b ?d = (sl, c2)"
    by (cases "client_loop loads decode_utf (Some cb) as ?b ?d")
  have c1: "sends_typed now c c1"
    using connect_and_serve_typed [of now cb c loads decode_utf a b, OF assms] r by simp
  moreover have "sends_typed now c1 ?d"
    by (simp add: client_disconnect_def Let_def split: option.split)
  moreover have "sends_typed now ?d c2" using Cons.IH [of ?d ?b] l by simp
  ultimately have "sends_typed now c c2" using sends_typed_trans by blast
  with c1 show ?case by (simp add: x r l)
qed

text \<open>C35: every message that an edge node sends in any run is a well-typed protocol message. Whatever
  frames the gateway sends, whatever the plugins do and however connections come and go, each
  message put on a socket is a \<open>JobAckMessage\<close>, a \<open>StatusUpdateMessage\<close> or a heartbeat pong, with
  fields of the declared types.\<close>

theorem client_messages_typed:
  "\<exists>ms. rc_sent (snd (client_run loads decode_utf (Some (executor_callback py_str ex l)) attempts c)) = rc_sent c @ ms \<and>
     list_all (\<lambda>m. node_message now (snd m)) ms"
  using client_loop_typed [of now "executor_callback py_str ex l" "c\<lparr>rc_running := True\<rparr>", OF executor_callback_typed]
  by (simp add: client_run_def sends_typed_def comp_def)

text \<open>A round trip for the witness: a number for every JSON value.\<close>

definition unary_dumps :: "json \<Rightarrow> string" where
  "unary_dumps j = replicate (to_nat j) (CHR ''j'')"

definition unary_loads :: "string \<Rightarrow> json option" where
  "unary_loads s = Some (from_nat (length s))"

lemma unary_roundtrip: "codec_roundtrip unary_dumps unary_loads"
  by (simp add: codec_roundtrip_def unary_dumps_def unary_loads_def)

lemma unary_assigns:
  "assigns unary_loads demo_executor (unary_dumps (demo_assignment ''echo'')) (demo_assignment ''echo'') 7
     (echo_plugin (\<lambda>_. ''1'') (\<lambda>_. ''d''))"
  using demo_assigns by (simp add: assigns_def unary_loads_def unary_dumps_def demo_loads_def)


end
