(* ===== verification/Metrics.thy ===== *)
theory Metrics
  imports Py_Strings
begin

text \<open>
  The Prometheus metrics of the API, \<^verbatim>\<open>core/metrics.py\<close>: the metric definitions, the helpers that
  record into them, the collapsing of request paths, and the middleware.

  A labelled metric is a function of its label values, zero where nothing was recorded. The
  request handler behind the middleware is a parameter that answers a status code or raises;
  what \<open>prometheus_client\<close> does with a definition is the parameter \<open>register\<close>.
\<close>

section \<open>Metric definitions\<close>

datatype metric_kind = Counter | Histogram | Gauge

record metric_spec =
  ms_kind :: metric_kind
  ms_name :: string
  ms_help :: string
  ms_labels :: "string list"

definition module_metrics :: "metric_spec list" where
  "module_metrics =
    [\<lparr>ms_kind = Counter, ms_name = ''http_requests_total'', ms_help = ''Total number of HTTP requests'',
      ms_labels = [''method'', ''endpoint'', ''status_code'']\<rparr>,
     \<lparr>ms_kind = Histogram, ms_name = ''http_request_duration_seconds'',
      ms_help = ''HTTP request duration in seconds'', ms_labels = [''method'', ''endpoint'']\<rparr>,
     \<lparr>ms_kind = Counter, ms_name = ''jobs_dispatched_total'', ms_help = ''Total number of jobs dispatched'',
      ms_labels = [''job_type'']\<rparr>,
     \<lparr>ms_kind = Counter, ms_name = ''jobs_completed_total'', ms_help = ''Total number of jobs completed'',
      ms_labels = [''job_type'', ''status'']\<rparr>,
     \<lparr>ms_kind = Gauge, ms_name = ''fleet_nodes_total'', ms_help = ''Current number of fleet nodes by status'',
      ms_labels = [''status'']\<rparr>,
     \<lparr>ms_kind = Counter, ms_name = ''credits_consumed_total'', ms_help = ''Total credits consumed'', ms_labels = []\<rparr>,
     \<lparr>ms_kind = Gauge, ms_name = ''active_websocket_connections'',
      ms_help = ''Current number of active WebSocket connections'', ms_labels = []\<rparr>]"

text \<open>A fresh set by name, in a registry of its own or the default one; registering may raise.\<close>

fun register_metrics ::
  "(metric_spec \<Rightarrow> 'reg \<Rightarrow> py_exc + 'm \<times> 'reg) \<Rightarrow> metric_spec list \<Rightarrow> 'reg \<Rightarrow> py_exc + (string \<times> 'm) list \<times> 'reg" where
  "register_metrics register [] reg = Inr ([], reg)"
| "register_metrics register (s # ss) reg =
     err_bind (register s reg)
       (\<lambda>(m, reg'). err_bind (register_metrics register ss reg')
         (\<lambda>(ms, reg''). Inr ((ms_name s, m) # ms, reg'')))"

definition create_metrics where
  "create_metrics register default_registry registry =
     register_metrics register module_metrics
       (case registry of None \<Rightarrow> default_registry | Some r \<Rightarrow> r)"

section \<open>Recording\<close>

record metrics =
  m_http_requests :: "string \<times> string \<times> string \<Rightarrow> nat"
  m_http_durations :: "string \<times> string \<Rightarrow> rat list"
  m_jobs_dispatched :: "string \<Rightarrow> nat"
  m_jobs_completed :: "string \<times> string \<Rightarrow> nat"
  m_fleet_nodes :: "string \<Rightarrow> int"
  m_credits_consumed :: rat
  m_active_connections :: int

definition metrics_init :: metrics where
  "metrics_init =
     \<lparr>m_http_requests = \<lambda>_. 0, m_http_durations = \<lambda>_. [], m_jobs_dispatched = \<lambda>_. 0,
      m_jobs_completed = \<lambda>_. 0, m_fleet_nodes = \<lambda>_. 0, m_credits_consumed = 0, m_active_connections = 0\<rparr>"

definition bump :: "'k \<Rightarrow> ('k \<Rightarrow> nat) \<Rightarrow> 'k \<Rightarrow> nat" where
  "bump k f = f(k := f k + 1)"

definition record_job_dispatched :: "string \<Rightarrow> metrics \<Rightarrow> metrics" where
  "record_job_dispatched job_type m = m\<lparr>m_jobs_dispatched := bump job_type (m_jobs_dispatched m)\<rparr>"

definition record_job_completed :: "string \<Rightarrow> string \<Rightarrow> metrics \<Rightarrow> metrics" where
  "record_job_completed job_type status m =
     m\<lparr>m_jobs_completed := bump (job_type, status) (m_jobs_completed m)\<rparr>"

definition set_fleet_nodes :: "int \<Rightarrow> int \<Rightarrow> int \<Rightarrow> metrics \<Rightarrow> metrics" where
  "set_fleet_nodes healthy unhealthy offline m =
     m\<lparr>m_fleet_nodes := (m_fleet_nodes m)(''healthy'' := healthy, ''unhealthy'' := unhealthy, ''offline'' := offline)\<rparr>"

text \<open>A counter refuses a negative amount.\<close>

definition record_credits_consumed :: "rat \<Rightarrow> metrics \<Rightarrow> py_exc + metrics" where
  "record_credits_consumed amount m =
     (if amount < 0 then Inl (ValueError ''Counters can only be incremented by non-negative amounts.'')
      else Inr (m\<lparr>m_credits_consumed := m_credits_consumed m + amount\<rparr>))"

definition set_active_connections :: "int \<Rightarrow> metrics \<Rightarrow> metrics" where
  "set_active_connections count m = m\<lparr>m_active_connections := count\<rparr>"

section \<open>Paths\<close>

text \<open>\<open>str.isdigit\<close> on Latin-1: the ASCII digits and the three superscripts.\<close>

definition py_isdigit :: "string \<Rightarrow> bool" where
  "py_isdigit s \<longleftrightarrow> s \<noteq> [] \<and>
     (\<forall>c \<in> set s. c \<in> set ''0123456789'' \<or> of_char c \<in> ({178, 179, 185} :: nat set))"

definition id_like :: "string \<Rightarrow> bool" where
  "id_like part \<longleftrightarrow> part \<noteq> [] \<and> (py_isdigit part \<or> (8 \<le> length part \<and> CHR ''-'' \<in> set part))"

definition normalise_path :: "string \<Rightarrow> string" where
  "normalise_path path =
     (let parts = split_on CHR ''/'' (rstrip_char CHR ''/'' path);
          joined = join_with CHR ''/'' (map (\<lambda>part. if id_like part then ''{id}'' else part) parts)
      in if joined = '''' then ''/'' else joined)"

section \<open>The middleware\<close>

definition observe_request :: "string \<Rightarrow> string \<Rightarrow> nat \<Rightarrow> rat \<Rightarrow> metrics \<Rightarrow> metrics" where
  "observe_request verb path status_code duration m =
     m\<lparr>m_http_requests := bump (verb, path, show_nat status_code) (m_http_requests m),
       m_http_durations := (m_http_durations m)((verb, path) := m_http_durations m (verb, path) @ [duration])\<rparr>"

definition metrics_dispatch ::
  "(metrics \<Rightarrow> (py_exc + nat) \<times> metrics) \<Rightarrow> string \<Rightarrow> string \<Rightarrow> rat \<Rightarrow> rat \<Rightarrow> metrics \<Rightarrow> (py_exc + nat) \<times> metrics" where
  "metrics_dispatch call_next verb url_path start finish m =
     (if url_path = ''/metrics'' then call_next m
      else case call_next m of
        (Inl x, m') \<Rightarrow> (Inl x, m')
      | (Inr status_code, m') \<Rightarrow>
          (Inr status_code, observe_request verb (normalise_path url_path) status_code (finish - start) m'))"

section \<open>Properties\<close>

lemma rstrip_id: "s = '''' \<or> last s \<noteq> c \<Longrightarrow> rstrip_char c s = s"
  by (cases s rule: rev_cases) (auto simp: rstrip_char_def)

lemma rstrip_last: "rstrip_char c s = '''' \<or> last (rstrip_char c s) \<noteq> c"
proof (cases "dropWhile (\<lambda>x. x = c) (rev s)")
  case Nil
  then show ?thesis by (simp add: rstrip_char_def)
next
  case (Cons a as)
  then have "a \<noteq> c" by (metis (mono_tags, lifting) dropWhile_eq_Cons_conv)
  with Cons show ?thesis by (simp add: rstrip_char_def)
qed

lemma collapse_free: "w \<in> set (split_on c s) \<Longrightarrow> c \<notin> set ''{id}'' \<Longrightarrow>
    c \<notin> set (if id_like w then ''{id}'' else w)"
  using split_on_free by auto

lemma not_id_like_id: "\<not> id_like ''{id}''"
  by (simp add: id_like_def py_isdigit_def)

lemma split_on_snoc: "x \<noteq> c \<Longrightarrow> \<exists>ws w. split_on c (t @ [x]) = ws @ [w @ [x]]"
proof (induction t)
  case Nil
  then show ?case by (auto intro: exI [of _ "[]"])
next
  case (Cons y t)
  then obtain ws w where ih: "split_on c (t @ [x]) = ws @ [w @ [x]]" by blast
  show ?case
  proof (cases "y = c")
    case True
    then have "split_on c ((y # t) @ [x]) = ([] # ws) @ [w @ [x]]" by (simp add: ih)
    then show ?thesis by blast
  next
    case False
    show ?thesis
    proof (cases ws)
      case Nil
      with False have "split_on c ((y # t) @ [x]) = [] @ [(y # w) @ [x]]" by (simp add: ih)
      then show ?thesis by blast
    next
      case (Cons v vs)
      with False have "split_on c ((y # t) @ [x]) = ((y # v) # vs) @ [w @ [x]]" by (simp add: ih)
      then show ?thesis by blast
    qed
  qed
qed

lemma last_split_nonempty: "s = '''' \<or> last s \<noteq> c \<Longrightarrow> split_on c s = [''''] \<or> last (split_on c s) \<noteq> ''''"
proof (cases s rule: rev_cases)
  case (snoc t x)
  assume "s = '''' \<or> last s \<noteq> c"
  with snoc have "x \<noteq> c" by simp
  with split_on_snoc [of x c t] snoc show ?thesis by auto
qed simp

lemma last_join: "ws \<noteq> [] \<Longrightarrow> last ws \<noteq> [] \<Longrightarrow> last (join_with c ws) = last (last ws)"
proof (induction c ws rule: join_with.induct)
  case (3 c w v ws)
  then have "join_with c (v # ws) \<noteq> []" by (cases ws) auto
  with 3 show ?case by simp
qed simp_all

lemma join_empty_iff: "join_with c ws = [] \<longleftrightarrow> ws = [] \<or> ws = [[]]"
  by (cases "(c, ws)" rule: join_with.cases) auto

lemma uuid_id_like: "id_like (uuid_str i)"
proof -
  have "CHR ''-'' \<in> set (uuid_str i)" by (simp add: uuid_str_def Let_def)
  then show ?thesis using length_uuid_str [of i] by (auto simp: id_like_def)
qed

lemma uuid_no_slash: "CHR ''/'' \<notin> set (uuid_str i)"
proof
  assume "CHR ''/'' \<in> set (uuid_str i)"
  then have "CHR ''/'' \<in> set (filter (\<lambda>c. c \<noteq> CHR ''-'') (uuid_str i))" by simp
  then have "CHR ''/'' \<in> set (uuid_hex i)" by (simp only: uuid_str_hex)
  from hex_chars [OF this] show False by simp
qed

lemma job_path_label: "normalise_path (''/api/v1/jobs/'' @ uuid_str i @ ''/result'') = ''/api/v1/jobs/{id}/result''"
proof -
  have p: "''/api/v1/jobs/'' @ uuid_str i @ ''/result'' =
      join_with CHR ''/'' ['''', ''api'', ''v1'', ''jobs'', uuid_str i, ''result'']"
    by simp
  have "split_on CHR ''/'' (join_with CHR ''/'' ['''', ''api'', ''v1'', ''jobs'', uuid_str i, ''result'']) =
      ['''', ''api'', ''v1'', ''jobs'', uuid_str i, ''result'']"
    by (rule split_join) (simp_all add: uuid_no_slash)
  moreover have "rstrip_char CHR ''/'' (''/api/v1/jobs/'' @ uuid_str i @ ''/result'') =
      ''/api/v1/jobs/'' @ uuid_str i @ ''/result''"
    by (rule rstrip_id) simp
  moreover have "\<not> id_like ''api''" "\<not> id_like ''v1''" "\<not> id_like ''jobs''" "\<not> id_like ''result''" "\<not> id_like ''''"
    by code_simp+
  ultimately show ?thesis
    unfolding normalise_path_def p [symmetric] by (simp add: p [symmetric] uuid_id_like Let_def)
qed

lemma normalise_parts:
  assumes "ws \<noteq> []" and "\<forall>w \<in> set ws. CHR ''/'' \<notin> set w" and "ws = [''''] \<or> last ws \<noteq> ''''"
    and "\<forall>w \<in> set ws. \<not> id_like w"
  shows "normalise_path (join_with CHR ''/'' ws) = (if ws = [''''] then ''/'' else join_with CHR ''/'' ws)"
proof -
  have "join_with CHR ''/'' ws = '''' \<or> last (join_with CHR ''/'' ws) \<noteq> CHR ''/''"
  proof (cases "ws = ['''']")
    case False
    with assms(1,3) have "last (join_with CHR ''/'' ws) = last (last ws)" "last ws \<in> set ws" "last ws \<noteq> ''''"
      by (simp_all add: last_join)
    with assms(2) show ?thesis by (metis last_in_set)
  qed simp
  then have "rstrip_char CHR ''/'' (join_with CHR ''/'' ws) = join_with CHR ''/'' ws"
    by (rule rstrip_id)
  moreover have "map (\<lambda>part. if id_like part then ''{id}'' else part) ws = ws"
    using assms(4) by (intro map_idI) auto
  ultimately show ?thesis
    using assms(1,2) by (simp add: normalise_path_def split_join Let_def join_empty_iff)
qed

text \<open>Request paths have canonical labels. Normalising a label again changes nothing, and no
  segment of a label looks like an identifier, so the identifiers of jobs and nodes never
  become labels; every job's path in particular has the label of the route.\<close>

theorem path_labels_canonical:
  "normalise_path (normalise_path path) = normalise_path path \<and>
   list_all (\<lambda>w. \<not> id_like w) (split_on CHR ''/'' (normalise_path path)) \<and>
   normalise_path (''/api/v1/jobs/'' @ uuid_str i @ ''/result'') = ''/api/v1/jobs/{id}/result''"
proof -
  define ws where "ws = map (\<lambda>part. if id_like part then ''{id}'' else part)
    (split_on CHR ''/'' (rstrip_char CHR ''/'' path))"
  have ws: "ws \<noteq> []" "\<forall>w \<in> set ws. CHR ''/'' \<notin> set w" "\<forall>w \<in> set ws. \<not> id_like w"
    using split_on_free not_id_like_id by (auto simp: ws_def)
  have "split_on CHR ''/'' (rstrip_char CHR ''/'' path) = [''''] \<or>
      last (split_on CHR ''/'' (rstrip_char CHR ''/'' path)) \<noteq> ''''"
    by (rule last_split_nonempty [OF rstrip_last])
  then have last: "ws = [''''] \<or> last ws \<noteq> ''''"
    by (auto simp: ws_def last_map id_like_def)
  have n: "normalise_path path = (if ws = [''''] then ''/'' else join_with CHR ''/'' ws)"
    by (simp add: normalise_path_def ws_def [symmetric] Let_def join_empty_iff ws(1))
  have root: "normalise_path ''/'' = ''/''" "list_all (\<lambda>w. \<not> id_like w) (split_on CHR ''/'' ''/'')"
    by code_simp+
  have "normalise_path (normalise_path path) = normalise_path path"
    using normalise_parts [OF ws(1,2) last ws(3)] n root(1) by auto
  moreover have "list_all (\<lambda>w. \<not> id_like w) (split_on CHR ''/'' (normalise_path path))"
    using ws root(2) by (auto simp: n split_join list_all_iff)
  moreover have "normalise_path (''/api/v1/jobs/'' @ uuid_str i @ ''/result'') = ''/api/v1/jobs/{id}/result''"
    by (rule job_path_label)
  ultimately show ?thesis by blast
qed

end
