(* ===== verification/Poller.thy ===== *)
theory Poller
  imports Py_Decimal Edge_Client
begin

text \<open>
  The hardware metrics poller of an edge node, \<^verbatim>\<open>edgekit/poller/metrics.py\<close>: the reading of
  \<open>nvidia-smi\<close>, the capability strings, the metrics payload and the polling loop.

  The subprocess, the platform module and the clock answer through parameters. \<open>send\<close> is the
  \<open>send_message\<close> of the relay the poller is given; it may raise.
\<close>

section \<open>Hardware\<close>

record gpu_info =
  gp_name :: string
  gp_vram_total_mb :: int
  gp_vram_used_mb :: int
  gp_utilization :: pyfloat
  gp_temperature :: int

record cpu_info =
  cp_model :: string
  cp_cores :: int

text \<open>\<open>float(s)\<close>: as \<open>Decimal(s)\<close>, but an underscore only between two digits, and no signalling NaN or
  NaN payload (\<open>None\<close>: \<open>ValueError\<close>).\<close>

fun underscores_ok :: "bool \<Rightarrow> string \<Rightarrow> bool" where
  "underscores_ok after_digit [] = True"
| "underscores_ok after_digit (c # cs) =
     (if c = CHR ''_''
      then after_digit \<and> (case cs of [] \<Rightarrow> False | d # _ \<Rightarrow> all_digits [d]) \<and> underscores_ok False cs
      else underscores_ok (all_digits [c]) cs)"

definition py_float :: "string \<Rightarrow> pyfloat option" where
  "py_float s =
     (if \<not> underscores_ok False (py_strip s) then None
      else case decimal_of s of
        None \<Rightarrow> None
      | Some (DFin x) \<Rightarrow> Some (Fin x)
      | Some (DInf neg) \<Rightarrow> Some (if neg then NInf else PInf)
      | Some DNaN \<Rightarrow>
          if py_lower (snd (strip_sign (py_strip s))) = ''nan'' then Some NaN else None)"

datatype smi_run = NotFound | TimeoutExpired | Exited int string

definition detect_gpu :: "smi_run \<Rightarrow> gpu_info option" where
  "detect_gpu run =
     (case run of
        NotFound \<Rightarrow> None
      | TimeoutExpired \<Rightarrow> None
      | Exited returncode stdout \<Rightarrow>
          if returncode \<noteq> 0 then None
          else let line = py_strip stdout
               in if line = '''' then None
                  else let parts = map py_strip (split_on CHR '','' line)
                       in if length parts < 5 then None
                          else (case (py_int_str (parts ! 1), py_int_str (parts ! 2), py_float (parts ! 3),
                                      py_int_str (parts ! 4)) of
                                  (Some vram_total, Some vram_used, Some pct, Some temperature) \<Rightarrow>
                                    Some \<lparr>gp_name = parts ! 0, gp_vram_total_mb = vram_total, gp_vram_used_mb = vram_used,
                                          gp_utilization = py_div_nat pct 100, gp_temperature = temperature\<rparr>
                                | _ \<Rightarrow> None))"

definition detect_cpu :: "string \<Rightarrow> int option \<Rightarrow> cpu_info" where
  "detect_cpu processor cpu_count =
     \<lparr>cp_model = (if processor = '''' then ''unknown'' else processor),
      cp_cores = (case cpu_count of Some n \<Rightarrow> (if n = 0 then 1 else n) | None \<Rightarrow> 1)\<rparr>"

section \<open>Capabilities and payload\<close>

definition gpu_short_name :: "string \<Rightarrow> string" where
  "gpu_short_name name =
     (let lowered = py_lower name;
          stripped = (case find (\<lambda>p. starts_with p lowered) [''nvidia geforce '', ''nvidia '', ''geforce ''] of
                        Some p \<Rightarrow> drop (length p) lowered
                      | None \<Rightarrow> lowered)
      in filter (\<lambda>c. c \<noteq> CHR '' '') stripped)"

definition build_capabilities :: "gpu_info option \<Rightarrow> cpu_info \<Rightarrow> string list" where
  "build_capabilities gpu cpu =
     (case gpu of
        None \<Rightarrow> []
      | Some g \<Rightarrow> [''gpu:'' @ gpu_short_name (gp_name g) @ '':'' @ show_int (gp_vram_total_mb g div 1024) @ ''gb'']) @
     [''cpu:'' @ show_int (cp_cores cpu) @ ''core'']"

record metrics_payload =
  mp_gpu_utilization :: "pyfloat option"
  mp_gpu_temperature :: "int option"
  mp_gpu_vram_used_mb :: "int option"
  mp_gpu_vram_total_mb :: "int option"
  mp_cpu_cores :: int
  mp_cpu_model :: string
  mp_capabilities :: "string list"
  mp_timestamp :: string

definition build_metrics_payload :: "(instant \<Rightarrow> string) \<Rightarrow> instant \<Rightarrow> gpu_info option \<Rightarrow> cpu_info \<Rightarrow> metrics_payload" where
  "build_metrics_payload isof now gpu cpu =
     \<lparr>mp_gpu_utilization = map_option gp_utilization gpu, mp_gpu_temperature = map_option gp_temperature gpu,
      mp_gpu_vram_used_mb = map_option gp_vram_used_mb gpu, mp_gpu_vram_total_mb = map_option gp_vram_total_mb gpu,
      mp_cpu_cores = cp_cores cpu, mp_cpu_model = cp_model cpu,
      mp_capabilities = build_capabilities gpu cpu, mp_timestamp = isof now\<rparr>"

section \<open>The loop\<close>

text \<open>What one cycle finds; the loop runs over the cycles the environment gives it. The result is the
  sleeps and the state of the relay.\<close>

record poll_cycle =
  pc_smi :: smi_run
  pc_processor :: string
  pc_cpu_count :: "int option"
  pc_now :: instant

type_synonym 'w message_sender = "string \<Rightarrow> metrics_payload \<Rightarrow> 'w \<Rightarrow> (py_exc + unit) \<times> 'w"

definition poll_once :: "(instant \<Rightarrow> string) \<Rightarrow> 'w message_sender \<Rightarrow> poll_cycle \<Rightarrow> 'w \<Rightarrow> 'w" where
  "poll_once isof send cyc w =
     (let gpu = detect_gpu (pc_smi cyc);
          cpu = detect_cpu (pc_processor cyc) (pc_cpu_count cyc);
          payload = build_metrics_payload isof (pc_now cyc) gpu cpu
      in snd (send ''metrics'' payload w))"

fun run_poller ::
  "(instant \<Rightarrow> string) \<Rightarrow> 'w message_sender \<Rightarrow> int \<Rightarrow> poll_cycle list \<Rightarrow> 'w \<Rightarrow> int list \<times> 'w" where
  "run_poller isof send interval [] w = ([], w)"
| "run_poller isof send interval (cyc # cs) w =
     (case run_poller isof send interval cs (poll_once isof send cyc w) of
        (sleeps, w') \<Rightarrow> (interval # sleeps, w'))"

section \<open>Properties\<close>

lemma strip_around:
  assumes "\<exists>c \<in> set a. \<not> py_space c" and "\<exists>c \<in> set b. \<not> py_space c"
  shows "py_strip (a @ m @ b) = dropWhile py_space a @ m @ rev (dropWhile py_space (rev b))"
proof -
  have "dropWhile py_space (a @ m @ b) = dropWhile py_space a @ m @ b"
    using assms(1) by (metis dropWhile_append1)
  moreover have "dropWhile py_space (rev (dropWhile py_space a @ m @ b)) =
      dropWhile py_space (rev b) @ rev (dropWhile py_space a @ m)"
    using assms(2) by (metis append_assoc dropWhile_append1 rev_append set_rev)
  ultimately show ?thesis by (simp add: py_strip_def)
qed

text \<open>A text with a newline inside is no number.\<close>

lemma dropWhile_some: "\<exists>c \<in> set a. \<not> P c \<Longrightarrow> dropWhile P a \<noteq> []"
  by (auto simp: dropWhile_eq_Nil_conv)

lemma no_int_with_newline:
  assumes "\<exists>c \<in> set a. \<not> py_space c" and "\<exists>c \<in> set b. \<not> py_space c"
  shows "py_int_str (a @ CHR 0x0A # b) = None"
proof -
  define a' where "a' = dropWhile py_space a"
  define b' where "b' = rev (dropWhile py_space (rev b))"
  have st: "py_strip (a @ CHR 0x0A # b) = a' @ CHR 0x0A # b'" and ne: "a' \<noteq> []"
    using strip_around [OF assms, of "[CHR 0x0A]"] dropWhile_some [OF assms(1)] by (simp_all add: a'_def b'_def)
  obtain neg t where st2: "strip_sign (a' @ CHR 0x0A # b') = (neg, t)" by fastforce
  have "CHR 0x0A \<in> set t"
    using st2 ne by (cases a') (auto simp: strip_sign_def starts_with_def split: if_splits)
  then have "\<not> all_digits (filter (\<lambda>c. c \<noteq> CHR ''_'') t)" by (auto simp: all_digits_def)
  then show ?thesis by (simp add: py_int_str_def st st2 Let_def)
qed

lemma py_int_str_strip: "py_strip s = py_strip t \<Longrightarrow> py_int_str s = py_int_str t"
  by (simp add: py_int_str_def)

lemma drop_while_stripped: "dropWhile py_space (py_strip s) = py_strip s"
proof (cases "py_strip s")
  case (Cons c cs)
  have "\<not> py_space c"
  proof
    assume c: "py_space c"
    define u where "u = dropWhile py_space s"
    have r: "rev (dropWhile py_space (rev u)) = c # cs" using Cons by (simp add: py_strip_def u_def)
    obtain v where "rev u = v @ dropWhile py_space (rev u)" by (metis takeWhile_dropWhile_id)
    then have "u = (c # cs) @ rev v" using r by (metis rev_append rev_rev_ident)
    then have "u = c # (cs @ rev v)" by simp
    with c show False unfolding u_def by (metis dropWhile_eq_Cons_conv)
  qed
  then show ?thesis by (simp add: Cons)
qed simp

lemma py_strip_idem: "py_strip (py_strip s) = py_strip s"
  unfolding py_strip_def [of "py_strip s"] drop_while_stripped
  by (simp add: py_strip_def)

text \<open>A machine with several GPUs reports none. \<open>nvidia-smi\<close> prints one line per GPU; the reader
  splits the whole output at commas, so the fifth field holds the first temperature, a newline
  and the second GPU's name, which is no number. The node announces only its CPU.\<close>

theorem several_gpus_unseen:
  assumes "list_all (\<lambda>f. \<exists>c \<in> set f. \<not> py_space c) [nm_a, temp_a, nm_b, rest_b]"
    and "list_all (\<lambda>f. CHR '','' \<notin> set f) [nm_a, vram_a, used_a, util_a, temp_a, nm_b]"
    and "out = join_with CHR '','' [nm_a, vram_a, used_a, util_a, temp_a @ CHR 0x0A # nm_b, rest_b]"
  shows "detect_gpu (Exited 0 out) = None \<and>
    build_capabilities (detect_gpu (Exited 0 out)) cpu = [''cpu:'' @ show_int (cp_cores cpu) @ ''core'']"
proof -
  define na where "na = dropWhile py_space nm_a"
  define rb where "rb = rev (dropWhile py_space (rev rest_b))"
  let ?five = "temp_a @ CHR 0x0A # nm_b"
  have st: "py_strip out = na @ CHR '','' # vram_a @ CHR '','' # used_a @ CHR '','' # util_a @ CHR '','' # ?five @ CHR '','' # rb"
    using strip_around [of nm_a rest_b "CHR '','' # vram_a @ CHR '','' # used_a @ CHR '','' # util_a @ CHR '','' # ?five @ [CHR '','']"]
      assms(1) by (simp add: assms(3) na_def rb_def)
  have vals: "CHR '','' \<notin> set vram_a" "CHR '','' \<notin> set used_a" "CHR '','' \<notin> set util_a"
    using assms(2) by simp_all
  have "CHR '','' \<notin> set na" "CHR '','' \<notin> set ?five"
    using assms(2) set_dropWhileD [of "CHR '',''" py_space nm_a] by (auto simp: na_def)
  then have sp: "split_on CHR '','' (py_strip out) = na # vram_a # used_a # util_a # ?five # split_on CHR '','' rb"
    unfolding st using vals by (simp only: split_on_append not_False_eq_True)
  have "py_int_str (py_strip ?five) = None"
    using no_int_with_newline [of temp_a nm_b] py_int_str_strip [OF py_strip_idem] assms(1) by simp
  then have "detect_gpu (Exited 0 out) = None"
    by (auto simp: detect_gpu_def sp Let_def split: option.splits)
  then show ?thesis by (simp add: build_capabilities_def)
qed

theorem several_gpus_unseen_witness:
  "detect_gpu (Exited 0 (''A4000, 16376, 10, 3, 41'' @ CHR 0x0A # ''A4000, 16376, 12, 5, 40'')) = None"
  using several_gpus_unseen [of "''A4000''" "'' 41''" "''A4000''" "'' 16376, 12, 5, 40''" "'' 16376''" "'' 10''" "'' 3''"]
  by (simp add: py_space_def)

text \<open>The capabilities of a machine with one GPU.\<close>

lemma one_gpu_capabilities:
  "build_capabilities (Some \<lparr>gp_name = ''NVIDIA GeForce RTX 4090'', gp_vram_total_mb = 24564,
      gp_vram_used_mb = 0, gp_utilization = NaN, gp_temperature = 41\<rparr>) \<lparr>cp_model = ''x'', cp_cores = 32\<rparr> =
    [''gpu:rtx4090:23gb'', ''cpu:32core'']"
  by code_simp

text \<open>The poller outlives every failure and keeps its pace: whatever the relay does with the
  messages, each cycle hands it one message for the hardware found in that cycle and then sleeps
  the interval, and what the cycle sends says the same about the GPU as its capabilities do.\<close>

theorem poller_keeps_polling:
  "run_poller isof send interval cycles w =
     (replicate (length cycles) interval, fold (poll_once isof send) cycles w) \<and>
   (\<forall>now gpu cpu. let p = build_metrics_payload isof now gpu cpu
      in (mp_gpu_utilization p = None) = (length (mp_capabilities p) = 1) \<and>
         last (mp_capabilities p) = ''cpu:'' @ show_int (mp_cpu_cores p) @ ''core'')"
proof (intro conjI allI)
  show "run_poller isof send interval cycles w =
     (replicate (length cycles) interval, fold (poll_once isof send) cycles w)"
    by (induction cycles arbitrary: w) simp_all
  show "let p = build_metrics_payload isof now gpu cpu
      in (mp_gpu_utilization p = None) = (length (mp_capabilities p) = 1) \<and>
         last (mp_capabilities p) = ''cpu:'' @ show_int (mp_cpu_cores p) @ ''core''" for now gpu cpu
    by (cases gpu) (simp_all add: build_metrics_payload_def build_capabilities_def Let_def)
qed

end
