(* ===== verification/Sdk.thy ===== *)
theory Sdk
  imports Py_Strings
begin

text \<open>
  The Python SDK: the exceptions of \<^verbatim>\<open>sdk/python/rendertrust/exceptions.py\<close>, the blocking client of
  \<^verbatim>\<open>sdk/python/rendertrust/client.py\<close> and the asynchronous one of
  \<^verbatim>\<open>sdk/python/rendertrust/async_client.py\<close>.

  \<open>http\<close> is the HTTP library's request and \<open>stream\<close> its streamed download, over a state \<open>'w\<close> of the
  network; either may raise. A blocking method is a state transformer. An asynchronous method is
  a \<open>coroutine\<close>: a tree of its atomic pieces, which an event loop runs and between which it may
  run others. \<open>py_str\<close> prints decoded values that are no strings.
\<close>

section \<open>Errors\<close>

datatype sdk_class =
    RenderTrustError | AuthenticationError | NotFoundError | InsufficientCredits
  | ValidationError | ServiceUnavailableError

datatype sdk_exc =
    ApiError sdk_class json int json
  | TransportError string
  | NotJson
  | HTTPStatusError int
  | PyError py_exc

fun sdk_class_name :: "sdk_class \<Rightarrow> string" where
  "sdk_class_name RenderTrustError = ''RenderTrustError''"
| "sdk_class_name AuthenticationError = ''AuthenticationError''"
| "sdk_class_name NotFoundError = ''NotFoundError''"
| "sdk_class_name InsufficientCredits = ''InsufficientCreditsError''"
| "sdk_class_name ValidationError = ''ValidationError''"
| "sdk_class_name ServiceUnavailableError = ''ServiceUnavailableError''"

definition sdk_error_repr :: "(json \<Rightarrow> string) \<Rightarrow> sdk_class \<Rightarrow> json \<Rightarrow> int option \<Rightarrow> string" where
  "sdk_error_repr py_repr cls msg status_code =
     sdk_class_name cls @ ''(message='' @ py_repr msg @ '', status_code='' @
     (case status_code of None \<Rightarrow> ''None'' | Some n \<Rightarrow> show_int n) @ '')''"

section \<open>Requests and responses\<close>

datatype http_verb = GET | POST

record http_request =
  rq_verb :: http_verb
  rq_url :: string
  rq_params :: "(string \<times> json) list"
  rq_json :: "json option"
  rq_headers :: "(string \<times> string) list"

text \<open>The body as JSON is \<open>None\<close> where \<open>response.json()\<close> raises.\<close>

record http_response =
  hr_status :: int
  hr_json :: "json option"
  hr_text :: string

definition is_success :: "http_response \<Rightarrow> bool" where
  "is_success r \<longleftrightarrow> 200 \<le> hr_status r \<and> hr_status r < 300"

record sdk_client =
  sc_base_url :: string
  sc_api_key :: "string option"
  sc_token :: json
  sc_refresh_token :: json
  sc_timeout :: rat
  sc_closed :: bool

definition new_sdk_client :: "string \<Rightarrow> string option \<Rightarrow> string option \<Rightarrow> rat \<Rightarrow> sdk_client" where
  "new_sdk_client base_url api_key token timeout =
     \<lparr>sc_base_url = rstrip_char CHR ''/'' base_url, sc_api_key = api_key,
      sc_token = (case token of None \<Rightarrow> JNull | Some t \<Rightarrow> JStr t), sc_refresh_token = JNull,
      sc_timeout = timeout, sc_closed = False\<rparr>"

definition close_sdk :: "sdk_client \<Rightarrow> sdk_client" where
  "close_sdk c = c\<lparr>sc_closed := True\<rparr>"

definition sdk_headers :: "(json \<Rightarrow> string) \<Rightarrow> sdk_client \<Rightarrow> (string \<times> string) list" where
  "sdk_headers py_str c =
     (if json_truthy (sc_token c) then [(''Authorization'', ''Bearer '' @ str_of py_str (sc_token c))] else []) @
     (case sc_api_key c of
        None \<Rightarrow> []
      | Some k \<Rightarrow> if k = '''' then [] else [(''X-API-Key'', k)])"

definition error_class :: "int \<Rightarrow> sdk_class" where
  "error_class status_code =
     (if status_code = 401 then AuthenticationError
      else if status_code = 402 then InsufficientCredits
      else if status_code = 404 then NotFoundError
      else if status_code = 422 then ValidationError
      else if status_code = 503 then ServiceUnavailableError
      else RenderTrustError)"

definition handle_response :: "(json \<Rightarrow> string) \<Rightarrow> http_response \<Rightarrow> sdk_exc + json" where
  "handle_response py_str response =
     (if is_success response
      then (case hr_json response of None \<Rightarrow> Inl NotJson | Some j \<Rightarrow> Inr j)
      else let body = (case hr_json response of
                         Some b \<Rightarrow> b
                       | None \<Rightarrow> JObj [(''detail'', JStr (hr_text response))])
           in case get_default ''detail'' (JStr (py_str body)) body of
                Inl x \<Rightarrow> Inl (PyError x)
              | Inr detail \<Rightarrow> Inl (ApiError (error_class (hr_status response)) detail (hr_status response) body))"

fun sdk_bind :: "sdk_exc + 'a \<Rightarrow> ('a \<Rightarrow> sdk_exc + 'b) \<Rightarrow> sdk_exc + 'b" where
  "sdk_bind (Inl x) f = Inl x"
| "sdk_bind (Inr a) f = f a"

definition lift_py :: "py_exc + 'a \<Rightarrow> sdk_exc + 'a" where
  "lift_py r = (case r of Inl x \<Rightarrow> Inl (PyError x) | Inr a \<Rightarrow> Inr a)"

section \<open>The blocking client\<close>

type_synonym 'w http = "http_request \<Rightarrow> 'w \<Rightarrow> (sdk_exc + http_response) \<times> 'w"

text \<open>A streamed download: its status, the chunks that arrive, and whether it ends without an error.\<close>

type_synonym 'w stream = "json \<Rightarrow> 'w \<Rightarrow> (sdk_exc + int \<times> bytes list \<times> bool) \<times> 'w"

type_synonym files = "string \<rightharpoonup> bytes"

definition sdk_call :: "(json \<Rightarrow> string) \<Rightarrow> 'w http \<Rightarrow> http_request \<Rightarrow> 'w \<Rightarrow> (sdk_exc + json) \<times> 'w" where
  "sdk_call py_str http rq w =
     (case http rq w of (r, w') \<Rightarrow> (sdk_bind r (handle_response py_str), w'))"

definition simple_request :: "(json \<Rightarrow> string) \<Rightarrow> sdk_client \<Rightarrow> http_verb \<Rightarrow> string \<Rightarrow> http_request" where
  "simple_request py_str c verb path =
     \<lparr>rq_verb = verb, rq_url = sc_base_url c @ path, rq_params = [], rq_json = None,
      rq_headers = sdk_headers py_str c\<rparr>"

definition login_request :: "(json \<Rightarrow> string) \<Rightarrow> sdk_client \<Rightarrow> string \<Rightarrow> string \<Rightarrow> http_request" where
  "login_request py_str c email password =
     (simple_request py_str c POST ''/api/v1/auth/login'')
       \<lparr>rq_json := Some (JObj [(''email'', JStr email), (''password'', JStr password)])\<rparr>"

definition submit_request ::
  "(json \<Rightarrow> string) \<Rightarrow> sdk_client \<Rightarrow> string \<Rightarrow> json \<Rightarrow> (string \<times> json) list \<Rightarrow> http_request" where
  "submit_request py_str c job_type payload kwargs =
     (let payload_ref = (case json_get ''ref'' payload of Some r \<Rightarrow> r | None \<Rightarrow> JStr (py_str payload))
      in (simple_request py_str c POST ''/api/v1/jobs/dispatch'')
           \<lparr>rq_json := Some (JObj ([(''job_type'', JStr job_type), (''payload_ref'', payload_ref)] @ kwargs))\<rparr>)"

definition list_request :: "(json \<Rightarrow> string) \<Rightarrow> sdk_client \<Rightarrow> string option \<Rightarrow> int \<Rightarrow> http_request" where
  "list_request py_str c status limit =
     (simple_request py_str c GET ''/api/v1/jobs'')
       \<lparr>rq_params := (''limit'', JNum (of_int limit)) #
          (case status of None \<Rightarrow> [] | Some s \<Rightarrow> [(''status'', JStr s)])\<rparr>"

definition sdk_login ::
  "(json \<Rightarrow> string) \<Rightarrow> 'w http \<Rightarrow> string \<Rightarrow> string \<Rightarrow> sdk_client \<times> 'w \<Rightarrow> (sdk_exc + json) \<times> sdk_client \<times> 'w" where
  "sdk_login py_str http email password st =
     (case st of (c, w) \<Rightarrow>
        (case sdk_call py_str http (login_request py_str c email password) w of
           (Inl x, w') \<Rightarrow> (Inl x, c, w')
         | (Inr data, w') \<Rightarrow>
             (case get_item ''access_token'' data of
                Inl x \<Rightarrow> (Inl (PyError x), c, w')
              | Inr tok \<Rightarrow>
                  (let c1 = c\<lparr>sc_token := tok\<rparr>
                   in case get_default ''refresh_token'' JNull data of
                        Inl x \<Rightarrow> (Inl (PyError x), c1, w')
                      | Inr rt \<Rightarrow> (Inr data, c1\<lparr>sc_refresh_token := rt\<rparr>, w')))))"

definition sdk_submit_job where
  "sdk_submit_job py_str http c job_type payload kwargs w =
     sdk_call py_str http (submit_request py_str c job_type payload kwargs) w"

definition sdk_get_job where
  "sdk_get_job py_str http c job_id w =
     sdk_call py_str http (simple_request py_str c GET (''/api/v1/jobs/'' @ job_id)) w"

definition sdk_list_jobs where
  "sdk_list_jobs py_str http c status limit w =
     (case sdk_call py_str http (list_request py_str c status limit) w of
        (r, w') \<Rightarrow> (sdk_bind r (\<lambda>data. lift_py (get_default ''jobs'' (JArr []) data)), w'))"

definition sdk_cancel_job where
  "sdk_cancel_job py_str http c job_id w =
     sdk_call py_str http (simple_request py_str c POST (''/api/v1/jobs/'' @ job_id @ ''/cancel'')) w"

definition sdk_get_balance where
  "sdk_get_balance py_str http c w =
     sdk_call py_str http (simple_request py_str c GET ''/api/v1/credits/balance'') w"

definition sdk_health where
  "sdk_health py_str http c w = sdk_call py_str http (simple_request py_str c GET ''/health'') w"

text \<open>\<open>raise_for_status\<close> lets only a success pass; the file is then opened, truncated, and written
  chunk by chunk.\<close>

definition save_stream ::
  "(string \<Rightarrow> string) \<Rightarrow> string \<Rightarrow> sdk_exc + int \<times> bytes list \<times> bool \<Rightarrow> files \<Rightarrow> (sdk_exc + string) \<times> files" where
  "save_stream abspath path answer fs =
     (case answer of
        Inl x \<Rightarrow> (Inl x, fs)
      | Inr (status_code, chunks, ended) \<Rightarrow>
          if \<not> (200 \<le> status_code \<and> status_code < 300) then (Inl (HTTPStatusError status_code), fs)
          else (if ended then Inr (abspath path) else Inl (TransportError ''stream''),
                fs(path \<mapsto> concat chunks)))"

definition result_path :: "string \<Rightarrow> string option \<Rightarrow> string" where
  "result_path job_id output_path = (case output_path of None \<Rightarrow> job_id @ ''.result'' | Some p \<Rightarrow> p)"

definition sdk_download_result ::
  "(json \<Rightarrow> string) \<Rightarrow> (string \<Rightarrow> string) \<Rightarrow> 'w http \<Rightarrow> 'w stream \<Rightarrow> sdk_client \<Rightarrow> string \<Rightarrow> string option \<Rightarrow>
   'w \<times> files \<Rightarrow> (sdk_exc + string) \<times> 'w \<times> files" where
  "sdk_download_result py_str abspath http stream c job_id output_path st =
     (case st of (w, fs) \<Rightarrow>
        (case sdk_call py_str http (simple_request py_str c GET (''/api/v1/jobs/'' @ job_id @ ''/result'')) w of
           (r, w') \<Rightarrow>
             (case sdk_bind r (\<lambda>data. lift_py (get_item ''download_url'' data)) of
                Inl x \<Rightarrow> (Inl x, w', fs)
              | Inr url \<Rightarrow>
                  (case stream url w' of
                     (answer, w'') \<Rightarrow>
                       (case save_stream abspath (result_path job_id output_path) answer fs of
                          (res, fs') \<Rightarrow> (res, w'', fs'))))))"


section \<open>The asynchronous client\<close>

text \<open>The pieces between which the event loop may run something else end in an \<open>Await\<close>. A file has one
  writer.\<close>

datatype 'a coroutine =
    Return 'a
  | ReadClient "sdk_client \<Rightarrow> 'a coroutine"
  | WriteToken json "'a coroutine"
  | WriteRefresh json "'a coroutine"
  | AwaitHttp http_request "sdk_exc + http_response \<Rightarrow> 'a coroutine"
  | AwaitStream json "sdk_exc + int \<times> bytes list \<times> bool \<Rightarrow> 'a coroutine"
  | AwaitChunk "'a coroutine"
  | Truncate string "'a coroutine"
  | Append string bytes "'a coroutine"

primrec run_coroutine ::
  "'w http \<Rightarrow> 'w stream \<Rightarrow> 'a coroutine \<Rightarrow> sdk_client \<times> 'w \<times> files \<Rightarrow> 'a \<times> sdk_client \<times> 'w \<times> files" where
  "run_coroutine http stream (Return a) = (\<lambda>st. (a, st))"
| "run_coroutine http stream (ReadClient k) = (\<lambda>st. run_coroutine http stream (k (fst st)) st)"
| "run_coroutine http stream (WriteToken t k) = (\<lambda>(c, st). run_coroutine http stream k (c\<lparr>sc_token := t\<rparr>, st))"
| "run_coroutine http stream (WriteRefresh t k) =
     (\<lambda>(c, st). run_coroutine http stream k (c\<lparr>sc_refresh_token := t\<rparr>, st))"
| "run_coroutine http stream (AwaitHttp rq k) =
     (\<lambda>(c, w, fs). case http rq w of (r, w') \<Rightarrow> run_coroutine http stream (k r) (c, w', fs))"
| "run_coroutine http stream (AwaitStream url k) =
     (\<lambda>(c, w, fs). case stream url w of (r, w') \<Rightarrow> run_coroutine http stream (k r) (c, w', fs))"
| "run_coroutine http stream (AwaitChunk k) = run_coroutine http stream k"
| "run_coroutine http stream (Truncate p k) =
     (\<lambda>(c, w, fs). run_coroutine http stream k (c, w, fs(p \<mapsto> [])))"
| "run_coroutine http stream (Append p bs k) =
     (\<lambda>(c, w, fs). run_coroutine http stream k
        (c, w, fs(p \<mapsto> (case fs p of None \<Rightarrow> [] | Some old \<Rightarrow> old) @ bs)))"

text \<open>The asynchronous client has its own copies of the constructor, of the headers and of the reading of
  a response.\<close>

definition new_async_client :: "string \<Rightarrow> string option \<Rightarrow> string option \<Rightarrow> rat \<Rightarrow> sdk_client" where
  "new_async_client base_url api_key token timeout =
     \<lparr>sc_base_url = rstrip_char CHR ''/'' base_url, sc_api_key = api_key,
      sc_token = (case token of Some t \<Rightarrow> JStr t | None \<Rightarrow> JNull), sc_refresh_token = JNull,
      sc_timeout = timeout, sc_closed = False\<rparr>"

definition close_async :: "sdk_client \<Rightarrow> sdk_client" where
  "close_async c = c\<lparr>sc_closed := True\<rparr>"

definition async_headers :: "(json \<Rightarrow> string) \<Rightarrow> sdk_client \<Rightarrow> (string \<times> string) list" where
  "async_headers py_str c =
     (let headers = []
      in let headers = (if json_truthy (sc_token c)
                        then headers @ [(''Authorization'', ''Bearer '' @ str_of py_str (sc_token c))] else headers)
      in (case sc_api_key c of
            Some k \<Rightarrow> if k \<noteq> '''' then headers @ [(''X-API-Key'', k)] else headers
          | None \<Rightarrow> headers))"

definition async_handle_response :: "(json \<Rightarrow> string) \<Rightarrow> http_response \<Rightarrow> sdk_exc + json" where
  "async_handle_response py_str response =
     (if is_success response
      then (case hr_json response of Some j \<Rightarrow> Inr j | None \<Rightarrow> Inl NotJson)
      else let status_code = hr_status response;
               body = (case hr_json response of
                         None \<Rightarrow> JObj [(''detail'', JStr (hr_text response))]
                       | Some b \<Rightarrow> b)
           in case get_default ''detail'' (JStr (py_str body)) body of
                Inl x \<Rightarrow> Inl (PyError x)
              | Inr detail \<Rightarrow>
                  if status_code = 401 then Inl (ApiError AuthenticationError detail status_code body)
                  else if status_code = 402 then Inl (ApiError InsufficientCredits detail status_code body)
                  else if status_code = 404 then Inl (ApiError NotFoundError detail status_code body)
                  else if status_code = 422 then Inl (ApiError ValidationError detail status_code body)
                  else if status_code = 503 then Inl (ApiError ServiceUnavailableError detail status_code body)
                  else Inl (ApiError RenderTrustError detail status_code body))"

lemma new_async_eq: "new_async_client = new_sdk_client"
  by (intro ext) (simp add: new_async_client_def new_sdk_client_def split: option.splits)

lemma async_headers_eq: "async_headers py_str c = sdk_headers py_str c"
  by (simp add: async_headers_def sdk_headers_def split: option.splits)

lemma async_handle_response_eq: "async_handle_response py_str r = handle_response py_str r"
  by (simp add: async_handle_response_def handle_response_def error_class_def Let_def split: option.splits sum.splits)

definition async_call ::
  "(json \<Rightarrow> string) \<Rightarrow> (sdk_client \<Rightarrow> http_request) \<Rightarrow> (sdk_exc + json \<Rightarrow> 'a coroutine) \<Rightarrow> 'a coroutine" where
  "async_call py_str rq k =
     ReadClient (\<lambda>c. AwaitHttp ((rq c)\<lparr>rq_headers := async_headers py_str c\<rparr>)
       (\<lambda>r. k (sdk_bind r (async_handle_response py_str))))"

lemma request_headers [simp]:
  "rq_headers (simple_request py_str c v p) = sdk_headers py_str c"
  "rq_headers (login_request py_str c e pw) = sdk_headers py_str c"
  "rq_headers (submit_request py_str c ty pl kw) = sdk_headers py_str c"
  "rq_headers (list_request py_str c st n) = sdk_headers py_str c"
  by (simp_all add: simple_request_def login_request_def submit_request_def list_request_def Let_def)

lemma request_id: "rq_headers rq = h \<Longrightarrow> rq\<lparr>rq_headers := h\<rparr> = rq"
  by (cases rq) simp

definition async_login :: "(json \<Rightarrow> string) \<Rightarrow> string \<Rightarrow> string \<Rightarrow> (sdk_exc + json) coroutine" where
  "async_login py_str email password =
     async_call py_str (\<lambda>c. login_request py_str c email password)
       (\<lambda>r. case r of
          Inl x \<Rightarrow> Return (Inl x)
        | Inr data \<Rightarrow>
            (case get_item ''access_token'' data of
               Inl x \<Rightarrow> Return (Inl (PyError x))
             | Inr tok \<Rightarrow>
                 WriteToken tok
                   (case get_default ''refresh_token'' JNull data of
                      Inl x \<Rightarrow> Return (Inl (PyError x))
                    | Inr rt \<Rightarrow> WriteRefresh rt (Return (Inr data)))))"

definition async_submit_job where
  "async_submit_job py_str job_type payload kwargs =
     async_call py_str (\<lambda>c. submit_request py_str c job_type payload kwargs) Return"

definition async_get_job where
  "async_get_job py_str job_id =
     async_call py_str (\<lambda>c. simple_request py_str c GET (''/api/v1/jobs/'' @ job_id)) Return"

definition async_list_jobs where
  "async_list_jobs py_str status limit =
     async_call py_str (\<lambda>c. list_request py_str c status limit)
       (\<lambda>r. Return (sdk_bind r (\<lambda>data. lift_py (get_default ''jobs'' (JArr []) data))))"

definition async_cancel_job where
  "async_cancel_job py_str job_id =
     async_call py_str (\<lambda>c. simple_request py_str c POST (''/api/v1/jobs/'' @ job_id @ ''/cancel'')) Return"

definition async_get_balance where
  "async_get_balance py_str =
     async_call py_str (\<lambda>c. simple_request py_str c GET ''/api/v1/credits/balance'') Return"

definition async_health where
  "async_health py_str = async_call py_str (\<lambda>c. simple_request py_str c GET ''/health'') Return"

fun append_chunks :: "string \<Rightarrow> bytes list \<Rightarrow> 'a coroutine \<Rightarrow> 'a coroutine" where
  "append_chunks p [] k = AwaitChunk k"
| "append_chunks p (ch # chs) k = AwaitChunk (Append p ch (append_chunks p chs k))"

definition async_save ::
  "(string \<Rightarrow> string) \<Rightarrow> string \<Rightarrow> sdk_exc + int \<times> bytes list \<times> bool \<Rightarrow> (sdk_exc + string) coroutine" where
  "async_save abspath path answer =
     (case answer of
        Inl x \<Rightarrow> Return (Inl x)
      | Inr (status_code, chunks, ended) \<Rightarrow>
          if \<not> (200 \<le> status_code \<and> status_code < 300) then Return (Inl (HTTPStatusError status_code))
          else Truncate path (append_chunks path chunks
                 (Return (if ended then Inr (abspath path) else Inl (TransportError ''stream'')))))"

definition async_download_result ::
  "(json \<Rightarrow> string) \<Rightarrow> (string \<Rightarrow> string) \<Rightarrow> string \<Rightarrow> string option \<Rightarrow> (sdk_exc + string) coroutine" where
  "async_download_result py_str abspath job_id output_path =
     async_call py_str (\<lambda>c. simple_request py_str c GET (''/api/v1/jobs/'' @ job_id @ ''/result''))
       (\<lambda>r. case sdk_bind r (\<lambda>data. lift_py (get_item ''download_url'' data)) of
          Inl x \<Rightarrow> Return (Inl x)
        | Inr url \<Rightarrow> AwaitStream url (async_save abspath (result_path job_id output_path)))"

section \<open>The web framework\<close>

text \<open>How an endpoint's result becomes a response: an answer is a 200 with its JSON, an
  \<open>HTTPException\<close> is its status with a \<open>detail\<close>, any other exception is a 500.\<close>

definition reply :: "py_exc + json \<Rightarrow> sdk_exc + http_response" where
  "reply r =
     (case r of
        Inr j \<Rightarrow> Inr \<lparr>hr_status = 200, hr_json = Some j, hr_text = ''''\<rparr>
      | Inl (HTTPException code detail) \<Rightarrow>
          Inr \<lparr>hr_status = int code, hr_json = Some (JObj [(''detail'', JStr detail)]), hr_text = ''''\<rparr>
      | Inl _ \<Rightarrow> Inr \<lparr>hr_status = 500, hr_json = None, hr_text = ''Internal Server Error''\<rparr>)"

lemma handle_reply:
  "sdk_bind (reply r) (handle_response py_str) =
     (case r of
        Inr j \<Rightarrow> Inr j
      | Inl (HTTPException code detail) \<Rightarrow>
          if 200 \<le> code \<and> code < 300 then Inr (JObj [(''detail'', JStr detail)])
          else Inl (ApiError (error_class (int code)) (JStr detail) (int code) (JObj [(''detail'', JStr detail)]))
      | Inl _ \<Rightarrow> Inl (ApiError RenderTrustError (JStr ''Internal Server Error'') 500
                   (JObj [(''detail'', JStr ''Internal Server Error'')])))"
  by (auto simp: reply_def handle_response_def is_success_def get_default_def error_class_def
      split: sum.splits py_exc.splits)

section \<open>Properties\<close>

lemma run_call:
  "rq_headers (rq c) = sdk_headers py_str c \<Longrightarrow>
   run_coroutine http stream (async_call py_str rq k) (c, w, fs) =
     (case sdk_call py_str http (rq c) w of (r, w') \<Rightarrow> run_coroutine http stream (k r) (c, w', fs))"
  by (simp add: async_call_def sdk_call_def request_id async_headers_eq async_handle_response_eq [abs_def] split: prod.splits)

lemma run_chunks:
  "run_coroutine http stream (append_chunks p chs k) (c, w, fs(p \<mapsto> old)) =
     run_coroutine http stream k (c, w, fs(p \<mapsto> old @ concat chs))"
  by (induction chs arbitrary: old) simp_all

lemma run_save:
  "run_coroutine http stream (async_save abspath path answer) (c, w, fs) =
     (case save_stream abspath path answer fs of (res, fs') \<Rightarrow> (res, c, w, fs'))"
proof -
  have "run_coroutine http stream (append_chunks path chs k) (c, w, fs(path \<mapsto> [])) =
      run_coroutine http stream k (c, w, fs(path \<mapsto> concat chs))" for chs and k :: "(sdk_exc + string) coroutine"
    using run_chunks [of http stream path chs k c w fs "[]"] by simp
  then show ?thesis
    by (auto simp: async_save_def save_stream_def split: sum.splits prod.splits)
qed

lemma run_login:
  "run_coroutine http stream (async_login py_str email password) (c, w, fs) =
     (case sdk_login py_str http email password (c, w) of (r, c', w') \<Rightarrow> (r, c', w', fs))"
  by (simp add: async_login_def run_call sdk_login_def Let_def split: sum.splits prod.splits)

lemma run_download:
  "run_coroutine http stream (async_download_result py_str abspath job_id path) (c, w, fs) =
     (case sdk_download_result py_str abspath http stream c job_id path (w, fs) of
        (r, w', fs') \<Rightarrow> (r, c, w', fs'))"
  by (simp add: async_download_result_def run_call sdk_download_result_def run_save
      split: sum.splits prod.splits)


text \<open>A login counts for what follows. After a login that succeeds, every request the client
  builds carries the new access token; the refresh token is kept and never sent, and a login
  that fails for bad credentials raises \<open>AuthenticationError\<close> and leaves the client as it was.\<close>

theorem sdk_login_authenticates:
  assumes "http (login_request py_str c email password) w = (Inr resp, w')"
  shows "(hr_status resp = 200 \<and> hr_json resp = Some (JObj kvs) \<and> json_get ''access_token'' (JObj kvs) = Some (JStr tok) \<and>
      tok \<noteq> '''' \<longrightarrow>
      (\<exists>c'. sdk_login py_str http email password (c, w) = (Inr (JObj kvs), c', w') \<and>
         (''Authorization'', ''Bearer '' @ tok) \<in> set (sdk_headers py_str c') \<and>
         sc_base_url c' = sc_base_url c \<and>
         (\<forall>c''. sc_token c'' = sc_token c' \<and> sc_api_key c'' = sc_api_key c' \<longrightarrow>
            sdk_headers py_str c'' = sdk_headers py_str c'))) \<and>
    (hr_status resp = 401 \<and> hr_json resp = Some (JObj [(''detail'', d)]) \<longrightarrow>
      sdk_login py_str http email password (c, w) =
        (Inl (ApiError AuthenticationError d 401 (JObj [(''detail'', d)])), c, w'))"
  using assms
  by (auto simp: sdk_login_def sdk_call_def handle_response_def is_success_def get_item_def get_default_def
      sdk_headers_def str_of_def error_class_def Let_def simp del: json_get.simps split: option.splits)
     (auto simp: get_default_def)


text \<open>A server that accepts every request with the same token pair.\<close>

definition token_pair :: json where
  "token_pair = JObj [(''access_token'', JStr ''A''), (''refresh_token'', JStr ''R''), (''token_type'', JStr ''bearer'')]"

theorem sdk_login_authenticates_witness:
  "\<exists>c'. sdk_login (\<lambda>_. '''') (\<lambda>rq w. (Inr \<lparr>hr_status = 200, hr_json = Some token_pair, hr_text = ''''\<rparr>, w)) ''e'' ''p''
      (new_sdk_client ''http://h/'' None None 30, ()) = (Inr token_pair, c', ()) \<and>
    (''Authorization'', ''Bearer A'') \<in> set (sdk_headers (\<lambda>_. '''') c')"
proof -
  let ?kvs = "[(''access_token'', JStr ''A''), (''refresh_token'', JStr ''R''), (''token_type'', JStr ''bearer'')]"
  let ?resp = "\<lparr>hr_status = 200, hr_json = Some token_pair, hr_text = ''''\<rparr>"
  note login = sdk_login_authenticates [where http = "\<lambda>rq w. (Inr ?resp, w)" and resp = ?resp and py_str = "\<lambda>_. ''''"
      and c = "new_sdk_client ''http://h/'' None None 30" and email = "''e''" and password = "''p''" and w = "()" and w' = "()"
      and tok = "''A''" and kvs = ?kvs, OF refl]
  have "hr_status ?resp = 200 \<and> hr_json ?resp = Some (JObj ?kvs) \<and>
      json_get ''access_token'' (JObj ?kvs) = Some (JStr ''A'') \<and> ''A'' \<noteq> ''''"
    by (simp add: token_pair_def)
  from mp [OF conjunct1 [OF login] this] show ?thesis
    unfolding token_pair_def append.simps by blast
qed

end
