(* ===== verification/Jobs_Api.thy ===== *)
theory Jobs_Api
  imports Jobs Dispatch Storage
begin

text \<open>
  The job endpoints of \<^verbatim>\<open>core/api/v1/jobs.py\<close>: list, get, cancel and the download URL of a
  result, over the job service and the storage service.

  \<open>auth\<close> is the outcome of the dependency \<open>get_current_user\<close> (only whether it raises matters: no
  endpoint looks at the user); \<open>isof\<close> is \<open>datetime.isoformat\<close>; \<open>commit_ok\<close> tells whether the database
  accepts the commit. The column \<open>updated_at\<close>, which the response repeats, is not in the model's
  rows and is left out of the response.
\<close>

section \<open>Responses\<close>

record job_response =
  jr_id :: string
  jr_node_id :: string
  jr_job_type :: string
  jr_payload_ref :: string
  jr_status :: string
  jr_result_ref :: "string option"
  jr_error_message :: "string option"
  jr_retry_count :: int
  jr_queued_at :: string
  jr_dispatched_at :: "string option"
  jr_completed_at :: "string option"
  jr_created_at :: string

definition job_response_of :: "(instant \<Rightarrow> string) \<Rightarrow> job \<Rightarrow> job_response" where
  "job_response_of isof j =
     \<lparr>jr_id = uuid_str (j_id j), jr_node_id = uuid_str (j_node j), jr_job_type = j_type j,
      jr_payload_ref = j_payload j, jr_status = job_status_value (j_status j),
      jr_result_ref = j_result j, jr_error_message = j_error j, jr_retry_count = j_retry j,
      jr_queued_at = isof (j_queued_at j), jr_dispatched_at = map_option isof (j_dispatched_at j),
      jr_completed_at = map_option isof (j_completed_at j), jr_created_at = isof (j_created_at j)\<rparr>"

record job_list_response =
  jl_jobs :: "job_response list"
  jl_count :: nat

record job_result_response =
  rr_job_id :: string
  rr_download_url :: string
  rr_expires_in :: int

section \<open>Endpoints\<close>

abbreviation invalid_id :: py_exc where
  "invalid_id \<equiv> HTTPException 422 ''Invalid job ID format''"

abbreviation api_job_not_found :: py_exc where
  "api_job_not_found \<equiv> HTTPException 404 ''Job not found''"

definition list_jobs_endpoint ::
  "py_exc + 'u \<Rightarrow> (instant \<Rightarrow> string) \<Rightarrow> string option \<Rightarrow> int \<Rightarrow> int \<Rightarrow> sched_db \<Rightarrow> py_exc + job_list_response" where
  "list_jobs_endpoint auth isof status_filter limit offset db =
     err_bind auth
       (\<lambda>_. if limit < 1 \<or> 100 < limit \<or> offset < 0 then Inl (HTTPException 422 ''validation error'')
            else err_bind
              (case status_filter of
                 None \<Rightarrow> Inr None
               | Some s \<Rightarrow>
                   (case job_status_of s of
                      None \<Rightarrow> Inl (HTTPException 422 (''Invalid status: '' @ s @ ''. Valid values: '' @
                                ''['' @ join_quoted (map job_status_value all_job_status) @ '']''))
                    | Some st \<Rightarrow> Inr (Some st)))
              (\<lambda>job_status.
                 let jobs = list_jobs job_status (nat limit) (nat offset) db;
                     rs = map (job_response_of isof) jobs
                 in Inr \<lparr>jl_jobs = rs, jl_count = length rs\<rparr>))"

definition get_job_endpoint ::
  "py_exc + 'u \<Rightarrow> (instant \<Rightarrow> string) \<Rightarrow> string \<Rightarrow> sched_db \<Rightarrow> py_exc + job_response" where
  "get_job_endpoint auth isof job_id db =
     err_bind auth
       (\<lambda>_. case uuid_parse job_id of
              None \<Rightarrow> Inl invalid_id
            | Some i \<Rightarrow>
                (case get_job i db of
                   None \<Rightarrow> Inl api_job_not_found
                 | Some j \<Rightarrow> Inr (job_response_of isof j)))"

definition cancel_job_endpoint ::
  "py_exc + 'u \<Rightarrow> (instant \<Rightarrow> string) \<Rightarrow> instant \<Rightarrow> bool \<Rightarrow> string \<Rightarrow> sched_db session \<Rightarrow>
   (py_exc + job_response) \<times> sched_db session" where
  "cancel_job_endpoint auth isof now commit_ok job_id s =
     (case auth of
        Inl x \<Rightarrow> (Inl x, s)
      | Inr _ \<Rightarrow>
          (case uuid_parse job_id of
             None \<Rightarrow> (Inl invalid_id, s)
           | Some i \<Rightarrow>
               (case cancel_job now i (working s) of
                  Inl (ValueError msg) \<Rightarrow>
                    (if has_sub ''not found'' (py_lower msg) then (Inl api_job_not_found, s)
                     else (Inl (HTTPException 400 msg), s))
                | Inl x \<Rightarrow> (Inl x, s)
                | Inr (j, db) \<Rightarrow>
                    let s1 = s\<lparr>working := db\<rparr>
                    in if commit_ok then (Inr (job_response_of isof j), commit s1)
                       else (Inl (OtherError ''commit''), rollback s1))))"

text \<open>An exception of the storage service is not handled by the endpoint: \<open>Unhandled\<close>.\<close>

datatype result_error = Refused py_exc | Unhandled storage_exc

definition get_job_result ::
  "py_exc + 'u \<Rightarrow> 's s3_client \<Rightarrow> 's \<Rightarrow> string \<Rightarrow> sched_db \<Rightarrow> result_error + job_result_response" where
  "get_job_result auth s3 bucket job_id db =
     (case auth of
        Inl x \<Rightarrow> Inl (Refused x)
      | Inr _ \<Rightarrow>
          (case uuid_parse job_id of
             None \<Rightarrow> Inl (Refused invalid_id)
           | Some i \<Rightarrow>
               (case get_job i db of
                  None \<Rightarrow> Inl (Refused api_job_not_found)
                | Some j \<Rightarrow>
                    if j_status j \<noteq> COMPLETED
                    then Inl (Refused (HTTPException 404 ''Job result not available: job is not completed''))
                    else
                      (case j_result j of
                         None \<Rightarrow> Inl (Refused (HTTPException 404 ''Job result not available: no result stored''))
                       | Some ref \<Rightarrow>
                           if ref = [] then Inl (Refused (HTTPException 404 ''Job result not available: no result stored''))
                           else
                             (case generate_presigned_url s3 ref 3600 bucket of
                                Inl x \<Rightarrow> Inl (Unhandled x)
                              | Inr url \<Rightarrow>
                                  Inr \<lparr>rr_job_id = uuid_str (j_id j), rr_download_url = url, rr_expires_in = 3600\<rparr>)))))"

section \<open>Properties\<close>

text \<open>The endpoint tells a missing job by the words of the error message. Only that message has them.\<close>

lemma not_found_message: "has_sub ''not found'' (py_lower (''Job not found: '' @ s))"
  by (simp add: py_lower_def lower_char_def starts_with_def)

fun value_error_text :: "py_exc \<Rightarrow> string" where
  "value_error_text (ValueError m) = m"
| "value_error_text x = ''''"

lemma cannot_cancel_message: "cannot_cancel st = ValueError m \<Longrightarrow> \<not> has_sub ''not found'' (py_lower m)"
proof -
  have "\<not> has_sub ''not found'' (py_lower (value_error_text (cannot_cancel st)))" by (cases st; hypsubst; code_simp)
  then show "cannot_cancel st = ValueError m \<Longrightarrow> \<not> has_sub ''not found'' (py_lower m)" by simp
qed

lemma cancel_endpoint_eq:
  "cancel_job_endpoint (Inr u) isof now commit_ok job_id s =
     (case uuid_parse job_id of
        None \<Rightarrow> (Inl invalid_id, s)
      | Some i \<Rightarrow>
          (case job_at i (working s) of
             None \<Rightarrow> (Inl api_job_not_found, s)
           | Some j \<Rightarrow>
               if j_status j \<notin> {QUEUED, DISPATCHED}
               then (Inl (HTTPException 400 (value_error_text (cannot_cancel (j_status j)))), s)
               else
                 let s1 = s\<lparr>working := put_job (cancelled now j) (working s)\<rparr>
                 in if commit_ok then (Inr (job_response_of isof (cancelled now j)), commit s1)
                    else (Inl (OtherError ''commit''), rollback s1)))"
proof (cases "uuid_parse job_id")
  case None
  then show ?thesis by (simp add: cancel_job_endpoint_def)
next
  case (Some i)
  show ?thesis
  proof (cases "job_at i (working s)")
    case None
    with Some show ?thesis
      using not_found_message [of "uuid_str i"]
      by (simp add: cancel_job_endpoint_def cancel_job_def job_not_found_def)
  next
    case j: (Some j)
    obtain m where m: "cannot_cancel (j_status j) = ValueError m" by (simp add: cannot_cancel_def)
    show ?thesis
      using Some j m cannot_cancel_message [OF m]
      by (cases "j_status j \<in> {QUEUED, DISPATCHED}")
        (auto simp: cancel_job_endpoint_def cancel_job_def Let_def)
  qed
qed

lemma cancel_endpoint_Inr:
  assumes "cancel_job_endpoint auth isof now commit_ok job_id s = (Inr r, s')"
  obtains u i j where "auth = Inr u" and "uuid_parse job_id = Some i" and "job_at i (working s) = Some j"
    and "r = job_response_of isof (cancelled now j)"
    and "s' = commit (s\<lparr>working := put_job (cancelled now j) (working s)\<rparr>)"
proof (cases auth)
  case (Inl x)
  with assms show ?thesis by (simp add: cancel_job_endpoint_def)
next
  case (Inr u)
  with assms that show ?thesis
    by (auto simp: cancel_endpoint_eq Let_def split: option.splits if_splits)
qed

text \<open>A cancellation that is answered is committed and final at the interface: the job is then
  reported \<open>FAILED\<close> with the response that was given, its result is refused, and every further
  cancellation answers 400 and changes nothing.\<close>

theorem cancel_endpoint_effect:
  assumes "cancel_job_endpoint auth isof now commit_ok job_id s = (Inr r, s')"
  shows "committed s' = working s' \<and> jr_status r = ''FAILED'' \<and>
    get_job_endpoint auth isof job_id (committed s') = Inr r \<and>
    (\<exists>e. get_job_result auth client bucket job_id (committed s') = Inl (Refused (HTTPException 404 e))) \<and>
    (\<exists>e. cancel_job_endpoint auth isof now' commit_ok' job_id s' = (Inl (HTTPException 400 e), s'))"
proof -
  obtain u i j where u: "auth = Inr u" and i: "uuid_parse job_id = Some i" and j: "job_at i (working s) = Some j"
    and c: "r = job_response_of isof (cancelled now j)"
    and s': "s' = commit (s\<lparr>working := put_job (cancelled now j) (working s)\<rparr>)"
    using assms by (rule cancel_endpoint_Inr)
  have row: "job_at i (working s') = Some (cancelled now j)"
    using j job_at_id [OF j] by (simp add: s')
  have "committed s' = working s'" by (simp add: s')
  with i row c show ?thesis
    by (simp add: cancel_endpoint_eq get_job_endpoint_def get_job_result_def get_job_def job_response_of_def u)
qed

text \<open>A database with one job.\<close>

definition one_job :: "job \<Rightarrow> sched_db session" where
  "one_job j = open_session \<lparr>sd_nodes = [], sd_jobs = [j], sd_dlq = []\<rparr>"

definition signing_s3 :: "unit s3_client" where
  "signing_s3 = \<lparr>put_object = (\<lambda>k d ct s. (Inr (), s)), get_object = (\<lambda>k s. Inr []),
     presigned_url = (\<lambda>k n s. Inr k), delete_object = (\<lambda>k s. (Inr (), s)), head_object = (\<lambda>k s. Inr ())\<rparr>"

theorem cancel_endpoint_effect_witness:
  "\<exists>r s'. cancel_job_endpoint (Inr ()) show_int 7 True (uuid_str 9) (one_job (new_job 9 5 1 ''render'' ''p'')) = (Inr r, s') \<and>
     jr_status r = ''FAILED''"
proof -
  have "\<exists>r s'. cancel_job_endpoint (Inr ()) show_int 7 True (uuid_str 9) (one_job (new_job 9 5 1 ''render'' ''p'')) = (Inr r, s')"
    by (simp add: cancel_endpoint_eq one_job_def Let_def)
  then obtain r s' where c: "cancel_job_endpoint (Inr ()) show_int 7 True (uuid_str 9)
      (one_job (new_job 9 5 1 ''render'' ''p'')) = (Inr r, s')" by blast
  from cancel_endpoint_effect [OF c, where client = signing_s3 and bucket = "()" and now' = 0 and commit_ok' = True] c
  show ?thesis by blast
qed

text \<open>The download endpoint hands out a URL exactly for a completed job whose stored reference is a
  valid storage key (when the object store signs it); for a completed job with any other reference,
  such as an absolute path, the storage error escapes instead of becoming an HTTP error.\<close>

theorem result_endpoint_outcomes:
  assumes "job_at i db = Some j" and "j_status j = COMPLETED" and "j_result j = Some ref" and "ref \<noteq> []"
    and "presigned_url s3 ref 3600 bucket = Inr url"
  shows "get_job_result (Inr u) s3 bucket (uuid_str i) db =
    (case validate_key ref of
       Inr _ \<Rightarrow> Inr \<lparr>rr_job_id = uuid_str i, rr_download_url = url, rr_expires_in = 3600\<rparr>
     | Inl e \<Rightarrow> Inl (Unhandled e))"
  using assms job_at_id [OF assms(1)]
  by (cases "validate_key ref") (simp_all add: get_job_result_def get_job_def generate_presigned_url_def)

definition done_job :: "string \<Rightarrow> job" where
  "done_job ref = (new_job 9 5 1 ''render'' ''p'')\<lparr>j_status := COMPLETED, j_result := Some ref\<rparr>"

theorem result_endpoint_outcomes_witness:
  "\<exists>e. get_job_result (Inr ()) signing_s3 () (uuid_str 9) (working (one_job (done_job ''/tmp/out''))) =
     Inl (Unhandled (StorageKeyError e))"
proof -
  have r: "job_at 9 (working (one_job (done_job ''/tmp/out''))) = Some (done_job ''/tmp/out'')"
    "j_status (done_job ''/tmp/out'') = COMPLETED" "j_result (done_job ''/tmp/out'') = Some ''/tmp/out''"
    by (simp_all add: one_job_def done_job_def)
  have "\<exists>e. validate_key ''/tmp/out'' = Inl (StorageKeyError e)"
    by (simp add: validate_key_def py_strip_def py_space_def starts_with_def)
  moreover have "presigned_url signing_s3 ''/tmp/out'' 3600 () = Inr ''/tmp/out''" by (simp add: signing_s3_def)
  ultimately show ?thesis using result_endpoint_outcomes [OF r, of signing_s3 "()" "''/tmp/out''" "()"] by auto
qed

end
