(* ===== verification/Sdk_Server.thy ===== *)
theory Sdk_Server
  imports Sdk Jobs_Api
begin

text \<open>
  The SDK against the API it was written for: the job methods of
  \<^verbatim>\<open>sdk/python/rendertrust/client.py\<close> with \<^verbatim>\<open>core/api/v1/jobs.py\<close> at the other end of the HTTP
  library. The web framework's part is \<open>reply\<close>.
\<close>

definition opt_json :: "string option \<Rightarrow> json" where
  "opt_json x = (case x of None \<Rightarrow> JNull | Some s \<Rightarrow> JStr s)"

definition job_json :: "job_response \<Rightarrow> json" where
  "job_json r =
     JObj [(''id'', JStr (jr_id r)), (''node_id'', JStr (jr_node_id r)), (''job_type'', JStr (jr_job_type r)),
           (''payload_ref'', JStr (jr_payload_ref r)), (''status'', JStr (jr_status r)),
           (''result_ref'', opt_json (jr_result_ref r)), (''error_message'', opt_json (jr_error_message r)),
           (''retry_count'', JNum (of_int (jr_retry_count r))), (''queued_at'', JStr (jr_queued_at r)),
           (''dispatched_at'', opt_json (jr_dispatched_at r)), (''completed_at'', opt_json (jr_completed_at r)),
           (''created_at'', JStr (jr_created_at r))]"

definition job_list_json :: "job_list_response \<Rightarrow> json" where
  "job_list_json r = JObj [(''jobs'', JArr (map job_json (jl_jobs r))), (''count'', JNum (of_nat (jl_count r)))]"

text \<open>The two routes: the list with its query parameters, and the cancellation of the job named in the
  path. Everything else is not found.\<close>

definition param_int :: "int \<Rightarrow> json option \<Rightarrow> int" where
  "param_int d v = (case v of Some j \<Rightarrow> (case py_int j of Some n \<Rightarrow> n | None \<Rightarrow> d) | None \<Rightarrow> d)"

definition param_str :: "json option \<Rightarrow> string option" where
  "param_str v = (case v of Some (JStr s) \<Rightarrow> Some s | _ \<Rightarrow> None)"

definition cancel_target :: "string \<Rightarrow> string \<Rightarrow> string option" where
  "cancel_target base url =
     (let pre = base @ ''/api/v1/jobs/'';
          rest = drop (length pre) url
      in if starts_with pre url \<and> starts_with (rev ''/cancel'') (rev rest)
         then Some (take (length rest - length ''/cancel'') rest) else None)"

definition job_server ::
  "string \<Rightarrow> py_exc + 'u \<Rightarrow> (instant \<Rightarrow> string) \<Rightarrow> instant \<Rightarrow> bool \<Rightarrow> sched_db session http" where
  "job_server base auth isof now commit_ok rq s =
     (if rq_verb rq = GET \<and> rq_url rq = base @ ''/api/v1/jobs'' then
        (reply (err_bind (list_jobs_endpoint auth isof (param_str (map_of (rq_params rq) ''status''))
             (param_int 50 (map_of (rq_params rq) ''limit'')) (param_int 0 (map_of (rq_params rq) ''offset'')) (working s))
           (\<lambda>r. Inr (job_list_json r))), s)
      else case cancel_target base (rq_url rq) of
        Some i \<Rightarrow>
          if rq_verb rq = POST then
            (case cancel_job_endpoint auth isof now commit_ok i s of
               (r, s') \<Rightarrow> (reply (err_bind r (\<lambda>j. Inr (job_json j))), s'))
          else (reply (Inl (HTTPException 405 ''Method Not Allowed'')), s)
      | None \<Rightarrow> (reply (Inl (HTTPException 404 ''Not Found'')), s))"

lemma cancel_target_path [simplified, simp]: "cancel_target base (base @ ''/api/v1/jobs/'' @ i @ ''/cancel'') = Some i"
  by (simp add: cancel_target_def starts_with_def Let_def)

lemma lower_status_unknown: "job_status_of (py_lower (job_status_value st)) = None"
  by (cases st; hypsubst; code_simp)

text \<open>The status filter works with the API's own spelling only. For every job status and every
  page size the API takes, \<open>list_jobs\<close> with the API's upper-case value returns exactly the jobs the
  job service lists for that status; with the lower-case spelling the SDK documents the call
  fails with \<open>ValidationError\<close>.\<close>

theorem status_filter_spelling:
  assumes "1 \<le> limit" and "limit \<le> 100" and "sc_base_url c = base"
  shows "sdk_list_jobs py_str (job_server base (Inr u) isof now commit_ok) c (Some (job_status_value st)) limit s =
      (Inr (JArr (map (\<lambda>j. job_json (job_response_of isof j)) (list_jobs (Some st) (nat limit) 0 (working s)))), s) \<and>
    (\<exists>d b. sdk_list_jobs py_str (job_server base (Inr u) isof now commit_ok) c
         (Some (py_lower (job_status_value st))) limit s = (Inl (ApiError ValidationError d 422 b), s))"
  using assms
  by (simp add: sdk_list_jobs_def sdk_call_def job_server_def list_request_def simple_request_def param_str_def
      param_int_def handle_reply list_jobs_endpoint_def lower_status_unknown job_list_json_def lift_py_def
      get_default_def Let_def error_class_def comp_def)

text \<open>A cancellation through the SDK ends in FAILED. Whenever \<open>cancel_job\<close> returns, the job object
  it returns has the status FAILED, not the "cancelled" of the documentation, and the change is
  committed; when it raises an API error nothing has changed.\<close>

theorem sdk_cancel_outcome:
  assumes "sc_base_url c = base"
    and "sdk_cancel_job py_str (job_server base (Inr u) isof now commit_ok) c i s = (r, s')"
  shows "case r of
      Inr j \<Rightarrow> json_get ''status'' j = Some (JStr ''FAILED'') \<and> committed s' = working s'
    | Inl _ \<Rightarrow> committed s' = committed s"
proof -
  obtain e t where e: "cancel_job_endpoint (Inr u) isof now commit_ok i s = (e, t)" by fastforce
  then have r: "r = sdk_bind (reply (err_bind e (\<lambda>j. Inr (job_json j)))) (handle_response py_str)" "s' = t"
    using assms
    by (auto simp: sdk_cancel_job_def sdk_call_def job_server_def simple_request_def)
  show ?thesis
  proof (cases e)
    case (Inr j)
    with e obtain u' k job where "j = job_response_of isof (cancelled now job)"
      "t = commit (s\<lparr>working := put_job (cancelled now job) (working s)\<rparr>)"
      by (auto elim: cancel_endpoint_Inr)
    with r Inr show ?thesis
      by (simp add: handle_reply job_json_def job_response_of_def cancelled_def)
  next
    case (Inl x)
    then have "committed t = committed s" "\<forall>c d. x = HTTPException c d \<longrightarrow> \<not> (200 \<le> c \<and> c < 300)"
      using e by (auto simp: cancel_endpoint_eq Let_def split: option.splits if_splits)
    with r Inl show ?thesis
      by (auto simp: handle_reply split: py_exc.splits)
  qed
qed

definition demo_sdk :: sdk_client where
  "demo_sdk = new_sdk_client ''http://h/'' None (Some ''t'') 30"

theorem status_filter_spelling_witness:
  "\<exists>d b. sdk_list_jobs (\<lambda>_. '''') (job_server ''http://h'' (Inr ()) show_int 0 True) demo_sdk
     (Some (py_lower ''QUEUED'')) 50 (one_job (new_job 9 5 1 ''render'' ''p'')) =
   (Inl (ApiError ValidationError d 422 b), one_job (new_job 9 5 1 ''render'' ''p''))"
  using status_filter_spelling [where limit = 50 and c = demo_sdk and base = "''http://h''" and st = QUEUED
      and s = "one_job (new_job 9 5 1 ''render'' ''p'')" and py_str = "\<lambda>_. ''''" and u = "()" and isof = show_int
      and now = 0 and commit_ok = True]
  by (simp add: demo_sdk_def new_sdk_client_def rstrip_char_def)

theorem sdk_cancel_outcome_witness:
  "\<exists>j s'. sdk_cancel_job (\<lambda>_. '''') (job_server ''http://h'' (Inr ()) show_int 7 True) demo_sdk (uuid_str 9)
      (one_job (new_job 9 5 1 ''render'' ''p'')) = (Inr j, s') \<and>
    json_get ''status'' j = Some (JStr ''FAILED'')"
proof -
  have base: "sc_base_url demo_sdk = ''http://h''"
    by (simp add: demo_sdk_def new_sdk_client_def rstrip_char_def)
  have "\<exists>j s'. sdk_cancel_job (\<lambda>_. '''') (job_server ''http://h'' (Inr ()) show_int 7 True) demo_sdk (uuid_str 9)
      (one_job (new_job 9 5 1 ''render'' ''p'')) = (Inr j, s')"
    using base cancel_target_path [of "''http://h''" "uuid_str 9"]
    by (simp add: sdk_cancel_job_def sdk_call_def job_server_def simple_request_def cancel_endpoint_eq one_job_def
        Let_def handle_reply)
  then obtain j s' where r: "sdk_cancel_job (\<lambda>_. '''') (job_server ''http://h'' (Inr ()) show_int 7 True) demo_sdk (uuid_str 9)
      (one_job (new_job 9 5 1 ''render'' ''p'')) = (Inr j, s')" by blast
  from sdk_cancel_outcome [OF base r] r show ?thesis by auto
qed

end
