(* ===== verification/Certs.thy ===== *)
theory Certs
  imports Py_Strings
begin

text \<open>
  Certificates for mutual TLS: the authority of \<^verbatim>\<open>core/relay/tls.py\<close>, the endpoints of
  \<^verbatim>\<open>core/api/v1/certs.py\<close>, and the edge node's side in \<^verbatim>\<open>edgekit/relay/tls.py\<close>.

  The X.509 and TLS libraries are a record of functions, \<open>x509_lib\<close>: keys are opaque values of
  type \<open>'k\<close>, public keys of type \<open>'p\<close>. \<open>lib_ok\<close> states what the code relies on: PEM encoding is
  read back, and a signature verifies under the signer's public key. Fresh keys and serial
  numbers are arguments. PEM texts are kept as their bytes. Validity instants are cut to whole
  seconds, as the encoding does.
\<close>

section \<open>Certificates\<close>

type_synonym x509_name = "(string \<times> string) list"

datatype 'p extension =
    BasicConstraints bool "nat option"
  | KeyUsage "string list"
  | SubjectKeyIdentifier 'p
  | ExtendedKeyUsage "string list"
  | SubjectAlternativeName "string list"

record 'p tbs =
  tb_subject :: x509_name
  tb_issuer :: x509_name
  tb_public_key :: 'p
  tb_serial :: nat
  tb_not_before :: instant
  tb_not_after :: instant
  tb_extensions :: "('p extension \<times> bool) list"

type_synonym 'p certificate = "'p tbs \<times> bytes"

record ('k, 'p) x509_lib =
  xl_public :: "'k \<Rightarrow> 'p"
  xl_sign :: "'k \<Rightarrow> 'p tbs \<Rightarrow> bytes"
  xl_verify :: "'p \<Rightarrow> bytes \<Rightarrow> 'p tbs \<Rightarrow> bool"
  xl_cert_pem :: "'p certificate \<Rightarrow> bytes"
  xl_load_cert :: "bytes \<Rightarrow> 'p certificate option"
  xl_key_pem :: "'k \<Rightarrow> bytes"
  xl_load_key :: "bytes \<Rightarrow> 'k option"
  xl_csr_pem :: "x509_name \<Rightarrow> string list \<Rightarrow> 'k \<Rightarrow> bytes"
  xl_builds :: "'p tbs \<Rightarrow> bool"
  xl_names :: "x509_name \<Rightarrow> string list \<Rightarrow> bool"

definition lib_ok :: "('k, 'p) x509_lib \<Rightarrow> bool" where
  "lib_ok lib \<longleftrightarrow>
     (\<forall>c. xl_load_cert lib (xl_cert_pem lib c) = Some c) \<and>
     (\<forall>k. xl_load_key lib (xl_key_pem lib k) = Some k) \<and>
     (\<forall>k t. xl_verify lib (xl_public lib k) (xl_sign lib k t) t)"

definition whole_second :: "instant \<Rightarrow> instant" where
  "whole_second t = t div 1000000 * 1000000"

definition days_us :: "int \<Rightarrow> int" where
  "days_us n = seconds (n * 86400)"

section \<open>The authority\<close>

definition ca_common_name :: string where "ca_common_name = ''RenderTrust Internal CA''"
definition ca_default_days :: int where "ca_default_days = 3650"
definition node_default_days :: int where "node_default_days = 90"

definition node_cn :: "string \<Rightarrow> string" where
  "node_cn node_id = ''node-'' @ node_id @ ''.rendertrust.local''"

definition subject_name :: "string \<Rightarrow> string \<Rightarrow> x509_name" where
  "subject_name cn unit_name =
     [(''CN'', cn), (''O'', ''RenderTrust''), (''OU'', unit_name)]"

definition ca_tbs :: "'p \<Rightarrow> nat \<Rightarrow> instant \<Rightarrow> string \<Rightarrow> int \<Rightarrow> 'p tbs" where
  "ca_tbs pub serial now common_name days =
     \<lparr>tb_subject = subject_name common_name ''Infrastructure'',
      tb_issuer = subject_name common_name ''Infrastructure'', tb_public_key = pub, tb_serial = serial,
      tb_not_before = whole_second now, tb_not_after = whole_second (now + days_us days),
      tb_extensions =
        [(BasicConstraints True (Some 0), True),
         (KeyUsage [''digital_signature'', ''key_cert_sign'', ''crl_sign''], True),
         (SubjectKeyIdentifier pub, False)]\<rparr>"

definition generate_ca ::
  "('k, 'p) x509_lib \<Rightarrow> 'k \<Rightarrow> nat \<Rightarrow> instant \<Rightarrow> string \<Rightarrow> int \<Rightarrow> py_exc + bytes \<times> bytes" where
  "generate_ca lib ca_key serial now common_name days =
     (let t = ca_tbs (xl_public lib ca_key) serial now common_name days
      in if xl_names lib (tb_subject t) [] \<and> xl_builds lib t
         then Inr (xl_cert_pem lib (t, xl_sign lib ca_key t), xl_key_pem lib ca_key)
         else Inl (ValueError ''certificate''))"

definition node_tbs :: "x509_name \<Rightarrow> 'p \<Rightarrow> nat \<Rightarrow> instant \<Rightarrow> string \<Rightarrow> int \<Rightarrow> 'p tbs" where
  "node_tbs issuer pub serial now node_id days =
     \<lparr>tb_subject = subject_name (node_cn node_id) ''Edge Nodes'', tb_issuer = issuer, tb_public_key = pub,
      tb_serial = serial, tb_not_before = whole_second now, tb_not_after = whole_second (now + days_us days),
      tb_extensions =
        [(BasicConstraints False None, True), (KeyUsage [''digital_signature'', ''key_encipherment''], True),
         (ExtendedKeyUsage [''CLIENT_AUTH''], False), (SubjectAlternativeName [node_cn node_id], False)]\<rparr>"

definition issue_node_cert ::
  "('k, 'p) x509_lib \<Rightarrow> 'k \<Rightarrow> nat \<Rightarrow> instant \<Rightarrow> bytes \<Rightarrow> bytes \<Rightarrow> string \<Rightarrow> int \<Rightarrow> py_exc + bytes \<times> bytes" where
  "issue_node_cert lib node_key serial now ca_cert_pem ca_key_pem node_id days =
     (case (xl_load_cert lib ca_cert_pem, xl_load_key lib ca_key_pem) of
        (Some ca_cert, Some ca_key) \<Rightarrow>
          (let t = node_tbs (tb_subject (fst ca_cert)) (xl_public lib node_key) serial now node_id days
           in if xl_names lib (tb_subject t) [node_cn node_id] \<and> xl_builds lib t
              then Inr (xl_cert_pem lib (t, xl_sign lib ca_key t), xl_key_pem lib node_key)
              else Inl (ValueError ''certificate''))
      | _ \<Rightarrow> Inl (ValueError ''PEM''))"

text \<open>A TLS context: whether it asks the peer for a certificate and the name in it, the trusted
  authority, and its own chain. \<open>load_cert_chain\<close> refuses a key that is not the certificate's.\<close>

type_synonym pem_files = "string \<rightharpoonup> bytes"

record 'p tls_context =
  tc_server :: bool
  tc_cert_required :: bool
  tc_check_hostname :: bool
  tc_trusted :: "'p certificate"
  tc_chain :: "'p certificate"
  tc_minimum :: string

definition load_cert_chain :: "('k, 'p) x509_lib \<Rightarrow> bytes \<Rightarrow> bytes \<Rightarrow> py_exc + 'p certificate" where
  "load_cert_chain lib cert_pem key_pem =
     (case (xl_load_cert lib cert_pem, xl_load_key lib key_pem) of
        (Some c, Some k) \<Rightarrow>
          if tb_public_key (fst c) = xl_public lib k then Inr c
          else Inl (OtherError ''SSLError: KEY_VALUES_MISMATCH'')
      | _ \<Rightarrow> Inl (OtherError ''SSLError: PEM''))"

definition not_found :: "string \<Rightarrow> string \<Rightarrow> py_exc" where
  "not_found label path = OtherError (''FileNotFoundError: '' @ label @ '' not found: '' @ path)"

definition make_context ::
  "('k, 'p) x509_lib \<Rightarrow> bool \<Rightarrow> bool \<Rightarrow> bytes \<Rightarrow> bytes \<Rightarrow> bytes \<Rightarrow> py_exc + 'p tls_context" where
  "make_context lib server check_hostname ca cert key =
     (case xl_load_cert lib ca of
        None \<Rightarrow> Inl (OtherError ''SSLError: PEM'')
      | Some trusted \<Rightarrow>
          err_bind (load_cert_chain lib cert key)
            (\<lambda>chain. Inr \<lparr>tc_server = server, tc_cert_required = True, tc_check_hostname = check_hostname,
                          tc_trusted = trusted, tc_chain = chain, tc_minimum = ''TLSv1.2''\<rparr>))"

definition create_ssl_context ::
  "('k, 'p) x509_lib \<Rightarrow> pem_files \<Rightarrow> string \<Rightarrow> string \<Rightarrow> string \<Rightarrow> py_exc + 'p tls_context" where
  "create_ssl_context lib fs ca_cert_path server_cert_path server_key_path =
     (case fs ca_cert_path of
        None \<Rightarrow> Inl (not_found ''CA certificate'' ca_cert_path)
      | Some ca \<Rightarrow>
          (case fs server_cert_path of
             None \<Rightarrow> Inl (not_found ''server certificate'' server_cert_path)
           | Some cert \<Rightarrow>
               (case fs server_key_path of
                  None \<Rightarrow> Inl (not_found ''server key'' server_key_path)
                | Some key \<Rightarrow> make_context lib True False ca cert key)))"

definition load_ca_from_env :: "(string \<rightharpoonup> bytes) \<Rightarrow> (bytes \<Rightarrow> string) \<Rightarrow> pem_files \<Rightarrow> (bytes \<times> bytes) option" where
  "load_ca_from_env env path_of fs =
     (let set_in = (\<lambda>v. case env v of None \<Rightarrow> None | Some x \<Rightarrow> if x = [] then None else Some x);
          from_files =
            (case (set_in ''RENDERTRUST_CA_CERT_PATH'', set_in ''RENDERTRUST_CA_KEY_PATH'') of
               (Some cp, Some kp) \<Rightarrow>
                 (case (fs (path_of cp), fs (path_of kp)) of
                    (Some c, Some k) \<Rightarrow> Some (c, k)
                  | _ \<Rightarrow> None)
             | _ \<Rightarrow> None)
      in case (set_in ''RENDERTRUST_CA_CERT'', set_in ''RENDERTRUST_CA_KEY'') of
           (Some c, Some k) \<Rightarrow> Some (c, k)
         | _ \<Rightarrow> from_files)"

definition get_cert_expiry :: "('k, 'p) x509_lib \<Rightarrow> bytes \<Rightarrow> py_exc + instant" where
  "get_cert_expiry lib cert_pem =
     (case xl_load_cert lib cert_pem of
        None \<Rightarrow> Inl (ValueError ''PEM'')
      | Some c \<Rightarrow> Inr (tb_not_after (fst c)))"

definition get_cert_cn :: "('k, 'p) x509_lib \<Rightarrow> bytes \<Rightarrow> py_exc + string option" where
  "get_cert_cn lib cert_pem =
     (case xl_load_cert lib cert_pem of
        None \<Rightarrow> Inl (ValueError ''PEM'')
      | Some c \<Rightarrow> Inr (map_of (tb_subject (fst c)) ''CN''))"

definition is_cert_expiring_soon :: "('k, 'p) x509_lib \<Rightarrow> instant \<Rightarrow> bytes \<Rightarrow> int \<Rightarrow> py_exc + bool" where
  "is_cert_expiring_soon lib now cert_pem threshold_days =
     err_bind (get_cert_expiry lib cert_pem)
       (\<lambda>expiry. Inr (expiry - now < seconds (threshold_days * 86400)))"

definition verify_cert_chain :: "('k, 'p) x509_lib \<Rightarrow> bytes \<Rightarrow> bytes \<Rightarrow> bool" where
  "verify_cert_chain lib cert_pem ca_cert_pem =
     (case (xl_load_cert lib cert_pem, xl_load_cert lib ca_cert_pem) of
        (Some (t, sig), Some (ca, _)) \<Rightarrow> xl_verify lib (tb_public_key ca) sig t
      | _ \<Rightarrow> False)"

section \<open>The endpoints\<close>

record cert_issue_request =
  ci_node_id :: string
  ci_csr_pem :: "bytes option"

record cert_issue_response =
  cir_node_id :: string
  cir_certificate :: bytes
  cir_ca_certificate :: bytes

record cert_renew_request =
  cn_node_id :: string
  cn_current_cert_pem :: bytes
  cn_csr_pem :: "bytes option"

record cert_renew_response =
  cnr_node_id :: string
  cnr_certificate :: bytes
  cnr_renewed :: bool

definition get_ca_material :: "(bytes \<times> bytes) option \<Rightarrow> py_exc + bytes \<times> bytes" where
  "get_ca_material env_ca =
     (case env_ca of
        None \<Rightarrow> Inl (HTTPException 503 ''Certificate Authority is not configured'')
      | Some m \<Rightarrow> Inr m)"

definition issue_certificate ::
  "('k, 'p) x509_lib \<Rightarrow> (bytes \<times> bytes) option \<Rightarrow> 'k \<Rightarrow> nat \<Rightarrow> instant \<Rightarrow> cert_issue_request \<Rightarrow>
   py_exc + cert_issue_response" where
  "issue_certificate lib env_ca node_key serial now payload =
     err_bind (get_ca_material env_ca)
       (\<lambda>(ca_cert_pem, ca_key_pem).
          case issue_node_cert lib node_key serial now ca_cert_pem ca_key_pem (ci_node_id payload) node_default_days of
            Inl _ \<Rightarrow> Inl (HTTPException 500 ''Certificate issuance failed'')
          | Inr (node_cert_pem, _) \<Rightarrow>
              Inr \<lparr>cir_node_id = ci_node_id payload, cir_certificate = node_cert_pem, cir_ca_certificate = ca_cert_pem\<rparr>)"

definition get_ca_certificate :: "(bytes \<times> bytes) option \<Rightarrow> py_exc + bytes" where
  "get_ca_certificate env_ca = err_bind (get_ca_material env_ca) (\<lambda>(ca_cert_pem, _). Inr ca_cert_pem)"

definition renew_certificate ::
  "('k, 'p) x509_lib \<Rightarrow> (bytes \<times> bytes) option \<Rightarrow> 'k \<Rightarrow> nat \<Rightarrow> instant \<Rightarrow> cert_renew_request \<Rightarrow>
   py_exc + cert_renew_response" where
  "renew_certificate lib env_ca node_key serial now payload =
     err_bind (get_ca_material env_ca)
       (\<lambda>(ca_cert_pem, ca_key_pem).
          if \<not> verify_cert_chain lib (cn_current_cert_pem payload) ca_cert_pem
          then Inl (HTTPException 400 ''Current certificate was not issued by this CA'')
          else case issue_node_cert lib node_key serial now ca_cert_pem ca_key_pem (cn_node_id payload) node_default_days of
            Inl _ \<Rightarrow> Inl (HTTPException 500 ''Certificate renewal failed'')
          | Inr (new_cert_pem, _) \<Rightarrow>
              Inr \<lparr>cnr_node_id = cn_node_id payload, cnr_certificate = new_cert_pem, cnr_renewed = True\<rparr>)"


section \<open>Properties\<close>

lemmas certs_defs = issue_node_cert_def generate_ca_def node_tbs_def ca_tbs_def Let_def

lemma lib_okD:
  assumes "lib_ok lib"
  shows "xl_load_cert lib (xl_cert_pem lib c) = Some c" and "xl_load_key lib (xl_key_pem lib k) = Some k"
    and "xl_verify lib (xl_public lib k) (xl_sign lib k t) t"
  using assms unfolding lib_ok_def by blast+

lemma issue_node_cert_Inr:
  assumes "issue_node_cert lib node_key serial now ca_cert_pem ca_key_pem node_id days = Inr (cert, key)"
  obtains ca sig ca_key where "xl_load_cert lib ca_cert_pem = Some (ca, sig)" and "xl_load_key lib ca_key_pem = Some ca_key"
    and "cert = xl_cert_pem lib (node_tbs (tb_subject ca) (xl_public lib node_key) serial now node_id days,
           xl_sign lib ca_key (node_tbs (tb_subject ca) (xl_public lib node_key) serial now node_id days))"
    and "key = xl_key_pem lib node_key"
  using assms by (auto simp: issue_node_cert_def Let_def split: option.splits if_splits)

lemma chain_of_issued:
  assumes "lib_ok lib" and "xl_load_cert lib ca_cert_pem = Some (ca, sig)" and "xl_load_key lib ca_key_pem = Some ca_key"
    and "tb_public_key ca = xl_public lib ca_key"
  shows "verify_cert_chain lib (xl_cert_pem lib (t, xl_sign lib ca_key t)) ca_cert_pem"
  using assms by (simp add: verify_cert_chain_def lib_okD)

lemma whole_second_le: "whole_second t \<le> t" "t < whole_second t + seconds 1"
  by (simp_all add: whole_second_def mult.commute)

text \<open>C39: what the authority issues holds up. With the authority's own key pair, an issued certificate
  verifies against the authority, names the node, expires at the end of its days (to the
  second), belongs to the key issued with it, and cannot itself sign certificates.\<close>

theorem issued_cert_valid:
  assumes "lib_ok lib" and "generate_ca lib ca_key s1 t1 cn days1 = Inr (ca_pem, ca_key_pem)"
    and "issue_node_cert lib node_key s2 t2 ca_pem ca_key_pem node_id days = Inr (cert, key)"
  shows "verify_cert_chain lib cert ca_pem \<and> verify_cert_chain lib ca_pem ca_pem \<and>
    get_cert_cn lib cert = Inr (Some (''node-'' @ node_id @ ''.rendertrust.local'')) \<and>
    get_cert_expiry lib cert = Inr (whole_second (t2 + days_us days)) \<and>
    (\<exists>c. load_cert_chain lib cert key = Inr c \<and> (BasicConstraints False None, True) \<in> set (tb_extensions (fst c)))"
proof -
  let ?ca = "ca_tbs (xl_public lib ca_key) s1 t1 cn days1"
  have ca: "ca_pem = xl_cert_pem lib (?ca, xl_sign lib ca_key ?ca)" "ca_key_pem = xl_key_pem lib ca_key"
    using assms(2) by (auto simp: generate_ca_def Let_def split: if_splits)
  then have load: "xl_load_cert lib ca_pem = Some (?ca, xl_sign lib ca_key ?ca)" "xl_load_key lib ca_key_pem = Some ca_key"
    by (simp_all add: lib_okD [OF assms(1)])
  have pub: "tb_public_key ?ca = xl_public lib ca_key" by (simp add: ca_tbs_def)
  from assms(3) load obtain t where t: "t = node_tbs (tb_subject ?ca) (xl_public lib node_key) s2 t2 node_id days"
    "cert = xl_cert_pem lib (t, xl_sign lib ca_key t)" "key = xl_key_pem lib node_key"
    by (auto elim!: issue_node_cert_Inr)
  have "verify_cert_chain lib cert ca_pem" "verify_cert_chain lib ca_pem ca_pem"
    unfolding t(2) using chain_of_issued [OF assms(1) load pub] ca(1) by simp_all
  then show ?thesis
    using t by (simp add: lib_okD [OF assms(1)] get_cert_cn_def get_cert_expiry_def load_cert_chain_def
        node_tbs_def subject_name_def node_cn_def)
qed

text \<open>A library over numbers for the witnesses: a key is its own public key, and a signature is the
  key's number.\<close>

instance extension :: (countable) countable
  by countable_datatype

definition cert_tuple where
  "cert_tuple c = (case c of (t, s) \<Rightarrow>
     (tb_subject t, tb_issuer t, tb_public_key t, tb_serial t, tb_not_before t, tb_not_after t, tb_extensions t, map unat s))"

definition tuple_cert where
  "tuple_cert x = (case x of (su, iss, pk, se, nb, na, es, sg) \<Rightarrow>
     (\<lparr>tb_subject = su, tb_issuer = iss, tb_public_key = pk, tb_serial = se, tb_not_before = nb, tb_not_after = na,
       tb_extensions = es\<rparr>, map of_nat sg))"

definition toy_lib :: "(nat, nat) x509_lib" where
  "toy_lib =
     \<lparr>xl_public = (\<lambda>k. k), xl_sign = (\<lambda>k t. replicate k 0), xl_verify = (\<lambda>p s t. s = replicate p 0),
      xl_cert_pem = (\<lambda>c. replicate (to_nat (cert_tuple c)) 0),
      xl_load_cert = (\<lambda>b. Some (tuple_cert (from_nat (length b)))),
      xl_key_pem = (\<lambda>k. replicate k 0), xl_load_key = (\<lambda>b. Some (length b)),
      xl_csr_pem = (\<lambda>n ns k. replicate k 1), xl_builds = (\<lambda>t. tb_not_before t \<le> tb_not_after t),
      xl_names = (\<lambda>n ns. True)\<rparr>"

lemma toy_lib_ok: "lib_ok toy_lib"
  by (auto simp: lib_ok_def toy_lib_def cert_tuple_def tuple_cert_def comp_def)

definition toy_ca :: "bytes \<times> bytes" where
  "toy_ca = (let t = ca_tbs 5 1 0 ca_common_name ca_default_days
     in (xl_cert_pem toy_lib (t, xl_sign toy_lib 5 t), xl_key_pem toy_lib 5))"

lemma toy_ca_generated: "generate_ca toy_lib 5 1 0 ca_common_name ca_default_days = Inr toy_ca"
  by (simp add: generate_ca_def toy_ca_def toy_lib_def Let_def ca_tbs_def whole_second_def days_us_def ca_default_days_def)

lemma toy_issues:
  "\<exists>cert key. issue_node_cert toy_lib k s 0 (fst toy_ca) (snd toy_ca) n 90 = Inr (cert, key)"
  using lib_okD [OF toy_lib_ok]
  by (simp add: issue_node_cert_def toy_ca_def Let_def)
     (simp add: toy_lib_def node_tbs_def whole_second_def days_us_def)

theorem issued_cert_valid_witness:
  "\<exists>cert key. issue_node_cert toy_lib 6 2 0 (fst toy_ca) (snd toy_ca) ''n1'' 90 = Inr (cert, key) \<and>
     verify_cert_chain toy_lib cert (fst toy_ca) \<and>
     get_cert_cn toy_lib cert = Inr (Some ''node-n1.rendertrust.local'')"
proof -
  obtain cert key where i: "issue_node_cert toy_lib 6 2 0 (fst toy_ca) (snd toy_ca) ''n1'' 90 = Inr (cert, key)"
    using toy_issues by blast
  have "generate_ca toy_lib 5 1 0 ca_common_name ca_default_days = Inr (fst toy_ca, snd toy_ca)"
    by (simp only: toy_ca_generated prod.collapse)
  from issued_cert_valid [OF toy_lib_ok this i] i show ?thesis by auto
qed

text \<open>Renewal does not tie the new certificate to the old one. Whoever holds any certificate of the
  authority, whatever node it names and however long it has been expired, is given a valid
  certificate for every node identifier it asks for, unless the library refuses the name.\<close>

theorem renewal_issues_for_any_node:
  assumes "lib_ok lib" and "xl_load_cert lib ca_pem = Some (ca, casig)" and "xl_load_key lib ca_key_pem = Some ca_key"
    and "tb_public_key ca = xl_public lib ca_key"
    and "verify_cert_chain lib old_cert ca_pem"
    and "issue_node_cert lib node_key serial now ca_pem ca_key_pem victim 90 = Inr (c, k)"
  shows "\<exists>r. renew_certificate lib (Some (ca_pem, ca_key_pem)) node_key serial now
      \<lparr>cn_node_id = victim, cn_current_cert_pem = old_cert, cn_csr_pem = csr\<rparr> = Inr r \<and>
    verify_cert_chain lib (cnr_certificate r) ca_pem \<and>
    get_cert_cn lib (cnr_certificate r) = Inr (Some (node_cn victim))"
proof -
  have c: "c = xl_cert_pem lib (node_tbs (tb_subject ca) (xl_public lib node_key) serial now victim 90,
      xl_sign lib ca_key (node_tbs (tb_subject ca) (xl_public lib node_key) serial now victim 90))"
    using assms(2,3,6) by (auto elim!: issue_node_cert_Inr)
  have "verify_cert_chain lib c ca_pem" unfolding c by (rule chain_of_issued [OF assms(1-4)])
  moreover have "get_cert_cn lib c = Inr (Some (node_cn victim))"
    by (simp add: c get_cert_cn_def lib_okD [OF assms(1)] node_tbs_def subject_name_def)
  ultimately show ?thesis
    using assms(5,6) by (simp add: renew_certificate_def get_ca_material_def node_default_days_def)
qed

theorem renewal_issues_for_any_node_witness:
  "\<exists>old key r. issue_node_cert toy_lib 6 2 0 (fst toy_ca) (snd toy_ca) ''mine'' 90 = Inr (old, key) \<and>
     renew_certificate toy_lib (Some (fst toy_ca, snd toy_ca)) 7 3 0
       \<lparr>cn_node_id = ''yours'', cn_current_cert_pem = old, cn_csr_pem = None\<rparr> = Inr r \<and>
     get_cert_cn toy_lib (cnr_certificate r) = Inr (Some (node_cn ''yours''))"
proof -
  obtain old key where old: "issue_node_cert toy_lib 6 2 0 (fst toy_ca) (snd toy_ca) ''mine'' 90 = Inr (old, key)"
    using toy_issues by blast
  obtain c k where new: "issue_node_cert toy_lib 7 3 0 (fst toy_ca) (snd toy_ca) ''yours'' 90 = Inr (c, k)"
    using toy_issues by blast
  let ?t = "ca_tbs 5 1 0 ca_common_name ca_default_days"
  have ca: "xl_load_cert toy_lib (fst toy_ca) = Some (?t, xl_sign toy_lib 5 ?t)" "xl_load_key toy_lib (snd toy_ca) = Some 5"
    using lib_okD [OF toy_lib_ok] by (simp_all add: toy_ca_def Let_def)
  have pub: "tb_public_key ?t = xl_public toy_lib 5" by (simp add: ca_tbs_def toy_lib_def)
  have "verify_cert_chain toy_lib old (fst toy_ca)"
    using old ca pub by (auto elim!: issue_node_cert_Inr intro!: chain_of_issued [OF toy_lib_ok ca pub])
  from renewal_issues_for_any_node [OF toy_lib_ok ca pub this new, of None] old show ?thesis by auto
qed

end
