(* ===== verification/Edge_Certs.thy ===== *)
theory Edge_Certs
  imports Certs Sdk
begin

text \<open>
  The edge node's certificates, \<^verbatim>\<open>edgekit/relay/tls.py\<close>: signing requests, the requests to the
  gateway, expiry, storage, and the client's TLS context; and the two sides of enrolment together.

  The HTTP library is the parameter \<open>http\<close> of the SDK's theory. PEM texts are ASCII. A stored file
  has its bytes and its permission bits.
\<close>

section \<open>Definitions\<close>

definition pem_text :: "bytes \<Rightarrow> string" where
  "pem_text b = map (\<lambda>x. char_of (unat x)) b"

definition pem_bytes :: "string \<Rightarrow> bytes" where
  "pem_bytes s = map (\<lambda>c. of_nat (of_char c)) s"

type_synonym edge_files = "string \<rightharpoonup> bytes \<times> nat"

definition get_cert_dir :: "string \<Rightarrow> string option \<Rightarrow> string" where
  "get_cert_dir home cert_dir =
     (case cert_dir of
        Some d \<Rightarrow> if d = '''' then home @ ''/.edgekit/certs'' else d
      | None \<Rightarrow> home @ ''/.edgekit/certs'')"

definition generate_csr :: "('k, 'p) x509_lib \<Rightarrow> 'k \<Rightarrow> string \<Rightarrow> py_exc + bytes \<times> bytes" where
  "generate_csr lib private_key node_id =
     (let n = subject_name (node_cn node_id) ''Edge Nodes''
      in if xl_names lib n [node_cn node_id]
         then Inr (xl_csr_pem lib n [node_cn node_id] private_key, xl_key_pem lib private_key)
         else Inl (ValueError ''name''))"

definition load_client_ssl_context ::
  "('k, 'p) x509_lib \<Rightarrow> edge_files \<Rightarrow> string \<Rightarrow> string \<Rightarrow> string \<Rightarrow> py_exc + 'p tls_context" where
  "load_client_ssl_context lib fs cert_path key_path ca_cert_path =
     (case fs cert_path of
        None \<Rightarrow> Inl (not_found ''client certificate'' cert_path)
      | Some (cert, _) \<Rightarrow>
          (case fs key_path of
             None \<Rightarrow> Inl (not_found ''client key'' key_path)
           | Some (key, _) \<Rightarrow>
               (case fs ca_cert_path of
                  None \<Rightarrow> Inl (not_found ''CA certificate'' ca_cert_path)
                | Some (ca, _) \<Rightarrow>
                    err_bind (load_cert_chain lib cert key)
                      (\<lambda>chain. case xl_load_cert lib ca of
                         None \<Rightarrow> Inl (OtherError ''SSLError: PEM'')
                       | Some trusted \<Rightarrow>
                           Inr \<lparr>tc_server = False, tc_cert_required = True, tc_check_hostname = False,
                                tc_trusted = trusted, tc_chain = chain, tc_minimum = ''TLSv1.2''\<rparr>))))"

definition auth_headers :: "string option \<Rightarrow> (string \<times> string) list" where
  "auth_headers auth_token =
     (case auth_token of
        None \<Rightarrow> []
      | Some t \<Rightarrow> if t = '''' then [] else [(''Authorization'', ''Bearer '' @ t)])"

text \<open>Post, \<open>raise_for_status\<close>, and the bytes of the answer's \<open>certificate\<close>.\<close>

definition post_for_certificate ::
  "'w http \<Rightarrow> string \<Rightarrow> (string \<times> string) list \<Rightarrow> json \<Rightarrow> 'w \<Rightarrow> (sdk_exc + bytes) \<times> 'w" where
  "post_for_certificate http url headers body w =
     (case http \<lparr>rq_verb = POST, rq_url = url, rq_params = [], rq_json = Some body, rq_headers = headers\<rparr> w of
        (Inl x, w') \<Rightarrow> (Inl x, w')
      | (Inr response, w') \<Rightarrow>
          (if \<not> is_success response then Inl (HTTPStatusError (hr_status response))
           else case hr_json response of
             None \<Rightarrow> Inl NotJson
           | Some data \<Rightarrow>
               sdk_bind (lift_py (get_item ''certificate'' data))
                 (\<lambda>v. case v of JStr s \<Rightarrow> Inr (pem_bytes s) | _ \<Rightarrow> Inl (PyError (OtherError ''AttributeError''))),
           w'))"

definition request_certificate ::
  "'w http \<Rightarrow> string \<Rightarrow> string \<Rightarrow> bytes \<Rightarrow> string option \<Rightarrow> 'w \<Rightarrow> (sdk_exc + bytes) \<times> 'w" where
  "request_certificate http gateway_url node_id csr_pem auth_token w =
     post_for_certificate http (rstrip_char CHR ''/'' gateway_url @ ''/api/v1/certs/issue'') (auth_headers auth_token)
       (JObj [(''node_id'', JStr node_id), (''csr_pem'', JStr (pem_text csr_pem))]) w"

definition request_renewal ::
  "'w http \<Rightarrow> string \<Rightarrow> string \<Rightarrow> bytes \<Rightarrow> bytes \<Rightarrow> string option \<Rightarrow> 'w \<Rightarrow> (sdk_exc + bytes) \<times> 'w" where
  "request_renewal http gateway_url node_id current_cert_pem csr_pem auth_token w =
     post_for_certificate http (rstrip_char CHR ''/'' gateway_url @ ''/api/v1/certs/renew'') (auth_headers auth_token)
       (JObj [(''node_id'', JStr node_id), (''current_cert_pem'', JStr (pem_text current_cert_pem)),
              (''csr_pem'', JStr (pem_text csr_pem))]) w"

record cert_expiry =
  ce_not_valid_after :: instant
  ce_days_remaining :: rat
  ce_is_expired :: bool
  ce_is_expiring_soon :: bool

definition check_cert_expiry :: "('k, 'p) x509_lib \<Rightarrow> instant \<Rightarrow> bytes \<Rightarrow> int \<Rightarrow> py_exc + cert_expiry" where
  "check_cert_expiry lib now cert_pem threshold_days =
     (case xl_load_cert lib cert_pem of
        None \<Rightarrow> Inl (ValueError ''PEM'')
      | Some c \<Rightarrow>
          (let expiry = tb_not_after (fst c);
               days_remaining = rat_of_int (expiry - now) / 86400000000
           in Inr \<lparr>ce_not_valid_after = expiry, ce_days_remaining = days_remaining,
                   ce_is_expired = (days_remaining < 0),
                   ce_is_expiring_soon = (0 \<le> days_remaining \<and> days_remaining < rat_of_int threshold_days)\<rparr>))"

text \<open>\<open>write_bytes\<close> keeps the permissions of a file that exists; a new file gets the process's
  default. The key is made private after it has been written.\<close>

definition write_bytes :: "nat \<Rightarrow> string \<Rightarrow> bytes \<Rightarrow> edge_files \<Rightarrow> edge_files" where
  "write_bytes default_mode path b fs =
     fs(path \<mapsto> (b, case fs path of None \<Rightarrow> default_mode | Some (_, m) \<Rightarrow> m))"

definition chmod :: "string \<Rightarrow> nat \<Rightarrow> edge_files \<Rightarrow> edge_files" where
  "chmod path mode fs = (case fs path of None \<Rightarrow> fs | Some (b, _) \<Rightarrow> fs(path \<mapsto> (b, mode)))"

definition private_mode :: nat where "private_mode = 6 * 64"

record cert_paths =
  cp_cert :: string
  cp_key :: string
  cp_ca :: string

definition save_cert_files ::
  "string \<Rightarrow> nat \<Rightarrow> string \<Rightarrow> bytes \<Rightarrow> bytes \<Rightarrow> bytes \<Rightarrow> string option \<Rightarrow> edge_files \<Rightarrow> cert_paths \<times> edge_files" where
  "save_cert_files home default_mode node_id cert_pem key_pem ca_cert_pem cert_dir fs =
     (let dir = get_cert_dir home cert_dir;
          cert_path = dir @ ''/node-'' @ node_id @ ''.pem'';
          key_path = dir @ ''/node-'' @ node_id @ ''-key.pem'';
          ca_cert_path = dir @ ''/ca.pem'';
          fs1 = write_bytes default_mode cert_path cert_pem fs;
          fs2 = write_bytes default_mode key_path key_pem fs1;
          fs3 = chmod key_path private_mode fs2;
          fs4 = write_bytes default_mode ca_cert_path ca_cert_pem fs3
      in (\<lparr>cp_cert = cert_path, cp_key = key_path, cp_ca = ca_cert_path\<rparr>, fs4))"

section \<open>Expiry\<close>

text \<open>The node's expiry check and the gateway's agree. On every certificate and every threshold that
  is not negative, the gateway calls a certificate expiring soon exactly when the node calls it
  expired or expiring soon, and the node never calls it both.\<close>

theorem expiry_checks_agree:
  assumes "0 \<le> threshold"
  shows "is_cert_expiring_soon lib now pem threshold =
      (case check_cert_expiry lib now pem threshold of
         Inl x \<Rightarrow> Inl x
       | Inr r \<Rightarrow> Inr (ce_is_expired r \<or> ce_is_expiring_soon r)) \<and>
    (case check_cert_expiry lib now pem threshold of
       Inl _ \<Rightarrow> True
     | Inr r \<Rightarrow> \<not> (ce_is_expired r \<and> ce_is_expiring_soon r))"
proof (cases "xl_load_cert lib pem")
  case None
  then show ?thesis by (simp add: is_cert_expiring_soon_def get_cert_expiry_def check_cert_expiry_def)
next
  case (Some c)
  define d where "d = tb_not_after (fst c) - now"
  have neg: "rat_of_int d / 86400000000 < 0 \<longleftrightarrow> d < 0" by (simp add: divide_less_0_iff)
  have soon: "rat_of_int d / 86400000000 < rat_of_int threshold \<longleftrightarrow> d < threshold * 86400000000"
  proof -
    have "rat_of_int d / 86400000000 < rat_of_int threshold \<longleftrightarrow> rat_of_int d < rat_of_int threshold * 86400000000"
      by (simp add: pos_divide_less_eq)
    also have "\<dots> \<longleftrightarrow> rat_of_int d < rat_of_int (threshold * 86400000000)" by simp
    finally show ?thesis by (simp only: of_int_less_iff)
  qed
  have "d < 0 \<Longrightarrow> d < threshold * 86400000000" using assms by simp
  moreover have "is_cert_expiring_soon lib now pem threshold = Inr (d < threshold * 86400000000)"
    by (simp add: is_cert_expiring_soon_def get_cert_expiry_def Some d_def mult.commute)
  moreover have "check_cert_expiry lib now pem threshold =
      Inr \<lparr>ce_not_valid_after = tb_not_after (fst c), ce_days_remaining = rat_of_int d / 86400000000,
           ce_is_expired = (d < 0), ce_is_expiring_soon = (0 \<le> d \<and> d < threshold * 86400000000)\<rparr>"
    by (simp only: check_cert_expiry_def Some option.case Let_def d_def [symmetric] not_less [symmetric] neg soon)
  ultimately show ?thesis by auto
qed

theorem expiry_checks_agree_witness:
  "is_cert_expiring_soon toy_lib 0 (fst toy_ca) 30 = Inr False"
  using expiry_checks_agree [of 30 toy_lib 0 "fst toy_ca"] lib_okD(1) [OF toy_lib_ok]
  by (simp add: check_cert_expiry_def toy_ca_def Let_def ca_tbs_def whole_second_def days_us_def ca_default_days_def
      is_cert_expiring_soon_def get_cert_expiry_def)


section \<open>Enrolment\<close>

text \<open>The gateway's issue route: the body's \<open>node_id\<close> must be a string.\<close>

definition issue_server ::
  "('k, 'p) x509_lib \<Rightarrow> (bytes \<times> bytes) option \<Rightarrow> 'k \<Rightarrow> nat \<Rightarrow> instant \<Rightarrow> unit http" where
  "issue_server lib env_ca node_key serial now rq w =
     (case rq_json rq of
        Some body \<Rightarrow>
          (case json_get ''node_id'' body of
             Some (JStr n) \<Rightarrow>
               (reply (err_bind (issue_certificate lib env_ca node_key serial now
                    \<lparr>ci_node_id = n, ci_csr_pem = (case json_get ''csr_pem'' body of Some (JStr s) \<Rightarrow> Some (pem_bytes s) | _ \<Rightarrow> None)\<rparr>)
                  (\<lambda>r. Inr (JObj [(''node_id'', JStr (cir_node_id r)), (''certificate'', JStr (pem_text (cir_certificate r))),
                                  (''ca_certificate'', JStr (pem_text (cir_ca_certificate r)))]))), w)
           | _ \<Rightarrow> (reply (Inl (HTTPException 422 ''validation error'')), w))
      | None \<Rightarrow> (reply (Inl (HTTPException 422 ''validation error'')), w))"

lemma pem_bytes_text [simp]: "pem_bytes (pem_text b) = b"
proof -
  have "of_nat (of_char (char_of (unat x) :: char)) = x" for x :: "8 word"
    using unsigned_less [of x, where ?'a = nat] by simp
  then show ?thesis by (induction b) (simp_all add: pem_bytes_def pem_text_def)
qed

lemma request_issued:
  assumes "issue_node_cert lib node_key serial now ca_pem ca_key_pem node_id 90 = Inr (cert, k)"
  shows "request_certificate (issue_server lib (Some (ca_pem, ca_key_pem)) node_key serial now) url node_id csr tok () =
    (Inr cert, ())"
  using assms
  by (simp add: request_certificate_def post_for_certificate_def issue_server_def issue_certificate_def
      get_ca_material_def node_default_days_def reply_def is_success_def get_item_def lift_py_def)

lemma saved_files:
  assumes "save_cert_files home m node_id cert key ca cert_dir fs = (ps, fs')" and "node_id \<noteq> ''''"
  shows "map_option fst (fs' (cp_cert ps)) = Some cert \<and> fs' (cp_key ps) = Some (key, private_mode) \<and>
    map_option fst (fs' (cp_ca ps)) = Some ca"
proof -
  let ?d = "get_cert_dir home cert_dir"
  have "?d @ ''/node-'' @ node_id @ ''.pem'' \<noteq> ?d @ ''/node-'' @ node_id @ ''-key.pem''" by simp
  moreover have "?d @ ''/ca.pem'' \<noteq> ?d @ ''/node-'' @ node_id @ ''.pem''" "?d @ ''/ca.pem'' \<noteq> ?d @ ''/node-'' @ node_id @ ''-key.pem''"
    by simp_all
  ultimately show ?thesis
    using assms(1) by (auto simp: save_cert_files_def write_bytes_def chmod_def Let_def)
qed

text \<open>A node that enrols with a signing request cannot use what it gets. The gateway ignores the
  request and certifies a key of its own, which it throws away; when the node stores the
  certificate it received beside its own key, building its TLS context fails, unless the two
  keys happen to be the same.\<close>

theorem enrolment_key_mismatch:
  assumes "lib_ok lib" and "generate_csr lib node_own_key node_id = Inr (csr, own_key_pem)" and "node_id \<noteq> ''''"
    and "issue_node_cert lib gateway_key serial now ca_pem ca_key_pem node_id 90 = Inr (issued, k)"
    and "request_certificate (issue_server lib (Some (ca_pem, ca_key_pem)) gateway_key serial now) url node_id csr tok () =
      (Inr cert, ())"
    and "save_cert_files home m node_id cert own_key_pem ca_pem dir fs = (ps, fs')"
  shows "case load_client_ssl_context lib fs' (cp_cert ps) (cp_key ps) (cp_ca ps) of
      Inl x \<Rightarrow> xl_public lib node_own_key \<noteq> xl_public lib gateway_key \<and> x = OtherError ''SSLError: KEY_VALUES_MISMATCH''
    | Inr ctx \<Rightarrow> xl_public lib node_own_key = xl_public lib gateway_key \<and> tc_cert_required ctx"
proof -
  have own: "own_key_pem = xl_key_pem lib node_own_key"
    using assms(2) by (auto simp: generate_csr_def Let_def split: if_splits)
  have cert: "cert = issued" using assms(5) request_issued [OF assms(4), of url csr tok] by simp
  from assms(4) obtain ca sig ca_key t where ca: "xl_load_cert lib ca_pem = Some (ca, sig)"
    and t: "t = node_tbs (tb_subject ca) (xl_public lib gateway_key) serial now node_id 90"
      "issued = xl_cert_pem lib (t, xl_sign lib ca_key t)"
    by (auto elim!: issue_node_cert_Inr)
  from saved_files [OF assms(6,3)] obtain m1 m3 where f: "fs' (cp_cert ps) = Some (issued, m1)"
    "fs' (cp_key ps) = Some (own_key_pem, private_mode)" "fs' (cp_ca ps) = Some (ca_pem, m3)"
    by (auto simp: cert)
  have "tb_public_key t = xl_public lib gateway_key" by (simp add: t(1) node_tbs_def)
  then show ?thesis
    using ca by (auto simp: load_client_ssl_context_def f load_cert_chain_def own t(2) lib_okD [OF assms(1)])
qed

theorem enrolment_key_mismatch_witness:
  "\<exists>cert ps fs'. request_certificate (issue_server toy_lib (Some (fst toy_ca, snd toy_ca)) 6 2 0) ''http://gw'' ''n1''
      (replicate 9 1) None () = (Inr cert, ()) \<and>
    save_cert_files ''/root'' 420 ''n1'' cert (xl_key_pem toy_lib 9) (fst toy_ca) None Map.empty = (ps, fs') \<and>
    load_client_ssl_context toy_lib fs' (cp_cert ps) (cp_key ps) (cp_ca ps) =
      Inl (OtherError ''SSLError: KEY_VALUES_MISMATCH'')"
proof -
  obtain cert key where i: "issue_node_cert toy_lib 6 2 0 (fst toy_ca) (snd toy_ca) ''n1'' 90 = Inr (cert, key)"
    using toy_issues by blast
  note r = request_issued [OF i, of "''http://gw''" "replicate 9 1" None]
  obtain ps fs' where s: "save_cert_files ''/root'' 420 ''n1'' cert (xl_key_pem toy_lib 9) (fst toy_ca) None Map.empty = (ps, fs')"
    by fastforce
  have csr: "generate_csr toy_lib 9 ''n1'' = Inr (replicate 9 1, xl_key_pem toy_lib 9)"
    by (simp add: generate_csr_def toy_lib_def)
  have ne: "xl_public toy_lib 9 \<noteq> xl_public toy_lib 6" by (simp add: toy_lib_def)
  from enrolment_key_mismatch [OF toy_lib_ok csr _ i r s] ne
  have "load_client_ssl_context toy_lib fs' (cp_cert ps) (cp_key ps) (cp_ca ps) =
      Inl (OtherError ''SSLError: KEY_VALUES_MISMATCH'')"
    by (auto split: sum.splits)
  with r s show ?thesis by blast
qed

end
