(* ===== verification/Edge_Cli.thy ===== *)
theory Edge_Cli
  imports Edge_Certs
begin

text \<open>
  The command line of an edge node: \<^verbatim>\<open>edgekit/cli/register.py\<close> and \<^verbatim>\<open>edgekit/cli/status.py\<close>.

  Files are \<open>edge_files\<close>: bytes and permission bits by path. \<open>post\<close> and \<open>fetch\<close> are the HTTP
  library's calls, which answer or raise; \<open>dumps\<close> is \<open>json.dumps(config, indent=2)\<close> as bytes and
  \<open>loads\<close> is \<open>json.loads\<close> of a file's text (\<open>None\<close> where it raises). The key pair of the Ed25519
  library is an argument. The progress messages of \<open>register\<close> are left out; the lines \<open>status\<close>
  prints are its result.
\<close>

section \<open>Files\<close>

definition get_edgekit_dir :: "(string \<rightharpoonup> string) \<Rightarrow> string \<Rightarrow> string" where
  "get_edgekit_dir env home =
     (case env ''EDGEKIT_HOME'' of Some d \<Rightarrow> d | None \<Rightarrow> home @ ''/.edgekit'')"

definition private_key_path :: "string \<Rightarrow> string" where "private_key_path dir = dir @ ''/node_key''"
definition public_key_path :: "string \<Rightarrow> string" where "public_key_path dir = dir @ ''/node_key.pub''"
definition config_path :: "string \<Rightarrow> string" where "config_path dir = dir @ ''/config.json''"

definition save_keys :: "nat \<Rightarrow> string \<Rightarrow> bytes \<Rightarrow> bytes \<Rightarrow> edge_files \<Rightarrow> edge_files" where
  "save_keys default_mode dir private_pem public_pem fs =
     write_bytes default_mode (public_key_path dir) public_pem
       (chmod (private_key_path dir) private_mode
         (write_bytes default_mode (private_key_path dir) private_pem fs))"

definition save_config :: "(json \<Rightarrow> bytes) \<Rightarrow> nat \<Rightarrow> string \<Rightarrow> json \<Rightarrow> edge_files \<Rightarrow> edge_files" where
  "save_config dumps default_mode dir config fs =
     write_bytes default_mode (config_path dir) (dumps config @ [10]) fs"

definition load_config :: "(bytes \<Rightarrow> json option) \<Rightarrow> string \<Rightarrow> edge_files \<Rightarrow> py_exc + json option" where
  "load_config loads dir fs =
     (case fs (config_path dir) of
        None \<Rightarrow> Inr None
      | Some (b, _) \<Rightarrow>
          (case loads b of None \<Rightarrow> Inl (OtherError ''JSONDecodeError'') | Some j \<Rightarrow> Inr (Some j)))"

section \<open>Registration\<close>

datatype http_outcome = Responded http_response | ConnectError string | TimeoutException string | OtherTransport string

text \<open>How a command ends: it returns, exits with a code, reports an error, or crashes.\<close>

datatype cli_end = Finished | Exits int | ClickException string | Crashes py_exc

definition register_payload :: "string \<Rightarrow> string \<Rightarrow> string list \<Rightarrow> json" where
  "register_payload name public_key_pem capabilities =
     JObj [(''name'', JStr name), (''public_key'', JStr public_key_pem), (''capabilities'', JArr (map JStr capabilities))]"

definition register_with_gateway ::
  "(json \<Rightarrow> string) \<Rightarrow> (string \<Rightarrow> json \<Rightarrow> 'w \<Rightarrow> http_outcome \<times> 'w) \<Rightarrow> string \<Rightarrow> string \<Rightarrow> string \<Rightarrow> string list \<Rightarrow>
   'w \<Rightarrow> (cli_end + json) \<times> 'w" where
  "register_with_gateway py_str post gateway_url name public_key_pem capabilities w =
     (case post (rstrip_char CHR ''/'' gateway_url @ ''/api/v1/nodes/register'')
             (register_payload name public_key_pem capabilities) w of
        (out, w') \<Rightarrow>
          ((case out of
              Responded r \<Rightarrow>
                if is_success r
                then (case hr_json r of None \<Rightarrow> Inl (Crashes (OtherError ''JSONDecodeError'')) | Some j \<Rightarrow> Inr j)
                else Inl (ClickException (''Registration failed (HTTP '' @ show_int (hr_status r) @ ''): '' @
                  (case hr_json r of
                     Some body \<Rightarrow>
                       (case get_default ''detail'' (JStr '''') body of
                          Inr d \<Rightarrow> str_of py_str d
                        | Inl _ \<Rightarrow> hr_text r)
                   | None \<Rightarrow> hr_text r)))
            | ConnectError e \<Rightarrow> Inl (ClickException (''Cannot connect to gateway at '' @ gateway_url @ '': '' @ e))
            | TimeoutException e \<Rightarrow> Inl (ClickException (''Request to gateway timed out: '' @ e))
            | OtherTransport e \<Rightarrow> Inl (Crashes (OtherError e))), w'))"

definition parse_capabilities :: "string \<Rightarrow> string list" where
  "parse_capabilities capabilities = [py_strip c. c \<leftarrow> split_on CHR '','' capabilities, py_strip c \<noteq> '''']"

definition node_config :: "json \<Rightarrow> string \<Rightarrow> string \<Rightarrow> string list \<Rightarrow> py_exc + json" where
  "node_config answer name gateway_url caps =
     err_bind (get_item ''node_id'' answer)
       (\<lambda>nid. err_bind (get_item ''token'' answer)
         (\<lambda>tok. err_bind (get_default ''status'' (JStr ''REGISTERED'') answer)
           (\<lambda>st. Inr (JObj
             [(''node_id'', nid), (''name'', JStr name), (''gateway_url'', JStr gateway_url), (''jwt_token'', tok),
              (''status'', st), (''capabilities'', JArr (map JStr caps))]))))"

definition already_registered :: "json option \<Rightarrow> string \<Rightarrow> edge_files \<Rightarrow> bool" where
  "already_registered config dir fs \<longleftrightarrow>
     (case config of None \<Rightarrow> False | Some j \<Rightarrow> json_truthy j) \<and> fs (private_key_path dir) \<noteq> None"

definition register_cmd ::
  "(json \<Rightarrow> string) \<Rightarrow> (json \<Rightarrow> bytes) \<Rightarrow> (bytes \<Rightarrow> json option) \<Rightarrow>
   (string \<Rightarrow> json \<Rightarrow> 'w \<Rightarrow> http_outcome \<times> 'w) \<Rightarrow> nat \<Rightarrow> bytes \<times> bytes \<Rightarrow> string \<Rightarrow>
   string \<Rightarrow> string \<Rightarrow> string \<Rightarrow> bool \<Rightarrow> edge_files \<times> 'w \<Rightarrow> cli_end \<times> edge_files \<times> 'w" where
  "register_cmd py_str dumps loads post default_mode keypair dir gateway_url name capabilities force st =
     (case st of (fs, w) \<Rightarrow>
        (case load_config loads dir fs of
           Inl x \<Rightarrow> (Crashes x, fs, w)
         | Inr existing_config \<Rightarrow>
             if already_registered existing_config dir fs \<and> \<not> force then (Exits 1, fs, w)
             else
               let caps = parse_capabilities capabilities;
                   fs1 = save_keys default_mode dir (fst keypair) (snd keypair) fs
               in (case register_with_gateway py_str post gateway_url name (pem_text (snd keypair)) caps w of
                     (Inl e, w') \<Rightarrow> (e, fs1, w')
                   | (Inr answer, w') \<Rightarrow>
                       (case node_config answer name gateway_url caps of
                          Inl x \<Rightarrow> (Crashes x, fs1, w')
                        | Inr config \<Rightarrow> (Finished, save_config dumps default_mode dir config fs1, w')))))"

section \<open>Status\<close>

definition show_octal :: "nat \<Rightarrow> string" where
  "show_octal n = ''0o'' @
     (let d = dropWhile (\<lambda>x. x = 0) (fixed_digits 8 4 n) in if d = [] then ''0'' else map digit_char d)"

text \<open>The bits for group and others.\<close>

definition insecure_mode :: "nat \<Rightarrow> bool" where
  "insecure_mode m \<longleftrightarrow> m mod 64 \<noteq> 0"

definition field :: "(json \<Rightarrow> string) \<Rightarrow> string \<Rightarrow> json \<Rightarrow> string" where
  "field py_str k config = (case json_get k config of Some v \<Rightarrow> str_of py_str v | None \<Rightarrow> ''unknown'')"

definition key_lines :: "string \<Rightarrow> edge_files \<Rightarrow> string list" where
  "key_lines dir fs =
     (case fs (private_key_path dir) of
        Some (_, m) \<Rightarrow>
          (''  Private key:  '' @ private_key_path dir @ '' (mode '' @ show_octal (m mod 512) @ '')'') #
          (if insecure_mode m then [''  WARNING: Private key has insecure permissions!''] else [])
      | None \<Rightarrow> [''  Private key:  MISSING'']) @
     (case fs (public_key_path dir) of
        Some _ \<Rightarrow> [''  Public key:   '' @ public_key_path dir]
      | None \<Rightarrow> [''  Public key:   MISSING''])"

definition health_line :: "string \<Rightarrow> http_outcome \<Rightarrow> (string \<times> cli_end) option" where
  "health_line url out =
     (case out of
        Responded r \<Rightarrow>
          Some (if hr_status r = 200 then (''  Health check:  OK ('' @ url @ '')'', Finished)
                else (''  Health check:  DEGRADED (HTTP '' @ show_int (hr_status r) @ '')'', Finished))
      | ConnectError _ \<Rightarrow> Some (''  Health check:  UNREACHABLE ('' @ url @ '')'', Exits 1)
      | TimeoutException _ \<Rightarrow> Some (''  Health check:  TIMEOUT ('' @ url @ '')'', Exits 1)
      | OtherTransport _ \<Rightarrow> None)"

text \<open>The strings \<open>', '.join(caps)\<close> joins; it raises when an element is no string.\<close>

fun caps_of :: "json option \<Rightarrow> py_exc + string list" where
  "caps_of (Some (JArr xs)) =
     (if list_all (\<lambda>x. case x of JStr _ \<Rightarrow> True | _ \<Rightarrow> False) xs
      then Inr (map (\<lambda>x. case x of JStr s \<Rightarrow> s | _ \<Rightarrow> '''') xs) else Inl (OtherError ''TypeError''))"
| "caps_of (Some (JStr s)) = Inr (map (\<lambda>c. [c]) s)"
| "caps_of (Some (JObj kvs)) = Inr (remdups (map fst kvs))"
| "caps_of (Some j) = (if json_truthy j then Inl (OtherError ''TypeError'') else Inr [])"
| "caps_of None = Inr []"

fun comma_join :: "string list \<Rightarrow> string" where
  "comma_join [] = ''''"
| "comma_join [s] = s"
| "comma_join (s # t # ss) = s @ '', '' @ comma_join (t # ss)"

definition head_lines :: "(json \<Rightarrow> string) \<Rightarrow> json \<Rightarrow> string list" where
  "head_lines py_str config =
     [''EdgeKit Node Status'', replicate 40 CHR ''='',
      ''  Node ID:      '' @ field py_str ''node_id'' config, ''  Name:         '' @ field py_str ''name'' config,
      ''  Gateway:      '' @ field py_str ''gateway_url'' config, ''  Status:       '' @ field py_str ''status'' config]"

definition check_gateway :: "(string \<Rightarrow> http_outcome) \<Rightarrow> json option \<Rightarrow> string list \<times> cli_end" where
  "check_gateway fetch gateway_url =
     (case gateway_url of
        Some (JStr g) \<Rightarrow>
          if g = '''' then ([''  Gateway URL not configured.''], Exits 1)
          else let url = rstrip_char CHR ''/'' g @ ''/api/v1/health''
               in (case health_line url (fetch url) of
                     Some (l, e) \<Rightarrow> ([l], e)
                   | None \<Rightarrow> ([], Crashes (OtherError ''transport'')))
      | Some v \<Rightarrow>
          if json_truthy v then ([], Crashes (OtherError ''AttributeError''))
          else ([''  Gateway URL not configured.''], Exits 1)
      | None \<Rightarrow> ([''  Gateway URL not configured.''], Exits 1))"

definition status_cmd ::
  "(json \<Rightarrow> string) \<Rightarrow> (bytes \<Rightarrow> json option) \<Rightarrow> (string \<Rightarrow> http_outcome) \<Rightarrow> string \<Rightarrow> bool \<Rightarrow> edge_files \<Rightarrow>
   string list \<times> cli_end" where
  "status_cmd py_str loads fetch dir check_connectivity fs =
     (case load_config loads dir fs of
        Inl x \<Rightarrow> ([], Crashes x)
      | Inr None \<Rightarrow> ([''Not registered. Run '' @ [CHR 39] @ ''edgekit register'' @ [CHR 39] @ '' first.''], Exits 1)
      | Inr (Some (JObj kvs)) \<Rightarrow>
          (let config = JObj kvs
           in case caps_of (json_get ''capabilities'' config) of
             Inl x \<Rightarrow> (head_lines py_str config, Crashes x)
           | Inr caps \<Rightarrow>
               let shown = head_lines py_str config @
                     (if caps = [] then [] else [''  Capabilities: '' @ comma_join caps]) @
                     ['''', ''Key Files'', replicate 40 CHR ''-''] @ key_lines dir fs @
                     [''  JWT token:    '' @
                       (case json_get ''jwt_token'' config of
                          Some t \<Rightarrow> if json_truthy t then ''present'' else ''MISSING''
                        | None \<Rightarrow> ''MISSING'')]
               in if \<not> check_connectivity then (shown, Finished)
                  else (case check_gateway fetch (json_get ''gateway_url'' config) of
                    (ls, e) \<Rightarrow> (shown @ ['''', ''Gateway Connectivity'', replicate 40 CHR ''-''] @ ls, e)))
      | Inr (Some _) \<Rightarrow> ([''EdgeKit Node Status'', replicate 40 CHR ''=''], Crashes (OtherError ''AttributeError'')))"


section \<open>Properties\<close>

lemma path_distinct [simp]:
  "private_key_path d \<noteq> public_key_path d" "public_key_path d \<noteq> private_key_path d"
  "private_key_path d \<noteq> config_path d" "config_path d \<noteq> private_key_path d"
  "public_key_path d \<noteq> config_path d" "config_path d \<noteq> public_key_path d"
  by (simp_all add: private_key_path_def public_key_path_def config_path_def)

lemma save_keys_files:
  "(save_keys m dir priv pub fs) (private_key_path dir) = Some (priv, private_mode)"
  "map_option fst ((save_keys m dir priv pub fs) (public_key_path dir)) = Some pub"
  "(save_keys m dir priv pub fs) (config_path dir) = fs (config_path dir)"
  by (simp_all add: save_keys_def write_bytes_def chmod_def split: prod.splits option.splits)

lemma load_saved_keys [simp]: "load_config loads dir (save_keys m dir priv pub fs) = load_config loads dir fs"
  by (simp add: load_config_def save_keys_files)

lemma save_config_files:
  "(save_config dumps m dir c fs) (private_key_path dir) = fs (private_key_path dir)"
  "\<forall>j. loads (dumps j @ [10]) = Some j \<Longrightarrow> load_config loads dir (save_config dumps m dir c fs) = Inr (Some c)"
  by (simp_all add: save_config_def write_bytes_def load_config_def)

text \<open>Registering leaves the node able to prove who it is, or leaves it as it was, except on one
  path. An existing registration is refused without \<open>--force\<close> and nothing is touched. A
  registration the gateway accepts stores the new private key, readable by its owner only, and a
  configuration that reads back with the gateway's node identifier and token. But the keys are
  overwritten before the gateway is asked: when it refuses or cannot be reached, the old
  configuration remains beside a private key the gateway has never seen.\<close>

theorem register_outcomes:
  assumes "load_config loads dir fs = Inr old" and "\<forall>j. loads (dumps j @ [10]) = Some j"
    and "register_cmd py_str dumps loads post m (priv, pub) dir url name caps force (fs, w) = (e, fs', w')"
  shows "(already_registered old dir fs \<and> \<not> force \<longrightarrow> e = Exits 1 \<and> fs' = fs) \<and>
    (\<not> (already_registered old dir fs \<and> \<not> force) \<longrightarrow>
       fs' (private_key_path dir) = Some (priv, private_mode) \<and>
       (case register_with_gateway py_str post url name (pem_text pub) (parse_capabilities caps) w of
          (Inl x, _) \<Rightarrow> e = x \<and> load_config loads dir fs' = Inr old
        | (Inr answer, _) \<Rightarrow>
            (case node_config answer name url (parse_capabilities caps) of
               Inl x \<Rightarrow> e = Crashes x \<and> load_config loads dir fs' = Inr old
             | Inr c \<Rightarrow> e = Finished \<and> load_config loads dir fs' = Inr (Some c) \<and>
                 json_get ''node_id'' c = json_get ''node_id'' answer \<and>
                 json_get ''jwt_token'' c = json_get ''token'' answer)))"
proof (cases "already_registered old dir fs \<and> \<not> force")
  case True
  then show ?thesis using assms(1,3) by (simp add: register_cmd_def)
next
  case False
  obtain r v where r: "register_with_gateway py_str post url name (pem_text pub) (parse_capabilities caps) w = (r, v)"
    by fastforce
  show ?thesis
  proof (cases r)
    case (Inl x)
    then show ?thesis using False assms(1,3) r by (auto simp: register_cmd_def Let_def save_keys_files)
  next
    case (Inr answer)
    show ?thesis
    proof (cases "node_config answer name url (parse_capabilities caps)")
      case (Inl x)
      then show ?thesis using False Inr assms(1,3) r by (auto simp: register_cmd_def Let_def save_keys_files)
    next
      case config: (Inr c)
      have "json_get ''node_id'' c = json_get ''node_id'' answer" "json_get ''jwt_token'' c = json_get ''token'' answer"
        using config by (auto simp: node_config_def err_bind_Inr get_item_def split: json.splits option.splits)
      then show ?thesis
        using False Inr config assms r
        by (auto simp: register_cmd_def Let_def save_keys_files save_config_files)
    qed
  qed
qed

text \<open>\<open>status\<close> tells whether a node is set up. It ends well exactly when there is a configuration it
  can show and, if it is to check, a gateway that answers; a private key others could read is
  reported, and the key \<open>register\<close> stores never is.\<close>

theorem status_reports:
  assumes "load_config loads dir fs = Inr (Some (JObj kvs))" and "caps_of (json_get ''capabilities'' (JObj kvs)) = Inr caps"
    and "status_cmd py_str loads fetch dir check fs = (shown, e)"
  shows "(e = Finished \<longleftrightarrow> \<not> check \<or>
      (\<exists>g r. json_get ''gateway_url'' (JObj kvs) = Some (JStr g) \<and> g \<noteq> '''' \<and>
         fetch (rstrip_char CHR ''/'' g @ ''/api/v1/health'') = Responded r)) \<and>
    (fs (private_key_path dir) = Some (b, private_mode) \<longrightarrow>
       ''  WARNING: Private key has insecure permissions!'' \<notin> set (key_lines dir fs)) \<and>
    (fs (private_key_path dir) = Some (b, 420) \<longrightarrow>
       ''  WARNING: Private key has insecure permissions!'' \<in> set shown)"
proof -
  have "status_cmd py_str loads fetch dir check fs = (shown, e) \<Longrightarrow> set (key_lines dir fs) \<subseteq> set shown"
    using assms(1,2) by (auto simp: status_cmd_def Let_def simp del: json_get.simps split: if_splits prod.splits)
  then have sub: "set (key_lines dir fs) \<subseteq> set shown" using assms(3) by blast
  have "e = Finished \<longleftrightarrow> \<not> check \<or>
      (\<exists>g r. json_get ''gateway_url'' (JObj kvs) = Some (JStr g) \<and> g \<noteq> '''' \<and>
         fetch (rstrip_char CHR ''/'' g @ ''/api/v1/health'') = Responded r)"
    using assms by (auto simp: status_cmd_def Let_def check_gateway_def health_line_def simp del: json_get.simps
        split: if_splits prod.splits option.splits json.splits http_outcome.splits)
  moreover have "fs (private_key_path dir) = Some (b, private_mode) \<Longrightarrow>
      ''  WARNING: Private key has insecure permissions!'' \<notin> set (key_lines dir fs)"
    by (auto simp: key_lines_def insecure_mode_def private_mode_def split: option.splits)
  moreover have "fs (private_key_path dir) = Some (b, 420) \<Longrightarrow>
      ''  WARNING: Private key has insecure permissions!'' \<in> set (key_lines dir fs)"
    by (simp add: key_lines_def insecure_mode_def)
  ultimately show ?thesis using sub by blast
qed


text \<open>For the witnesses: a configuration is stored as its number, and the gateway is down.\<close>

definition count_dumps :: "json \<Rightarrow> bytes" where "count_dumps j = replicate (to_nat j) 0"
definition count_loads :: "bytes \<Rightarrow> json option" where "count_loads b = Some (from_nat (length b - 1))"

definition old_config :: json where
  "old_config = JObj [(''node_id'', JStr ''n''), (''gateway_url'', JStr ''http://gw''), (''jwt_token'', JStr ''t'')]"

definition registered_files :: edge_files where
  "registered_files = save_config count_dumps 420 ''d'' old_config (save_keys 420 ''d'' [1] [2] Map.empty)"

lemma registered_load: "load_config count_loads ''d'' registered_files = Inr (Some old_config)"
  unfolding registered_files_def by (rule save_config_files) (simp add: count_dumps_def count_loads_def)

theorem register_outcomes_witness:
  "\<exists>msg fs'. register_cmd (\<lambda>_. '''') count_dumps count_loads (\<lambda>u j w. (ConnectError ''refused'', w)) 420 ([3], [4]) ''d''
      ''http://gw'' ''name'' '''' True (registered_files, ()) = (ClickException msg, fs', ()) \<and>
    fs' (private_key_path ''d'') = Some ([3], private_mode) \<and>
    load_config count_loads ''d'' fs' = Inr (Some old_config)"
proof -
  obtain e fs' where r: "register_cmd (\<lambda>_. '''') count_dumps count_loads (\<lambda>u j w. (ConnectError ''refused'', w)) 420 ([3], [4]) ''d''
      ''http://gw'' ''name'' '''' True (registered_files, ()) = (e, fs', ())"
    by (cases "register_cmd (\<lambda>_. '''') count_dumps count_loads (\<lambda>u j w. (ConnectError ''refused'', w)) 420 ([3], [4]) ''d''
      ''http://gw'' ''name'' '''' True (registered_files, ())") auto
  have rt: "\<forall>j. count_loads (count_dumps j @ [10]) = Some j" by (simp add: count_dumps_def count_loads_def)
  from register_outcomes [OF registered_load rt r] r show ?thesis
    by (auto simp: register_with_gateway_def)
qed

theorem status_reports_witness:
  "snd (status_cmd (\<lambda>_. '''') count_loads (\<lambda>u. ConnectError ''refused'') ''d'' False registered_files) = Finished"
proof -
  obtain shown e where s: "status_cmd (\<lambda>_. '''') count_loads (\<lambda>u. ConnectError ''refused'') ''d'' False registered_files = (shown, e)"
    by fastforce
  have l: "load_config count_loads ''d'' registered_files = Inr (Some (JObj
      [(''node_id'', JStr ''n''), (''gateway_url'', JStr ''http://gw''), (''jwt_token'', JStr ''t'')]))"
    using registered_load by (simp add: old_config_def)
  have c: "caps_of (json_get ''capabilities'' (JObj
      [(''node_id'', JStr ''n''), (''gateway_url'', JStr ''http://gw''), (''jwt_token'', JStr ''t'')])) = Inr []" by simp
  from status_reports [OF l c s] s show ?thesis by simp
qed

end
