(* ===== verification/Edge_Node.thy ===== *)
theory Edge_Node
  imports Edge_Relay Edge_Cli
begin

text \<open>
  An edge node as a process, \<^verbatim>\<open>edgekit/entrypoint.py\<close> and \<^verbatim>\<open>edgekit/health.py\<close>: its environment, the
  wiring of relay client, executor and plugins, and its health endpoint; and what a registration
  made with the command line is worth at the gateway's relay.

  \<open>fresh\<close> is the identifier \<open>uuid.uuid4()\<close> draws. Logging, the signal handlers and the servers'
  tasks are left out. Only ASCII letters are raised to upper case.
\<close>

section \<open>Environment\<close>

definition upper_char :: "char \<Rightarrow> char" where
  "upper_char c = (if 97 \<le> (of_char c :: nat) \<and> (of_char c :: nat) \<le> 122 then char_of ((of_char c :: nat) - 32) else c)"

record node_env =
  ne_gateway_url :: string
  ne_node_jwt :: string
  ne_node_id :: uuid
  ne_log_level :: string
  ne_health_port :: int

text \<open>\<open>SystemExit\<close> with its message, or another exception.\<close>

datatype start_failure = SystemExit string | Unhandled_exc py_exc

definition env_text :: "(string \<rightharpoonup> string) \<Rightarrow> string \<Rightarrow> string option" where
  "env_text env k = (case env k of None \<Rightarrow> None | Some s \<Rightarrow> if s = '''' then None else Some s)"

definition parse_env :: "(string \<rightharpoonup> string) \<Rightarrow> uuid \<Rightarrow> start_failure + node_env" where
  "parse_env env fresh =
     (case env_text env ''GATEWAY_URL'' of
        None \<Rightarrow> Inl (SystemExit ''GATEWAY_URL environment variable is required'')
      | Some gateway_url \<Rightarrow>
          (case env_text env ''NODE_JWT'' of
             None \<Rightarrow> Inl (SystemExit ''NODE_JWT environment variable is required'')
           | Some node_jwt \<Rightarrow>
               (case (case env_text env ''NODE_ID'' of None \<Rightarrow> Some fresh | Some raw \<Rightarrow> uuid_parse raw) of
                  None \<Rightarrow> Inl (SystemExit (''NODE_ID is not a valid UUID: '' @
                            (case env_text env ''NODE_ID'' of Some raw \<Rightarrow> raw | None \<Rightarrow> '''')))
                | Some node_id \<Rightarrow>
                    (case py_int_str (case env ''HEALTH_PORT'' of Some p \<Rightarrow> p | None \<Rightarrow> ''8081'') of
                       None \<Rightarrow> Inl (Unhandled_exc (ValueError ''invalid literal for int() with base 10''))
                     | Some health_port \<Rightarrow>
                         Inr \<lparr>ne_gateway_url = gateway_url, ne_node_jwt = node_jwt, ne_node_id = node_id,
                              ne_log_level = map upper_char (case env ''LOG_LEVEL'' of Some l \<Rightarrow> l | None \<Rightarrow> ''INFO''),
                              ne_health_port = health_port\<rparr>))))"

section \<open>Wiring\<close>

definition build_plugins :: "(json \<Rightarrow> string) \<Rightarrow> (json \<Rightarrow> string) \<Rightarrow> (json \<Rightarrow> string) \<Rightarrow> rat \<Rightarrow> plugin list" where
  "build_plugins py_str py_repr dumps duration =
     [echo_plugin py_str dumps, cpu_benchmark_plugin py_repr dumps duration]"

definition build_executor :: "plugin list \<Rightarrow> py_exc + executor" where
  "build_executor plugins = make_executor plugins 300 (2 * 1024 * 1024 * 1024) 600"

definition build_relay_client :: "string \<Rightarrow> uuid \<Rightarrow> string \<Rightarrow> relay_client" where
  "build_relay_client gateway_url node_id node_jwt = default_relay_client gateway_url node_id node_jwt"

text \<open>The component graph of \<open>run_edge_node\<close>: the client, and the callback that is set on it.\<close>

definition build_node ::
  "(json \<Rightarrow> string) \<Rightarrow> (json \<Rightarrow> string) \<Rightarrow> (json \<Rightarrow> string) \<Rightarrow> rat \<Rightarrow> rlimits \<Rightarrow> node_env \<Rightarrow>
   py_exc + relay_client \<times> job_callback \<times> string list" where
  "build_node py_str py_repr dumps duration l env =
     err_bind (build_executor (build_plugins py_str py_repr dumps duration))
       (\<lambda>ex. Inr (build_relay_client (ne_gateway_url env) (ne_node_id env) (ne_node_jwt env),
                  executor_callback py_str ex l, registered_job_types ex))"

section \<open>Health\<close>

record health_response =
  he_status :: string
  he_connected :: bool
  he_uptime_seconds :: rat

definition round2 :: "rat \<Rightarrow> rat" where
  "round2 x = rat_of_int (round (x * 100)) / 100"

definition health_check :: "relay_client option \<Rightarrow> rat \<Rightarrow> rat \<Rightarrow> health_response" where
  "health_check client start_time now =
     \<lparr>he_status = ''ok'', he_connected = (case client of None \<Rightarrow> False | Some c \<Rightarrow> rc_connected c),
      he_uptime_seconds = round2 (now - start_time)\<rparr>"

section \<open>Properties\<close>

text \<open>A node starts with both built-in plugins. Whatever the environment, if it can be parsed the
  component graph builds: the job types offered are \<open>cpu_benchmark\<close> and \<open>echo\<close>, the client is not yet
  connected, and the health endpoint says so.\<close>

theorem node_builds:
  assumes "parse_env env fresh = Inr ne"
  shows "\<exists>c cb. build_node py_str py_repr dumps duration l ne = Inr (c, cb, [''cpu_benchmark'', ''echo'']) \<and>
    ws_url c = rstrip_char CHR ''/'' (the (env ''GATEWAY_URL'')) @ ''/relay/ws/'' @ uuid_str (ne_node_id ne) @
      ''?token='' @ the (env ''NODE_JWT'') \<and>
    \<not> he_connected (health_check (Some c) started t)"
proof -
  have s: "sort [''echo'', ''cpu_benchmark''] = [''cpu_benchmark'', ''echo'']"
    by code_simp
  obtain url jwt where e: "env ''GATEWAY_URL'' = Some url" "env ''NODE_JWT'' = Some jwt"
    "ne_gateway_url ne = url" "ne_node_jwt ne = jwt"
    using assms by (auto simp: parse_env_def env_text_def split: option.splits if_splits)
  then show ?thesis
    using s by (simp add: build_node_def build_executor_def build_plugins_def make_executor_def echo_plugin_def
        cpu_benchmark_plugin_def registered_job_types_def build_relay_client_def default_relay_client_def
        new_relay_client_def ws_url_def health_check_def)
qed

definition demo_env :: "string \<rightharpoonup> string" where
  "demo_env = [''GATEWAY_URL'' \<mapsto> ''ws://h/'', ''NODE_JWT'' \<mapsto> ''j'']"

lemma demo_env_parses:
  "parse_env demo_env 9 = Inr \<lparr>ne_gateway_url = ''ws://h/'', ne_node_jwt = ''j'', ne_node_id = 9, ne_log_level = ''INFO'',
     ne_health_port = 8081\<rparr>"
proof -
  have "py_int_str ''8081'' = Some 8081" "map upper_char ''INFO'' = ''INFO''" by code_simp+
  then show ?thesis by (simp add: parse_env_def demo_env_def env_text_def)
qed

theorem node_builds_witness:
  "\<exists>c cb. build_node (\<lambda>_. '''') (\<lambda>_. '''') (\<lambda>_. '''') 0 \<lparr>rl_as = (None, None), rl_cpu = (None, None)\<rparr>
     \<lparr>ne_gateway_url = ''ws://h/'', ne_node_jwt = ''j'', ne_node_id = 9, ne_log_level = ''INFO'', ne_health_port = 8081\<rparr> =
     Inr (c, cb, [''cpu_benchmark'', ''echo'']) \<and> ws_url c = ''ws://h/relay/ws/'' @ uuid_str 9 @ ''?token=j''"
proof -
  let ?ne = "\<lparr>ne_gateway_url = ''ws://h/'', ne_node_jwt = ''j'', ne_node_id = 9, ne_log_level = ''INFO'', ne_health_port = 8081\<rparr>"
  obtain c cb where c: "build_node (\<lambda>_. '''') (\<lambda>_. '''') (\<lambda>_. '''') 0 \<lparr>rl_as = (None, None), rl_cpu = (None, None)\<rparr> ?ne =
      Inr (c, cb, [''cpu_benchmark'', ''echo''])"
    and u: "ws_url c = rstrip_char CHR ''/'' (the (demo_env ''GATEWAY_URL'')) @ ''/relay/ws/'' @ uuid_str (ne_node_id ?ne) @
      ''?token='' @ the (demo_env ''NODE_JWT'')"
    using node_builds [OF demo_env_parses] by blast
  from u have "ws_url c = ''ws://h/relay/ws/'' @ uuid_str 9 @ ''?token=j''"
    by (simp add: demo_env_def rstrip_char_def)
  with c show ?thesis by blast
qed

text \<open>The gateway's registration route over HTTP.\<close>

definition register_server ::
  "jwt_encode \<Rightarrow> instant \<Rightarrow> uuid \<Rightarrow> uuid \<Rightarrow> string \<Rightarrow> string \<Rightarrow> json \<Rightarrow> sched_db session \<Rightarrow> http_outcome \<times> sched_db session" where
  "register_server enc now nid jti challenge url body s =
     (case (json_get ''name'' body, json_get ''public_key'' body, json_get ''capabilities'' body) of
        (Some (JStr name), Some (JStr pk), Some (JArr caps)) \<Rightarrow>
          (case register_endpoint enc now nid jti challenge name pk (json_strings (JArr caps)) JNull s of
             (r, s') \<Rightarrow>
               (case reply (err_bind r (\<lambda>x. Inr (JObj
                    [(''node_id'', JStr (nr_node x)), (''challenge'', JStr (nr_challenge x)), (''token'', JStr (nr_token x)),
                     (''status'', JStr (nr_status x))]))) of
                  Inr resp \<Rightarrow> (Responded resp, s')
                | Inl _ \<Rightarrow> (OtherTransport '''', s')))
      | _ \<Rightarrow> (Responded \<lparr>hr_status = 422, hr_json = None, hr_text = ''validation error''\<rparr>, s))"

lemma authenticate_node_token:
  assumes "codec_ok enc dec" and "create_node_token enc now jti i caps \<noteq> ''''"
  shows "authenticate_websocket dec t j (Some (create_node_token enc now jti i caps)) \<longleftrightarrow>
    j = i \<and> unix_seconds t \<le> unix_seconds (now + seconds (24 * 3600))"
  using assms
  by (auto simp: authenticate_websocket_def verify_node_token_def create_node_token_def codec_ok_def)

text \<open>What a registration is worth. When a node registers a new key with the gateway over the command
  line, the gateway has a row for it, and the token in its configuration opens the relay for
  that node's identifier for twenty-four hours and not a second longer. For every other
  identifier it is refused; so a node started without \<open>NODE_ID\<close>, which draws an identifier of its
  own, is never let in.\<close>

theorem registration_opens_relay:
  assumes "codec_ok enc dec" and "\<forall>c. enc c \<noteq> ''''"
    and "filter (\<lambda>n. en_public_key n = pem_text pub) (sd_nodes (working s)) = []"
    and "register_cmd py_str dumps loads (register_server enc now nid jti ch) m (priv, pub) dir url name caps True (fs, s) =
      (Finished, fs', s')"
    and "\<forall>j. loads (dumps j @ [10]) = Some j" and "load_config loads dir fs = Inr old"
  shows "\<exists>c tok. load_config loads dir fs' = Inr (Some c) \<and> json_get ''node_id'' c = Some (JStr (uuid_str nid)) \<and>
    json_get ''jwt_token'' c = Some (JStr tok) \<and>
    (\<exists>n \<in> set (sd_nodes (committed s')). en_id n = nid \<and> en_public_key n = pem_text pub) \<and>
    (\<forall>t i. authenticate_websocket dec t i (Some tok) \<longleftrightarrow>
       i = nid \<and> unix_seconds t \<le> unix_seconds (now + seconds (24 * 3600)))"
proof -
  let ?caps = "parse_capabilities caps"
  let ?tok = "create_node_token enc now jti nid ?caps"
  let ?n = "new_node nid now name (pem_text pub) ?caps JNull"
  have caps: "json_strings (JArr (map JStr ?caps)) = ?caps"
    by (induction ?caps) (simp_all add: comp_def)
  have reg: "register_endpoint enc now nid jti ch name (pem_text pub) ?caps JNull s =
      (Inr \<lparr>nr_node = uuid_str nid, nr_challenge = ch, nr_token = ?tok, nr_status = node_status_value REGISTERED\<rparr>,
       commit (s\<lparr>working := (working s)\<lparr>sd_nodes := sd_nodes (working s) @ [?n]\<rparr>\<rparr>))"
    using assms(3) by (simp add: register_endpoint_def register_node_def Let_def new_node_def)
  have ans: "register_with_gateway py_str (register_server enc now nid jti ch) url name (pem_text pub) ?caps s =
      (Inr (JObj [(''node_id'', JStr (uuid_str nid)), (''challenge'', JStr ch), (''token'', JStr ?tok),
              (''status'', JStr (node_status_value REGISTERED))]),
       commit (s\<lparr>working := (working s)\<lparr>sd_nodes := sd_nodes (working s) @ [?n]\<rparr>\<rparr>))"
    using caps reg
    by (simp add: register_with_gateway_def register_server_def register_payload_def reply_def is_success_def
        del: json_strings.simps)
  let ?c = "JObj [(''node_id'', JStr (uuid_str nid)), (''name'', JStr name), (''gateway_url'', JStr url), (''jwt_token'', JStr ?tok),
              (''status'', JStr (node_status_value REGISTERED)), (''capabilities'', JArr (map JStr ?caps))]"
  have "s' = commit (s\<lparr>working := (working s)\<lparr>sd_nodes := sd_nodes (working s) @ [?n]\<rparr>\<rparr>)"
    "load_config loads dir fs' = Inr (Some ?c)"
    using assms(4,5,6) ans
    by (auto simp: register_cmd_def Let_def node_config_def get_item_def get_default_def save_config_files)
  moreover have "?tok \<noteq> ''''" using assms(2) by (simp add: create_node_token_def)
  ultimately show ?thesis
    using authenticate_node_token [OF assms(1)]
    by (intro exI [of _ ?c] exI [of _ ?tok]) (auto simp: new_node_def)
qed


theorem registration_opens_relay_witness:
  "\<exists>e fs' s' c tok. register_cmd (\<lambda>_. '''') count_dumps count_loads (register_server unary_encode 0 7 1 ''ch'') 420 ([1], [2])
      ''d'' ''http://gw'' ''n'' ''gpu, cpu'' True (Map.empty, open_session \<lparr>sd_nodes = [], sd_jobs = [], sd_dlq = []\<rparr>) = (e, fs', s') \<and>
    load_config count_loads ''d'' fs' = Inr (Some c) \<and> json_get ''jwt_token'' c = Some (JStr tok) \<and>
    authenticate_websocket unary_decode 86400000000 7 (Some tok) \<and>
    \<not> authenticate_websocket unary_decode 86401000000 7 (Some tok) \<and> \<not> authenticate_websocket unary_decode 0 8 (Some tok)"
proof -
  let ?s = "open_session \<lparr>sd_nodes = [], sd_jobs = [], sd_dlq = []\<rparr>"
  have rt: "\<forall>j. count_loads (count_dumps j @ [10]) = Some j" by (simp add: count_dumps_def count_loads_def)
  have ne: "\<forall>c. unary_encode c \<noteq> ''''" by (simp add: unary_encode_def)
  have caps: "json_strings (JArr (map JStr xs)) = xs" for xs by (induction xs) simp_all
  obtain fs' s' where r: "register_cmd (\<lambda>_. '''') count_dumps count_loads (register_server unary_encode 0 7 1 ''ch'') 420 ([1], [2])
      ''d'' ''http://gw'' ''n'' ''gpu, cpu'' True (Map.empty, ?s) = (Finished, fs', s')"
    by (simp add: register_cmd_def load_config_def Let_def register_with_gateway_def register_server_def register_payload_def
        register_endpoint_def register_node_def reply_def is_success_def node_config_def get_item_def get_default_def)
  have old: "load_config count_loads ''d'' Map.empty = Inr None" by (simp add: load_config_def)
  have none: "filter (\<lambda>n. en_public_key n = pem_text [2]) (sd_nodes (working ?s)) = []" by simp
  from registration_opens_relay [OF unary_codec ne none r rt old] r show ?thesis
    by (fastforce simp: unix_seconds_def)
qed

end
