(* ===== verification/Migrations.thy ===== *)
theory Migrations
  imports Usage
begin

text \<open>
  The database schema: the six migrations of \<^verbatim>\<open>alembic/versions/\<close> as lists of schema operations,
  and the tables the models declare (\<^verbatim>\<open>core/database.py\<close>, \<^verbatim>\<open>core/models/base.py\<close>,
  \<^verbatim>\<open>core/scheduler/models.py\<close>, \<^verbatim>\<open>core/billing/models.py\<close>).

  An operation is run by \<open>apply_op\<close>, which refuses what the database refuses: a name that is taken
  or missing, a reference to a table that is not there, the removal of what is still in use.
  \<open>DropEnum\<close> and \<open>CreateEnum\<close> check first, as the code does. A row lists the values it was given;
  server defaults fill the rest.
\<close>

section \<open>Schemas\<close>

datatype col_type =
    CUuid | CString nat | CText | CBoolean | CTimestamp | CNumeric nat nat | CFloat | CInteger | CJson | CEnum string

record column =
  co_name :: string
  co_type :: col_type
  co_nullable :: bool
  co_default :: "string option"
  co_fk :: "(string \<times> string \<times> string option) option"
  co_unique :: bool

record table =
  tl_name :: string
  tl_columns :: "column list"
  tl_key :: "string list"
  tl_uniques :: "(string \<times> string list) list"
  tl_checks :: "(string \<times> string) list"
  tl_rows :: "(string \<times> string) list list"

record db_index =
  ix_name :: string
  ix_table :: string
  ix_columns :: "string list"
  ix_unique :: bool

record schema =
  sm_tables :: "table list"
  sm_indexes :: "db_index list"
  sm_types :: "(string \<times> string list) list"

datatype op =
    CreateTable table
  | DropTable string
  | CreateIndex db_index
  | DropIndex string string
  | AddColumn string column
  | DropColumn string string
  | CreateEnum string "string list"
  | DropEnum string
  | BulkInsert string "(string \<times> string) list list"

definition col_names :: "table \<Rightarrow> string list" where
  "col_names t = map co_name (tl_columns t)"

definition find_table :: "schema \<Rightarrow> string \<Rightarrow> table option" where
  "find_table s n = List.find (\<lambda>t. tl_name t = n) (sm_tables s)"

definition fk_target :: "column \<Rightarrow> string option" where
  "fk_target c = map_option fst (co_fk c)"

text \<open>What a column needs of the schema: its enumeration type and the table it refers to.\<close>

definition column_valid :: "schema \<Rightarrow> column \<Rightarrow> bool" where
  "column_valid s c \<longleftrightarrow>
     (case co_type c of CEnum e \<Rightarrow> e \<in> set (map fst (sm_types s)) | _ \<Rightarrow> True) \<and>
     (case fk_target c of Some n \<Rightarrow> n \<in> set (map tl_name (sm_tables s)) | None \<Rightarrow> True)"

definition refers_to :: "string \<Rightarrow> table \<Rightarrow> bool" where
  "refers_to n t \<longleftrightarrow> tl_name t \<noteq> n \<and> list_ex (\<lambda>c. fk_target c = Some n) (tl_columns t)"

definition update_table :: "string \<Rightarrow> (table \<Rightarrow> table) \<Rightarrow> schema \<Rightarrow> schema" where
  "update_table n f s = s\<lparr>sm_tables := map (\<lambda>t. if tl_name t = n then f t else t) (sm_tables s)\<rparr>"

fun apply_op :: "op \<Rightarrow> schema \<Rightarrow> schema option" where
  "apply_op (CreateTable t) s =
     (if tl_name t \<in> set (map tl_name (sm_tables s)) \<or> \<not> distinct (col_names t) \<or>
         \<not> list_all (column_valid s) (tl_columns t) then None
      else Some (s\<lparr>sm_tables := sm_tables s @ [t]\<rparr>))"
| "apply_op (DropTable n) s =
     (if n \<notin> set (map tl_name (sm_tables s)) \<or> list_ex (refers_to n) (sm_tables s) then None
      else Some (s\<lparr>sm_tables := filter (\<lambda>t. tl_name t \<noteq> n) (sm_tables s),
                  sm_indexes := filter (\<lambda>i. ix_table i \<noteq> n) (sm_indexes s)\<rparr>))"
| "apply_op (CreateIndex i) s =
     (case find_table s (ix_table i) of
        None \<Rightarrow> None
      | Some t \<Rightarrow>
          if ix_name i \<in> set (map ix_name (sm_indexes s)) \<or> \<not> list_all (\<lambda>c. c \<in> set (col_names t)) (ix_columns i)
          then None else Some (s\<lparr>sm_indexes := sm_indexes s @ [i]\<rparr>))"
| "apply_op (DropIndex n tab) s =
     (if list_ex (\<lambda>i. ix_name i = n \<and> ix_table i = tab) (sm_indexes s)
      then Some (s\<lparr>sm_indexes := filter (\<lambda>i. ix_name i \<noteq> n) (sm_indexes s)\<rparr>) else None)"
| "apply_op (AddColumn n c) s =
     (case find_table s n of
        None \<Rightarrow> None
      | Some t \<Rightarrow>
          if co_name c \<in> set (col_names t) \<or> \<not> column_valid s c \<or>
             (tl_rows t \<noteq> [] \<and> \<not> co_nullable c \<and> co_default c = None) then None
          else Some (update_table n (\<lambda>t. t\<lparr>tl_columns := tl_columns t @ [c]\<rparr>) s))"
| "apply_op (DropColumn n c) s =
     (case find_table s n of
        None \<Rightarrow> None
      | Some t \<Rightarrow>
          if c \<notin> set (col_names t) then None
          else Some ((update_table n (\<lambda>t. t\<lparr>tl_columns := filter (\<lambda>d. co_name d \<noteq> c) (tl_columns t),
                         tl_rows := map (filter (\<lambda>v. fst v \<noteq> c)) (tl_rows t)\<rparr>) s)
                 \<lparr>sm_indexes := filter (\<lambda>i. \<not> (ix_table i = n \<and> c \<in> set (ix_columns i))) (sm_indexes s)\<rparr>))"
| "apply_op (CreateEnum n vs) s =
     (if n \<in> set (map fst (sm_types s)) then Some s else Some (s\<lparr>sm_types := sm_types s @ [(n, vs)]\<rparr>))"
| "apply_op (DropEnum n) s =
     (if list_ex (\<lambda>t. list_ex (\<lambda>c. co_type c = CEnum n) (tl_columns t)) (sm_tables s) then None
      else Some (s\<lparr>sm_types := filter (\<lambda>p. fst p \<noteq> n) (sm_types s)\<rparr>))"
| "apply_op (BulkInsert n rows) s =
     (case find_table s n of
        None \<Rightarrow> None
      | Some t \<Rightarrow>
          if list_all (\<lambda>r. list_all (\<lambda>v. fst v \<in> set (col_names t)) r) rows
          then Some (update_table n (\<lambda>t. t\<lparr>tl_rows := tl_rows t @ rows\<rparr>) s) else None)"

fun run_ops :: "op list \<Rightarrow> schema \<Rightarrow> schema option" where
  "run_ops [] s = Some s"
| "run_ops (x # xs) s = (case apply_op x s of None \<Rightarrow> None | Some s' \<Rightarrow> run_ops xs s')"

definition empty_schema :: schema where
  "empty_schema = \<lparr>sm_tables = [], sm_indexes = [], sm_types = []\<rparr>"

section \<open>The migrations\<close>

definition col :: "string \<Rightarrow> col_type \<Rightarrow> bool \<Rightarrow> string option \<Rightarrow> column" where
  "col n ty nullable dflt =
     \<lparr>co_name = n, co_type = ty, co_nullable = nullable, co_default = dflt, co_fk = None, co_unique = False\<rparr>"

definition fk_col :: "string \<Rightarrow> string \<Rightarrow> string option \<Rightarrow> column" where
  "fk_col n target ondelete = (col n CUuid False None)\<lparr>co_fk := Some (target, ''id'', ondelete)\<rparr>"

definition id_col :: column where
  "id_col = col ''id'' CUuid False (Some ''gen_random_uuid()'')"

definition stamp_cols :: "column list" where
  "stamp_cols = [col ''created_at'' CTimestamp False (Some ''now()''), col ''updated_at'' CTimestamp False (Some ''now()'')]"

definition tab :: "string \<Rightarrow> column list \<Rightarrow> table" where
  "tab n cs = \<lparr>tl_name = n, tl_columns = cs, tl_key = [''id''], tl_uniques = [], tl_checks = [], tl_rows = []\<rparr>"

definition idx :: "string \<Rightarrow> string \<Rightarrow> string \<Rightarrow> bool \<Rightarrow> db_index" where
  "idx n t c unique = \<lparr>ix_name = n, ix_table = t, ix_columns = [c], ix_unique = unique\<rparr>"

definition upgrade_0001 :: "op list" where
  "upgrade_0001 =
    [CreateTable (tab ''users''
       ([id_col, (col ''email'' (CString 255) False None)\<lparr>co_unique := True\<rparr>, col ''name'' (CString 255) False None,
         col ''hashed_password'' (CString 255) False None, col ''is_active'' CBoolean False (Some ''true''),
         col ''is_admin'' CBoolean False (Some ''false'')] @ stamp_cols)),
     CreateIndex (idx ''ix_users_email'' ''users'' ''email'' True),
     CreateTable (tab ''projects''
       ([id_col, col ''name'' (CString 255) False None, col ''description'' CText True None,
         fk_col ''owner_id'' ''users'' (Some ''CASCADE'')] @ stamp_cols)),
     CreateIndex (idx ''ix_projects_owner_id'' ''projects'' ''owner_id'' False)]"

definition downgrade_0001 :: "op list" where
  "downgrade_0001 =
    [DropIndex ''ix_projects_owner_id'' ''projects'', DropTable ''projects'',
     DropIndex ''ix_users_email'' ''users'', DropTable ''users'']"

definition upgrade_0002 :: "op list" where
  "upgrade_0002 =
    [CreateEnum ''transaction_direction'' [''CREDIT'', ''DEBIT''],
     CreateEnum ''transaction_source'' [''STRIPE'', ''USAGE'', ''ADJUSTMENT'', ''REFUND''],
     CreateTable ((tab ''credit_ledger_entries''
       ([id_col, fk_col ''user_id'' ''users'' (Some ''CASCADE''), col ''amount'' (CNumeric 12 4) False None,
         col ''direction'' (CEnum ''transaction_direction'') False None,
         col ''source'' (CEnum ''transaction_source'') False None,
         col ''reference_id'' (CString 255) False None, col ''balance_after'' (CNumeric 12 4) False None,
         col ''description'' CText True None] @ stamp_cols))
       \<lparr>tl_uniques := [(''uq_ledger_reference_direction'', [''reference_id'', ''direction''])],
        tl_checks := [(''ck_ledger_balance_non_negative'', ''balance_after >= 0'')]\<rparr>),
     CreateIndex (idx ''ix_credit_ledger_entries_user_id'' ''credit_ledger_entries'' ''user_id'' False),
     CreateIndex (idx ''ix_credit_ledger_entries_reference_id'' ''credit_ledger_entries'' ''reference_id'' False)]"

definition downgrade_0002 :: "op list" where
  "downgrade_0002 =
    [DropIndex ''ix_credit_ledger_entries_reference_id'' ''credit_ledger_entries'',
     DropIndex ''ix_credit_ledger_entries_user_id'' ''credit_ledger_entries'',
     DropTable ''credit_ledger_entries'', DropEnum ''transaction_source'', DropEnum ''transaction_direction'']"

definition upgrade_0003 :: "op list" where
  "upgrade_0003 =
    [CreateTable (tab ''edge_nodes''
       ([id_col, col ''public_key'' CText False None, col ''name'' (CString 255) False None,
         col ''capabilities'' CJson True None, col ''status'' (CString 20) False (Some ''REGISTERED''),
         col ''last_heartbeat'' CTimestamp True None, col ''current_load'' CFloat False (Some ''0.0''),
         col ''metadata'' CJson True None] @ stamp_cols)),
     CreateIndex (idx ''ix_edge_nodes_status'' ''edge_nodes'' ''status'' False),
     CreateIndex (idx ''ix_edge_nodes_last_heartbeat'' ''edge_nodes'' ''last_heartbeat'' False),
     CreateTable (tab ''job_dispatches''
       ([id_col, fk_col ''node_id'' ''edge_nodes'' None, col ''job_type'' (CString 100) False None,
         col ''payload_ref'' (CString 500) False None, col ''status'' (CString 20) False (Some ''QUEUED''),
         col ''queued_at'' CTimestamp False (Some ''now()''), col ''dispatched_at'' CTimestamp True None,
         col ''completed_at'' CTimestamp True None] @ stamp_cols)),
     CreateIndex (idx ''ix_job_dispatches_node_id'' ''job_dispatches'' ''node_id'' False),
     CreateIndex (idx ''ix_job_dispatches_status'' ''job_dispatches'' ''status'' False)]"

definition downgrade_0003 :: "op list" where
  "downgrade_0003 =
    [DropIndex ''ix_job_dispatches_status'' ''job_dispatches'', DropIndex ''ix_job_dispatches_node_id'' ''job_dispatches'',
     DropTable ''job_dispatches'', DropIndex ''ix_edge_nodes_last_heartbeat'' ''edge_nodes'',
     DropIndex ''ix_edge_nodes_status'' ''edge_nodes'', DropTable ''edge_nodes'']"

definition upgrade_0004 :: "op list" where
  "upgrade_0004 =
    [AddColumn ''job_dispatches'' (col ''result_ref'' (CString 500) True None),
     AddColumn ''job_dispatches'' (col ''error_message'' CText True None),
     AddColumn ''job_dispatches'' (col ''retry_count'' CInteger False (Some ''0''))]"

definition downgrade_0004 :: "op list" where
  "downgrade_0004 =
    [DropColumn ''job_dispatches'' ''retry_count'', DropColumn ''job_dispatches'' ''error_message'',
     DropColumn ''job_dispatches'' ''result_ref'']"

definition upgrade_0005 :: "op list" where
  "upgrade_0005 =
    [CreateTable (tab ''dead_letter_queue''
       ([col ''id'' CUuid False None, fk_col ''job_id'' ''job_dispatches'' None,
         col ''original_payload'' (CString 500) False None, col ''error_history'' CJson False None,
         col ''failed_at'' CTimestamp False (Some ''now()''), col ''retry_count'' CInteger False (Some ''0'')] @ stamp_cols)),
     CreateIndex (idx ''ix_dead_letter_queue_job_id'' ''dead_letter_queue'' ''job_id'' False)]"

definition downgrade_0005 :: "op list" where
  "downgrade_0005 = [DropIndex ''ix_dead_letter_queue_job_id'' ''dead_letter_queue'', DropTable ''dead_letter_queue'']"

definition seed_pricing :: "(string \<times> string) list list" where
  "seed_pricing =
    [[(''job_type'', ''render''), (''credits_per_unit'', ''10.0000''), (''unit_type'', ''per_job'')],
     [(''job_type'', ''inference''), (''credits_per_unit'', ''5.0000''), (''unit_type'', ''per_job'')],
     [(''job_type'', ''echo''), (''credits_per_unit'', ''0.0000''), (''unit_type'', ''per_job'')],
     [(''job_type'', ''cpu_benchmark''), (''credits_per_unit'', ''1.0000''), (''unit_type'', ''per_job'')]]"

definition upgrade_0006 :: "uuid list \<Rightarrow> op list" where
  "upgrade_0006 fresh =
    [CreateTable ((tab ''job_pricing''
       ([col ''id'' CUuid False None, col ''job_type'' (CString 100) False None,
         col ''credits_per_unit'' (CNumeric 12 4) False None, col ''unit_type'' (CString 50) False (Some ''per_job''),
         col ''is_active'' CBoolean False (Some ''true'')] @ stamp_cols))
       \<lparr>tl_uniques := [(''uq_job_pricing_job_type'', [''job_type''])]\<rparr>),
     CreateIndex (idx ''ix_job_pricing_job_type'' ''job_pricing'' ''job_type'' True),
     BulkInsert ''job_pricing'' (map (\<lambda>(u, r). (''id'', uuid_str u) # r) (zip fresh seed_pricing))]"

definition downgrade_0006 :: "op list" where
  "downgrade_0006 = [DropIndex ''ix_job_pricing_job_type'' ''job_pricing'', DropTable ''job_pricing'']"

text \<open>The chain of revisions, in order.\<close>

definition migrations :: "uuid list \<Rightarrow> (string \<times> op list \<times> op list) list" where
  "migrations fresh =
    [(''0001_baseline'', upgrade_0001, downgrade_0001), (''0002_credit_ledger'', upgrade_0002, downgrade_0002),
     (''0003_scheduler'', upgrade_0003, downgrade_0003), (''0004_job_results'', upgrade_0004, downgrade_0004),
     (''0005_dead_letter_queue'', upgrade_0005, downgrade_0005),
     (''0006_job_pricing'', upgrade_0006 fresh, downgrade_0006)]"

definition upgrade_all :: "uuid list \<Rightarrow> schema \<Rightarrow> schema option" where
  "upgrade_all fresh s = run_ops (concat (map (\<lambda>m. fst (snd m)) (migrations fresh))) s"

definition downgrade_all :: "uuid list \<Rightarrow> schema \<Rightarrow> schema option" where
  "downgrade_all fresh s = run_ops (concat (map (\<lambda>m. snd (snd m)) (rev (migrations fresh)))) s"


section \<open>The declared tables\<close>

text \<open>The columns of \<open>BaseModel\<close> and \<open>TimestampMixin\<close>, and a mapped column.\<close>

definition base_model :: "string \<Rightarrow> column list \<Rightarrow> table" where
  "base_model n cs = tab n (col ''id'' CUuid False None # stamp_cols @ cs)"

definition user_table :: table where
  "user_table = base_model ''users''
     [(col ''email'' (CString 255) False None)\<lparr>co_unique := True\<rparr>, col ''name'' (CString 255) False None,
      col ''hashed_password'' (CString 255) False None, col ''is_active'' CBoolean False None, col ''is_admin'' CBoolean False None]"

definition project_table :: table where
  "project_table = base_model ''projects''
     [col ''name'' (CString 255) False None, col ''description'' CText True None, fk_col ''owner_id'' ''users'' (Some ''CASCADE'')]"

definition credit_ledger_table :: table where
  "credit_ledger_table = (base_model ''credit_ledger_entries''
     [fk_col ''user_id'' ''users'' (Some ''CASCADE''), col ''amount'' (CNumeric 12 4) False None,
      col ''direction'' (CEnum ''transaction_direction'') False None, col ''source'' (CEnum ''transaction_source'') False None,
      col ''reference_id'' (CString 255) False None, col ''balance_after'' (CNumeric 12 4) False None,
      col ''description'' CText True None])
     \<lparr>tl_uniques := [(''uq_ledger_reference_direction'', [''reference_id'', ''direction''])],
      tl_checks := [(''ck_ledger_balance_non_negative'', ''balance_after >= 0'')]\<rparr>"

definition edge_node_table :: table where
  "edge_node_table = base_model ''edge_nodes''
     [col ''public_key'' CText False None, col ''name'' (CString 255) False None, col ''capabilities'' CJson True None,
      col ''status'' (CString 20) False None, col ''last_heartbeat'' CTimestamp True None, col ''current_load'' CFloat False None,
      col ''metadata'' CJson True None]"

definition job_dispatch_table :: table where
  "job_dispatch_table = base_model ''job_dispatches''
     [fk_col ''node_id'' ''edge_nodes'' None, col ''job_type'' (CString 100) False None,
      col ''payload_ref'' (CString 500) False None, col ''status'' (CString 20) False None,
      col ''queued_at'' CTimestamp False (Some ''now()''), col ''dispatched_at'' CTimestamp True None,
      col ''completed_at'' CTimestamp True None, col ''result_ref'' (CString 500) True None,
      col ''error_message'' CText True None, col ''retry_count'' CInteger False (Some ''0'')]"

definition dead_letter_table :: table where
  "dead_letter_table = base_model ''dead_letter_queue''
     [fk_col ''job_id'' ''job_dispatches'' None, col ''original_payload'' (CString 500) False None,
      col ''error_history'' CJson False None, col ''failed_at'' CTimestamp False (Some ''now()''),
      col ''retry_count'' CInteger False None]"

definition job_pricing_table :: table where
  "job_pricing_table = base_model ''job_pricing''
     [(col ''job_type'' (CString 100) False None)\<lparr>co_unique := True\<rparr>, col ''credits_per_unit'' (CNumeric 12 4) False None,
      col ''unit_type'' (CString 50) False None, col ''is_active'' CBoolean False None]"

definition model_tables :: "table list" where
  "model_tables = [user_table, project_table, credit_ledger_table, edge_node_table, job_dispatch_table,
     dead_letter_table, job_pricing_table]"

definition model_indexes :: "db_index list" where
  "model_indexes =
    [idx ''ix_users_email'' ''users'' ''email'' True, idx ''ix_projects_owner_id'' ''projects'' ''owner_id'' False,
     idx ''ix_credit_ledger_entries_user_id'' ''credit_ledger_entries'' ''user_id'' False,
     idx ''ix_credit_ledger_entries_reference_id'' ''credit_ledger_entries'' ''reference_id'' False,
     idx ''ix_edge_nodes_status'' ''edge_nodes'' ''status'' False,
     idx ''ix_edge_nodes_last_heartbeat'' ''edge_nodes'' ''last_heartbeat'' False,
     idx ''ix_job_dispatches_node_id'' ''job_dispatches'' ''node_id'' False,
     idx ''ix_job_dispatches_status'' ''job_dispatches'' ''status'' False,
     idx ''ix_dead_letter_queue_job_id'' ''dead_letter_queue'' ''job_id'' False,
     idx ''ix_job_pricing_job_type'' ''job_pricing'' ''job_type'' True]"

text \<open>The enumerations of the models, the tables of \<^verbatim>\<open>core/ledger/anchor/models.py\<close>.\<close>

definition model_types :: "(string \<times> string list) list" where
  "model_types = [(''transaction_direction'', [''CREDIT'', ''DEBIT'']),
     (''transaction_source'', [''STRIPE'', ''USAGE'', ''ADJUSTMENT'', ''REFUND''])]"

definition anchor_tables :: "string list" where
  "anchor_tables = [''anchor_records'', ''ledger_entries'']"

section \<open>Undoing a migration\<close>

definition schema_ok :: "schema \<Rightarrow> bool" where
  "schema_ok s \<longleftrightarrow>
     distinct (map tl_name (sm_tables s)) \<and>
     (\<forall>t \<in> set (sm_tables s). list_all (column_valid s) (tl_columns t) \<and>
        (\<forall>r \<in> set (tl_rows t). fst ` set r \<subseteq> set (col_names t))) \<and>
     (\<forall>i \<in> set (sm_indexes s). \<exists>t. find_table s (ix_table i) = Some t \<and> set (ix_columns i) \<subseteq> set (col_names t))"

fun inverse_op :: "op \<Rightarrow> op" where
  "inverse_op (CreateTable t) = DropTable (tl_name t)"
| "inverse_op (CreateIndex i) = DropIndex (ix_name i) (ix_table i)"
| "inverse_op (AddColumn n c) = DropColumn n (co_name c)"
| "inverse_op (CreateEnum n vs) = DropEnum n"
| "inverse_op x = x"

text \<open>An operation whose inverse undoes it on this schema: it only adds, and adds something new.\<close>

fun adds :: "op \<Rightarrow> schema \<Rightarrow> bool" where
  "adds (CreateTable t) s = (tl_rows t = [])"
| "adds (CreateIndex i) s = True"
| "adds (AddColumn n c) s = True"
| "adds (CreateEnum n vs) s = (n \<notin> set (map fst (sm_types s)))"
| "adds x s = False"

fun adds_all :: "op list \<Rightarrow> schema \<Rightarrow> bool" where
  "adds_all [] s = True"
| "adds_all (x # xs) s = (adds x s \<and> (case apply_op x s of None \<Rightarrow> True | Some s' \<Rightarrow> adds_all xs s'))"

lemma find_table_Some: "find_table s n = Some t \<Longrightarrow> t \<in> set (sm_tables s) \<and> tl_name t = n"
  by (auto simp: find_table_def dest: find_SomeD)

lemma find_table_None: "find_table s n = None \<longleftrightarrow> n \<notin> tl_name ` set (sm_tables s)"
  by (auto simp: find_table_def find_None_iff)

lemma find_table_unique:
  "distinct (map tl_name (sm_tables s)) \<Longrightarrow> t \<in> set (sm_tables s) \<Longrightarrow> find_table s (tl_name t) = Some t"
  using row_at_distinct [of tl_name "sm_tables s" t] by (simp add: find_table_def row_at_def)

lemma column_valid_mono:
  "column_valid s c \<Longrightarrow> set (map fst (sm_types s)) \<subseteq> set (map fst (sm_types s')) \<Longrightarrow>
   set (map tl_name (sm_tables s)) \<subseteq> set (map tl_name (sm_tables s')) \<Longrightarrow> column_valid s' c"
  by (auto simp: column_valid_def split: col_type.splits option.splits)

lemma find_table_append:
  "find_table (s\<lparr>sm_tables := sm_tables s @ [t]\<rparr>) n =
     (case find_table s n of None \<Rightarrow> if tl_name t = n then Some t else None | Some u \<Rightarrow> Some u)"
proof -
  have "List.find P (xs @ [x]) = (case List.find P xs of None \<Rightarrow> if P x then Some x else None | Some u \<Rightarrow> Some u)"
    for P and xs :: "table list" and x
    by (induction xs) auto
  then show ?thesis by (simp add: find_table_def)
qed

lemma filter_fresh: "k \<notin> set (map f xs) \<Longrightarrow> filter (\<lambda>x. f x \<noteq> k) xs = xs"
  by (induction xs) auto

lemma undo_create_table:
  assumes ok: "schema_ok s" and ap: "apply_op (CreateTable t) s = Some s'"
  shows "apply_op (DropTable (tl_name t)) s' = Some s"
proof -
  have new: "tl_name t \<notin> set (map tl_name (sm_tables s))" and s': "s' = s\<lparr>sm_tables := sm_tables s @ [t]\<rparr>"
    using ap by (auto split: if_splits)
  have "\<not> refers_to (tl_name t) u" if "u \<in> set (sm_tables s)" for u
    using ok that new unfolding schema_ok_def refers_to_def list_all_iff list_ex_iff column_valid_def
    by fastforce
  then have "\<not> list_ex (refers_to (tl_name t)) (sm_tables s @ [t])"
    by (auto simp: list_ex_iff refers_to_def)
  moreover have "filter (\<lambda>u. tl_name u \<noteq> tl_name t) (sm_tables s) = sm_tables s"
    using new by (rule filter_fresh)
  moreover have "filter (\<lambda>i. ix_table i \<noteq> tl_name t) (sm_indexes s) = sm_indexes s"
    using ok new find_table_None [of s "tl_name t"] by (intro filter_True) (auto simp: schema_ok_def)
  ultimately show ?thesis by (simp add: s')
qed

lemma undo_create_index:
  assumes "apply_op (CreateIndex i) s = Some s'"
  shows "apply_op (DropIndex (ix_name i) (ix_table i)) s' = Some s"
proof -
  have new: "ix_name i \<notin> set (map ix_name (sm_indexes s))" and s': "s' = s\<lparr>sm_indexes := sm_indexes s @ [i]\<rparr>"
    using assms by (auto split: if_splits option.splits)
  have "filter (\<lambda>j. ix_name j \<noteq> ix_name i) (sm_indexes s) = sm_indexes s"
    using new by (rule filter_fresh)
  then show ?thesis by (simp add: s')
qed

lemma undo_create_enum:
  assumes ok: "schema_ok s" and ap: "apply_op (CreateEnum n vs) s = Some s'" and new: "n \<notin> set (map fst (sm_types s))"
  shows "apply_op (DropEnum n) s' = Some s"
proof -
  have s': "s' = s\<lparr>sm_types := sm_types s @ [(n, vs)]\<rparr>" using ap new by (auto split: if_splits)
  have "co_type c \<noteq> CEnum n" if "t \<in> set (sm_tables s)" "c \<in> set (tl_columns t)" for t c
    using ok that new unfolding schema_ok_def list_all_iff column_valid_def by fastforce
  then have "\<not> list_ex (\<lambda>t. list_ex (\<lambda>c. co_type c = CEnum n) (tl_columns t)) (sm_tables s)"
    by (auto simp: list_ex_iff)
  moreover have "filter (\<lambda>p. fst p \<noteq> n) (sm_types s) = sm_types s"
    using new by (rule filter_fresh)
  ultimately show ?thesis by (simp add: s')
qed

lemma update_table_same: "(\<And>t. tl_name (f t) = tl_name t) \<Longrightarrow> map tl_name (sm_tables (update_table n f s)) = map tl_name (sm_tables s)"
  by (simp add: update_table_def comp_def if_distrib cong: if_cong)

lemma find_update_table:
  "(\<And>t. tl_name (f t) = tl_name t) \<Longrightarrow>
   find_table (update_table n f s) m = (if m = n then map_option f (find_table s m) else find_table s m)"
  using row_at_row_update [of tl_name f m n "sm_tables s"]
  by (simp add: find_table_def update_table_def row_at_def row_update_def)

lemma undo_add_column:
  assumes ok: "schema_ok s" and ap: "apply_op (AddColumn n c) s = Some s'"
  shows "apply_op (DropColumn n (co_name c)) s' = Some s"
proof -
  obtain t where t: "find_table s n = Some t" "co_name c \<notin> set (col_names t)"
    and s': "s' = update_table n (\<lambda>t. t\<lparr>tl_columns := tl_columns t @ [c]\<rparr>) s"
    using ap by (auto split: option.splits if_splits)
  have f: "find_table s' n = Some (t\<lparr>tl_columns := tl_columns t @ [c]\<rparr>)"
    using t(1) by (simp add: s' find_update_table)
  let ?g = "\<lambda>t. t\<lparr>tl_columns := filter (\<lambda>d. co_name d \<noteq> co_name c) (tl_columns t),
      tl_rows := map (filter (\<lambda>v. fst v \<noteq> co_name c)) (tl_rows t)\<rparr>"
  have restored: "?g (t\<lparr>tl_columns := tl_columns t @ [c]\<rparr>) = t"
  proof -
    have "filter (\<lambda>d. co_name d \<noteq> co_name c) (tl_columns t) = tl_columns t"
      using t(2) unfolding col_names_def by (rule filter_fresh)
    moreover have "map (filter (\<lambda>v. fst v \<noteq> co_name c)) (tl_rows t) = tl_rows t"
    proof (intro map_idI filter_True ballI)
      fix r v assume r: "r \<in> set (tl_rows t)" and v: "v \<in> set r"
      have "fst ` set r \<subseteq> set (col_names t)"
        using ok r find_table_Some [OF t(1)] by (simp add: schema_ok_def)
      with v t(2) show "fst v \<noteq> co_name c" by force
    qed
    ultimately show ?thesis by simp
  qed
  have uniq: "u = t" if "u \<in> set (sm_tables s)" "tl_name u = n" for u
    using ok find_table_unique [of s u] that t(1) by (simp add: schema_ok_def)
  have tabs: "sm_tables (update_table n ?g s') = sm_tables s"
  proof -
    have "sm_tables (update_table n ?g s') =
        map (\<lambda>u. if tl_name u = n then ?g (u\<lparr>tl_columns := tl_columns u @ [c]\<rparr>) else u) (sm_tables s)"
      by (simp add: s' update_table_def)
    also have "\<dots> = sm_tables s"
      using uniq restored by (intro map_idI) auto
    finally show ?thesis .
  qed
  have "filter (\<lambda>i. \<not> (ix_table i = n \<and> co_name c \<in> set (ix_columns i))) (sm_indexes s) = sm_indexes s"
  proof (intro filter_True ballI)
    fix i assume "i \<in> set (sm_indexes s)"
    with ok obtain u where u: "find_table s (ix_table i) = Some u" "set (ix_columns i) \<subseteq> set (col_names u)"
      unfolding schema_ok_def by blast
    show "\<not> (ix_table i = n \<and> co_name c \<in> set (ix_columns i))" using u t by auto
  qed
  moreover have "sm_indexes s' = sm_indexes s" "sm_types s' = sm_types s" by (simp_all add: s' update_table_def)
  ultimately have "(update_table n ?g s')\<lparr>sm_indexes := filter (\<lambda>i. \<not> (ix_table i = n \<and> co_name c \<in> set (ix_columns i)))
      (sm_indexes s')\<rparr> = s"
    using tabs by (simp add: update_table_def)
  moreover have "co_name c \<in> set (col_names (t\<lparr>tl_columns := tl_columns t @ [c]\<rparr>))" by (simp add: col_names_def)
  ultimately show ?thesis using f by simp
qed


lemma undo_adds: "schema_ok s \<Longrightarrow> adds x s \<Longrightarrow> apply_op x s = Some s' \<Longrightarrow> apply_op (inverse_op x) s' = Some s"
proof (cases x)
  case (CreateTable t)
  then show "schema_ok s \<Longrightarrow> adds x s \<Longrightarrow> apply_op x s = Some s' \<Longrightarrow> ?thesis" using undo_create_table by simp
next
  case (CreateIndex i)
  then show "schema_ok s \<Longrightarrow> adds x s \<Longrightarrow> apply_op x s = Some s' \<Longrightarrow> ?thesis" using undo_create_index by simp
next
  case (AddColumn n c)
  then show "schema_ok s \<Longrightarrow> adds x s \<Longrightarrow> apply_op x s = Some s' \<Longrightarrow> ?thesis" using undo_add_column by simp
next
  case (CreateEnum n vs)
  then show "schema_ok s \<Longrightarrow> adds x s \<Longrightarrow> apply_op x s = Some s' \<Longrightarrow> ?thesis" using undo_create_enum by simp
qed simp_all

lemma schema_ok_create_table:
  assumes ok: "schema_ok s" and ap: "apply_op (CreateTable t) s = Some s'" and rows: "tl_rows t = []"
  shows "schema_ok s'"
proof -
  have new: "tl_name t \<notin> tl_name ` set (sm_tables s)" and cols: "list_all (column_valid s) (tl_columns t)"
    and s': "s' = s\<lparr>sm_tables := sm_tables s @ [t]\<rparr>"
    using ap by (auto split: if_splits)
  have mono: "column_valid s c \<Longrightarrow> column_valid s' c" for c
    by (erule column_valid_mono) (auto simp: s')
  have cv: "list_all (column_valid s') (tl_columns u)" if "u \<in> set (sm_tables s')" for u
    using that ok cols mono by (auto simp: s' schema_ok_def list_all_iff)
  have "\<exists>u. find_table s' (ix_table i) = Some u \<and> set (ix_columns i) \<subseteq> set (col_names u)"
    if "i \<in> set (sm_indexes s')" for i
    using that ok by (fastforce simp: s' schema_ok_def find_table_append)
  with cv show ?thesis using ok new rows by (auto simp: schema_ok_def s')
qed

lemma schema_ok_create_index:
  assumes "schema_ok s" and "apply_op (CreateIndex i) s = Some s'"
  shows "schema_ok s'"
proof -
  obtain t where t: "find_table s (ix_table i) = Some t" "list_all (\<lambda>c. c \<in> set (col_names t)) (ix_columns i)"
    and s': "s' = s\<lparr>sm_indexes := sm_indexes s @ [i]\<rparr>"
    using assms(2) by (auto split: option.splits if_splits)
  have "column_valid s' c = column_valid s c" for c
    by (rule iffI; erule column_valid_mono) (simp_all add: s')
  then have "column_valid s' = column_valid s" by (rule ext)
  moreover have "find_table s' = find_table s" by (auto simp: find_table_def s' fun_eq_iff)
  ultimately show ?thesis using assms(1) t by (auto simp: schema_ok_def s' list_all_iff)
qed

lemma schema_ok_create_enum:
  assumes "schema_ok s" and "apply_op (CreateEnum n vs) s = Some s'"
  shows "schema_ok s'"
proof -
  have s': "s' = s \<or> s' = s\<lparr>sm_types := sm_types s @ [(n, vs)]\<rparr>"
    using assms(2) by (auto split: if_splits)
  have "column_valid s c \<Longrightarrow> column_valid s' c" for c
    using s' by (elim column_valid_mono) auto
  moreover have "sm_tables s' = sm_tables s" "sm_indexes s' = sm_indexes s" "find_table s' = find_table s"
    using s' by (auto simp: find_table_def fun_eq_iff)
  ultimately show ?thesis using assms(1) by (auto simp: schema_ok_def list_all_iff)
qed

lemma schema_ok_add_column:
  assumes ok: "schema_ok s" and ap: "apply_op (AddColumn n c) s = Some s'"
  shows "schema_ok s'"
proof -
  let ?f = "\<lambda>t. t\<lparr>tl_columns := tl_columns t @ [c]\<rparr>"
  have s': "s' = update_table n ?f s" and cv: "column_valid s c"
    using ap by (auto split: option.splits if_splits)
  have names: "map tl_name (sm_tables s') = map tl_name (sm_tables s)"
    unfolding s' by (rule update_table_same) simp
  have same: "sm_types s' = sm_types s" "sm_indexes s' = sm_indexes s" by (simp_all add: s' update_table_def)
  have "set (map tl_name (sm_tables s')) = set (map tl_name (sm_tables s))" by (simp only: names)
  then have "column_valid s' c = column_valid s c" for c
    by (intro iffI; elim column_valid_mono) (simp_all only: same subset_refl)
  then have valid: "column_valid s' = column_valid s" by (rule ext)
  have tabs: "list_all (column_valid s') (tl_columns u) \<and> (\<forall>r \<in> set (tl_rows u). fst ` set r \<subseteq> set (col_names u))"
    if u: "u \<in> set (sm_tables s')" for u
  proof -
    obtain t where "t \<in> set (sm_tables s)" "u = (if tl_name t = n then ?f t else t)"
      using u unfolding s' update_table_def by (auto simp del: if_split)
    then have t: "t \<in> set (sm_tables s)" "u = t \<or> u = ?f t" by presburger+
    from ok t(1) have old: "list_all (column_valid s) (tl_columns t)" "\<forall>r \<in> set (tl_rows t). fst ` set r \<subseteq> set (col_names t)"
      unfolding schema_ok_def by blast+
    have "set (col_names t) \<subseteq> set (col_names u)" "list_all (column_valid s) (tl_columns u)" "tl_rows u = tl_rows t"
      using t(2) old(1) cv by (auto simp: col_names_def)
    then show ?thesis using old(2) valid by auto
  qed
  have "\<exists>u. find_table s' (ix_table i) = Some u \<and> set (ix_columns i) \<subseteq> set (col_names u)"
    if i: "i \<in> set (sm_indexes s')" for i
  proof -
    obtain t where "find_table s (ix_table i) = Some t" "set (ix_columns i) \<subseteq> set (col_names t)"
      using ok i unfolding schema_ok_def by (auto simp: s' update_table_def)
    then show ?thesis by (auto simp: s' find_update_table col_names_def)
  qed
  with tabs show ?thesis using ok names unfolding schema_ok_def by simp
qed

lemmas schema_ok_ops = schema_ok_create_table schema_ok_create_index schema_ok_create_enum schema_ok_add_column

lemma schema_ok_adds: "schema_ok s \<Longrightarrow> adds x s \<Longrightarrow> apply_op x s = Some s' \<Longrightarrow> schema_ok s'"
  by (cases x; simp only: adds.simps) (blast intro: schema_ok_ops)+

lemma run_ops_append:
  "run_ops (xs @ ys) s = (case run_ops xs s of None \<Rightarrow> None | Some s' \<Rightarrow> run_ops ys s')"
  by (induction xs arbitrary: s) (simp_all split: option.splits)

lemma undo_run:
  "schema_ok s \<Longrightarrow> adds_all xs s \<Longrightarrow> run_ops xs s = Some s' \<Longrightarrow>
   schema_ok s' \<and> run_ops (rev (map inverse_op xs)) s' = Some s"
proof (induction xs arbitrary: s)
  case Nil
  then show ?case by simp
next
  case (Cons x xs)
  then obtain t where t: "apply_op x s = Some t" "run_ops xs t = Some s'" by (auto split: option.splits)
  with Cons.prems have "schema_ok t" "adds_all xs t" using schema_ok_adds by auto
  from Cons.IH [OF this t(2)] have "schema_ok s'" "run_ops (rev (map inverse_op xs)) s' = Some t" by auto
  moreover have "apply_op (inverse_op x) t = Some s" using undo_adds Cons.prems t(1) by simp
  ultimately show ?case by (simp add: run_ops_append)
qed

section \<open>Every revision is undone by its downgrade\<close>

fun additive :: "op \<Rightarrow> bool" where
  "additive (CreateTable t) = (tl_rows t = [])"
| "additive (CreateIndex i) = True"
| "additive (AddColumn n c) = True"
| "additive (CreateEnum n vs) = True"
| "additive x = False"

fun enums_of :: "op list \<Rightarrow> string list" where
  "enums_of [] = []"
| "enums_of (CreateEnum n vs # xs) = n # enums_of xs"
| "enums_of (x # xs) = enums_of xs"

definition types_fresh :: "op list \<Rightarrow> schema \<Rightarrow> bool" where
  "types_fresh xs s \<longleftrightarrow> list_all (\<lambda>n. n \<notin> set (map fst (sm_types s))) (enums_of xs)"

lemma additive_types:
  "additive x \<Longrightarrow> apply_op x s = Some s' \<Longrightarrow>
   set (map fst (sm_types s')) = set (enums_of [x]) \<union> set (map fst (sm_types s))"
  by (cases x) (auto simp: update_table_def split: if_splits option.splits)

lemma enums_of_Cons: "enums_of (x # xs) = enums_of [x] @ enums_of xs"
  by (cases x) simp_all

lemma additive_adds:
  "list_all additive xs \<Longrightarrow> distinct (enums_of xs) \<Longrightarrow> types_fresh xs s \<Longrightarrow> adds_all xs s"
proof (induction xs arbitrary: s)
  case Nil
  then show ?case by simp
next
  case (Cons x xs)
  have x: "adds x s" using Cons.prems by (cases x) (simp_all add: types_fresh_def)
  have "adds_all xs s'" if s': "apply_op x s = Some s'" for s'
  proof (rule Cons.IH)
    show "list_all additive xs" "distinct (enums_of xs)"
      using Cons.prems(1,2) enums_of_Cons [of x xs] by simp_all
    have "set (map fst (sm_types s')) = set (enums_of [x]) \<union> set (map fst (sm_types s))"
      using additive_types Cons.prems(1) s' by simp
    then show "types_fresh xs s'"
      using Cons.prems(2,3) enums_of_Cons [of x xs] unfolding types_fresh_def by (auto simp: list_all_iff)
  qed
  with x show ?case by (simp split: option.splits)
qed

lemma undo_additive:
  assumes "list_all additive xs" "distinct (enums_of xs)" "ys = rev (map inverse_op xs)"
    and "schema_ok s" "types_fresh xs s" "run_ops xs s = Some s'"
  shows "run_ops ys s' = Some s"
  using undo_run [OF assms(4) additive_adds [OF assms(1,2,5)] assms(6)] assms(3) by simp

lemmas revisions = upgrade_0001_def downgrade_0001_def upgrade_0002_def downgrade_0002_def upgrade_0003_def
  downgrade_0003_def upgrade_0004_def downgrade_0004_def upgrade_0005_def downgrade_0005_def

lemmas declared = tab_def idx_def col_def fk_col_def id_col_def stamp_cols_def

lemma additive_revisions:
  "list_all additive upgrade_0001" "list_all additive upgrade_0002" "list_all additive upgrade_0003"
  "list_all additive upgrade_0004" "list_all additive upgrade_0005"
  "distinct (enums_of upgrade_0001)" "distinct (enums_of upgrade_0002)" "distinct (enums_of upgrade_0003)"
  "distinct (enums_of upgrade_0004)" "distinct (enums_of upgrade_0005)"
  by (simp_all add: revisions tab_def)

lemma downgrades_invert:
  "downgrade_0001 = rev (map inverse_op upgrade_0001)" "downgrade_0002 = rev (map inverse_op upgrade_0002)"
  "downgrade_0003 = rev (map inverse_op upgrade_0003)" "downgrade_0004 = rev (map inverse_op upgrade_0004)"
  "downgrade_0005 = rev (map inverse_op upgrade_0005)"
  by (simp_all add: revisions tab_def idx_def col_def)

text \<open>Rows do not matter to dropping their table.\<close>

lemma drop_index_update:
  "apply_op (DropIndex i m) (update_table n f s) = map_option (update_table n f) (apply_op (DropIndex i m) s)"
  by (simp add: update_table_def)

lemma drop_table_update:
  assumes "\<And>t. tl_name (f t) = tl_name t"
  shows "apply_op (DropTable n) (update_table n f s) = apply_op (DropTable n) s"
proof -
  let ?ts = "sm_tables (update_table n f s)"
  have fresh: "filter (\<lambda>t. tl_name t \<noteq> n) (map (\<lambda>t. if tl_name t = n then f t else t) ts) =
      filter (\<lambda>t. tl_name t \<noteq> n) ts" for ts
    by (induct ts) (simp_all add: assms)
  have keep: "filter (\<lambda>t. tl_name t \<noteq> n) ?ts = filter (\<lambda>t. tl_name t \<noteq> n) (sm_tables s)"
    by (simp add: update_table_def fresh)
  have refs: "list_ex (refers_to n) ts = list_ex (refers_to n) (filter (\<lambda>t. tl_name t \<noteq> n) ts)" for ts
    by (induct ts) (simp_all add: refers_to_def)
  have "list_ex (refers_to n) ?ts = list_ex (refers_to n) (sm_tables s)"
    using refs [of ?ts] refs [of "sm_tables s"] keep by simp
  moreover have "map tl_name ?ts = map tl_name (sm_tables s)"
    using assms by (rule update_table_same)
  moreover have "sm_indexes (update_table n f s) = sm_indexes s" "sm_types (update_table n f s) = sm_types s"
    by (simp_all add: update_table_def)
  ultimately show ?thesis using keep unfolding apply_op.simps by (simp only:) (simp add: update_table_def)
qed

lemma drop_after_insert:
  assumes "\<And>t. tl_name (f t) = tl_name t"
  shows "run_ops [DropIndex i n, DropTable n] (update_table n f s) = run_ops [DropIndex i n, DropTable n] s"
  unfolding run_ops.simps drop_index_update using drop_table_update [of f n, OF assms]
  by (simp del: apply_op.simps split: option.splits)

lemma undo_0006:
  assumes "schema_ok s" "run_ops (upgrade_0006 fresh) s = Some s'"
  shows "run_ops downgrade_0006 s' = Some s"
proof -
  let ?rows = "map (\<lambda>(u, r). (''id'', uuid_str u) # r) (zip fresh seed_pricing)"
  let ?xs = "take 2 (upgrade_0006 fresh)"
  have split: "upgrade_0006 fresh = ?xs @ [BulkInsert ''job_pricing'' ?rows]"
    and inv: "downgrade_0006 = rev (map inverse_op ?xs)"
    and add: "list_all additive ?xs" "enums_of ?xs = []"
    by (simp_all add: upgrade_0006_def downgrade_0006_def tab_def idx_def)
  have "run_ops (?xs @ [BulkInsert ''job_pricing'' ?rows]) s = Some s'" using assms(2) split by simp
  then obtain t where t: "run_ops ?xs s = Some t" "apply_op (BulkInsert ''job_pricing'' ?rows) t = Some s'"
    unfolding run_ops_append run_ops.simps by (auto simp del: apply_op.simps split: option.splits)
  then have "s' = update_table ''job_pricing'' (\<lambda>u. u\<lparr>tl_rows := tl_rows u @ ?rows\<rparr>) t"
    by (auto split: option.splits if_splits)
  moreover have "run_ops downgrade_0006 t = Some s"
    by (rule undo_additive [OF add(1) _ inv assms(1) _ t(1)]) (simp_all add: add(2) types_fresh_def)
  ultimately show ?thesis
    using drop_after_insert [of "\<lambda>u. u\<lparr>tl_rows := tl_rows u @ ?rows\<rparr>" _ "''job_pricing''" t]
    by (simp add: downgrade_0006_def)
qed



section \<open>The migrated schema is the declared one\<close>

definition column_shape :: "column \<Rightarrow> string \<times> col_type \<times> bool \<times> (string \<times> string \<times> string option) option" where
  "column_shape c = (co_name c, co_type c, co_nullable c, co_fk c)"

text \<open>Columns in any order; names, types, nullability, references, the primary key and the checks agree.\<close>

definition same_table :: "table \<Rightarrow> table \<Rightarrow> bool" where
  "same_table t u \<longleftrightarrow> tl_name t = tl_name u \<and> tl_key t = tl_key u \<and> tl_checks t = tl_checks u \<and>
     list_all (\<lambda>c. c \<in> set (map column_shape (tl_columns u))) (map column_shape (tl_columns t)) \<and>
     list_all (\<lambda>c. c \<in> set (map column_shape (tl_columns t))) (map column_shape (tl_columns u))"

definition same_schema :: "schema \<Rightarrow> bool" where
  "same_schema s \<longleftrightarrow> list_all2 same_table (sm_tables s) model_tables \<and> sm_indexes s = model_indexes \<and> sm_types s = model_types"

lemma same_schema_rows:
  "same_schema (update_table n (\<lambda>t. t\<lparr>tl_rows := f t\<rparr>) s) = same_schema s"
proof -
  have "same_table (if tl_name t = n then t\<lparr>tl_rows := f t\<rparr> else t) u = same_table t u" for t u
    by (simp add: same_table_def)
  then show ?thesis by (simp add: same_schema_def update_table_def list_all2_map1)
qed

lemma shapes:
  "tl_name (tab n cs) = n" "col_names (tab n cs) = map co_name cs" "col_names (t\<lparr>tl_uniques := us\<rparr>) = col_names t"
  "col_names (t\<lparr>tl_checks := ks\<rparr>) = col_names t" "col_names (t\<lparr>tl_columns := cs\<rparr>) = map co_name cs" "tl_columns (tab n cs) = cs"
  "tl_rows (tab n cs) = []" "tl_key (tab n cs) = [''id'']" "tl_checks (tab n cs) = []"
  "co_name (col n ty b d) = n" "co_type (col n ty b d) = ty" "co_nullable (col n ty b d) = b" "co_fk (col n ty b d) = None"
  "co_name (fk_col n g d) = n" "co_type (fk_col n g d) = CUuid" "co_nullable (fk_col n g d) = False"
  "co_fk (fk_col n g d) = Some (g, ''id'', d)"
  "ix_name (idx n g c u) = n" "ix_table (idx n g c u) = g" "ix_columns (idx n g c u) = [c]"
  by (simp_all add: col_names_def declared)

lemmas applied = shapes find_table_def column_valid_def fk_target_def id_col_def stamp_cols_def update_table_def


lemmas shaped = same_table_def column_shape_def base_model_def user_table_def project_table_def credit_ledger_table_def
  edge_node_table_def job_dispatch_table_def dead_letter_table_def job_pricing_table_def

lemma migrate_0001:
  "\<exists>t1 t2. run_ops upgrade_0001 empty_schema = Some \<lparr>sm_tables = [t1, t2], sm_indexes = take 2 model_indexes, sm_types = []\<rparr> \<and>
     same_table t1 user_table \<and> same_table t2 project_table"
  by (simp add: upgrade_0001_def empty_schema_def model_indexes_def applied) (simp add: shaped applied)

lemma migrate_0002:
  assumes "tl_name t1 = ''users''" "tl_name t2 = ''projects''"
  shows "\<exists>t3. run_ops upgrade_0002 \<lparr>sm_tables = [t1, t2], sm_indexes = take 2 model_indexes, sm_types = []\<rparr> =
      Some \<lparr>sm_tables = [t1, t2, t3], sm_indexes = take 4 model_indexes, sm_types = model_types\<rparr> \<and>
     same_table t3 credit_ledger_table"
  by (simp add: assms upgrade_0002_def model_indexes_def model_types_def applied) (simp add: shaped applied)

lemma migrate_0003_0004:
  assumes "tl_name t1 = ''users''" "tl_name t2 = ''projects''" "tl_name t3 = ''credit_ledger_entries''"
  shows "\<exists>t4 t5. run_ops (upgrade_0003 @ upgrade_0004)
      \<lparr>sm_tables = [t1, t2, t3], sm_indexes = take 4 model_indexes, sm_types = model_types\<rparr> =
      Some \<lparr>sm_tables = [t1, t2, t3, t4, t5], sm_indexes = take 8 model_indexes, sm_types = model_types\<rparr> \<and>
     same_table t4 edge_node_table \<and> same_table t5 job_dispatch_table"
  by (simp add: assms upgrade_0003_def upgrade_0004_def model_indexes_def applied) (simp add: shaped applied)

lemma migrate_0005:
  assumes "tl_name t1 = ''users''" "tl_name t2 = ''projects''" "tl_name t3 = ''credit_ledger_entries''"
    "tl_name t4 = ''edge_nodes''" "tl_name t5 = ''job_dispatches''"
  shows "\<exists>t6. run_ops upgrade_0005
      \<lparr>sm_tables = [t1, t2, t3, t4, t5], sm_indexes = take 8 model_indexes, sm_types = model_types\<rparr> =
      Some \<lparr>sm_tables = [t1, t2, t3, t4, t5, t6], sm_indexes = take 9 model_indexes, sm_types = model_types\<rparr> \<and>
     same_table t6 dead_letter_table"
  by (simp add: assms upgrade_0005_def model_indexes_def applied) (simp add: shaped applied)

lemma migrate_0006:
  assumes "tl_name t1 = ''users''" "tl_name t2 = ''projects''" "tl_name t3 = ''credit_ledger_entries''"
    "tl_name t4 = ''edge_nodes''" "tl_name t5 = ''job_dispatches''" "tl_name t6 = ''dead_letter_queue''"
  shows "\<exists>t7. run_ops (take 2 (upgrade_0006 fresh))
      \<lparr>sm_tables = [t1, t2, t3, t4, t5, t6], sm_indexes = take 9 model_indexes, sm_types = model_types\<rparr> =
      Some \<lparr>sm_tables = [t1, t2, t3, t4, t5, t6, t7], sm_indexes = model_indexes, sm_types = model_types\<rparr> \<and>
     same_table t7 job_pricing_table \<and>
     col_names t7 = [''id'', ''job_type'', ''credits_per_unit'', ''unit_type'', ''is_active'', ''created_at'', ''updated_at'']"
  by (simp add: assms upgrade_0006_def model_indexes_def applied) (simp add: shaped applied)
lemma same_table_name: "same_table t u \<Longrightarrow> tl_name t = tl_name u"
  by (simp add: same_table_def)

lemma model_names:
  "tl_name user_table = ''users''" "tl_name project_table = ''projects''"
  "tl_name credit_ledger_table = ''credit_ledger_entries''" "tl_name edge_node_table = ''edge_nodes''"
  "tl_name job_dispatch_table = ''job_dispatches''" "tl_name dead_letter_table = ''dead_letter_queue''"
  "tl_name job_pricing_table = ''job_pricing''"
  by (simp_all add: shaped shapes)

lemma bare_upgrade:
  "\<exists>s t. run_ops (upgrade_0001 @ upgrade_0002 @ (upgrade_0003 @ upgrade_0004) @ upgrade_0005 @ take 2 (upgrade_0006 fresh))
       empty_schema = Some s \<and> same_schema s \<and> find_table s ''job_pricing'' = Some t \<and>
     col_names t = [''id'', ''job_type'', ''credits_per_unit'', ''unit_type'', ''is_active'', ''created_at'', ''updated_at'']"
proof -
  obtain t1 t2 where 1: "run_ops upgrade_0001 empty_schema = Some \<lparr>sm_tables = [t1, t2], sm_indexes = take 2 model_indexes, sm_types = []\<rparr>"
    and s1: "same_table t1 user_table" "same_table t2 project_table" using migrate_0001 by blast
  have n1: "tl_name t1 = ''users''" "tl_name t2 = ''projects''" using s1 by (simp_all add: same_table_name model_names)
  obtain t3 where 2: "run_ops upgrade_0002 \<lparr>sm_tables = [t1, t2], sm_indexes = take 2 model_indexes, sm_types = []\<rparr> =
      Some \<lparr>sm_tables = [t1, t2, t3], sm_indexes = take 4 model_indexes, sm_types = model_types\<rparr>"
    and s2: "same_table t3 credit_ledger_table" using migrate_0002 [OF n1] by blast
  have n2: "tl_name t3 = ''credit_ledger_entries''" using s2 by (simp add: same_table_name model_names)
  obtain t4 t5 where 3: "run_ops (upgrade_0003 @ upgrade_0004)
      \<lparr>sm_tables = [t1, t2, t3], sm_indexes = take 4 model_indexes, sm_types = model_types\<rparr> =
      Some \<lparr>sm_tables = [t1, t2, t3, t4, t5], sm_indexes = take 8 model_indexes, sm_types = model_types\<rparr>"
    and s3: "same_table t4 edge_node_table" "same_table t5 job_dispatch_table"
    using migrate_0003_0004 [OF n1 n2] by blast
  have n3: "tl_name t4 = ''edge_nodes''" "tl_name t5 = ''job_dispatches''"
    using s3 by (simp_all add: same_table_name model_names)
  obtain t6 where 4: "run_ops upgrade_0005
      \<lparr>sm_tables = [t1, t2, t3, t4, t5], sm_indexes = take 8 model_indexes, sm_types = model_types\<rparr> =
      Some \<lparr>sm_tables = [t1, t2, t3, t4, t5, t6], sm_indexes = take 9 model_indexes, sm_types = model_types\<rparr>"
    and s4: "same_table t6 dead_letter_table" using migrate_0005 [OF n1 n2 n3] by blast
  have n4: "tl_name t6 = ''dead_letter_queue''" using s4 by (simp add: same_table_name model_names)
  obtain t7 where 5: "run_ops (take 2 (upgrade_0006 fresh))
      \<lparr>sm_tables = [t1, t2, t3, t4, t5, t6], sm_indexes = take 9 model_indexes, sm_types = model_types\<rparr> =
      Some \<lparr>sm_tables = [t1, t2, t3, t4, t5, t6, t7], sm_indexes = model_indexes, sm_types = model_types\<rparr>"
    and s5: "same_table t7 job_pricing_table"
      "col_names t7 = [''id'', ''job_type'', ''credits_per_unit'', ''unit_type'', ''is_active'', ''created_at'', ''updated_at'']"
    using migrate_0006 [OF n1 n2 n3 n4] by blast
  have n5: "tl_name t7 = ''job_pricing''" using s5(1) by (simp add: same_table_name model_names)
  let ?s = "\<lparr>sm_tables = [t1, t2, t3, t4, t5, t6, t7], sm_indexes = model_indexes, sm_types = model_types\<rparr>"
  have "run_ops (upgrade_0001 @ upgrade_0002 @ (upgrade_0003 @ upgrade_0004) @ upgrade_0005 @ take 2 (upgrade_0006 fresh))
      empty_schema = Some ?s"
    by (simp only: run_ops_append [of upgrade_0001] run_ops_append [of upgrade_0002] run_ops_append [of "upgrade_0003 @ upgrade_0004"]
        run_ops_append [of upgrade_0005] 1 2 3 4 5 option.case)
  moreover have "same_schema ?s" using s1 s2 s3 s4 s5(1) by (simp add: same_schema_def model_tables_def)
  moreover have "find_table ?s ''job_pricing'' = Some t7" using n1 n2 n3 n4 n5 by (simp add: find_table_def)
  ultimately show ?thesis using s5(2) by blast
qed

lemma same_schema_anchors:
  assumes "same_schema s"
  shows "list_all (\<lambda>n. find_table s n = None) anchor_tables"
proof -
  have "map tl_name (sm_tables s) = map tl_name model_tables"
    using assms by (auto simp: same_schema_def same_table_def list_all2_conv_all_nth intro: nth_equalityI)
  then have "set (map tl_name (sm_tables s)) = set (map tl_name model_tables)" by (rule arg_cong)
  then have "tl_name ` set (sm_tables s) = {''users'', ''projects'', ''credit_ledger_entries'', ''edge_nodes'',
      ''job_dispatches'', ''dead_letter_queue'', ''job_pricing''}"
    by (simp add: model_tables_def model_names)
  then show ?thesis by (simp add: find_table_None anchor_tables_def)
qed

text \<open>Upgrading an empty database runs every migration to the end, and the schema it leaves is the
  one the models declare: the same seven tables with the same columns (names, types, nullability and
  references), keys and checks, the same indexes and the same enumerations, whatever identifiers the
  pricing seed draws. The tables of the anchoring service are not among them.\<close>

theorem migrated_schema_matches_models:
  "\<exists>s. upgrade_all fresh empty_schema = Some s \<and> same_schema s \<and>
     list_all (\<lambda>n. find_table s n = None) anchor_tables"
proof -
  let ?ops = "upgrade_0001 @ upgrade_0002 @ (upgrade_0003 @ upgrade_0004) @ upgrade_0005 @ take 2 (upgrade_0006 fresh)"
  let ?rows = "map (\<lambda>(u, r). (''id'', uuid_str u) # r) (zip fresh seed_pricing)"
  obtain s t where s: "run_ops ?ops empty_schema = Some s" "same_schema s" "find_table s ''job_pricing'' = Some t"
    and t: "col_names t = [''id'', ''job_type'', ''credits_per_unit'', ''unit_type'', ''is_active'', ''created_at'', ''updated_at'']"
    using bare_upgrade by blast
  have "list_all (\<lambda>v. fst v \<in> set (col_names t)) r" if "r \<in> set seed_pricing" for r
    using that t by (auto simp: seed_pricing_def)
  moreover have "''id'' \<in> set (col_names t)" by (simp add: t)
  ultimately have "list_all (\<lambda>r. list_all (\<lambda>v. fst v \<in> set (col_names t)) r) ?rows"
    unfolding list_all_iff by (fastforce dest: set_zip_rightD)
  then have ins: "apply_op (BulkInsert ''job_pricing'' ?rows) s = Some (update_table ''job_pricing'' (\<lambda>u. u\<lparr>tl_rows := tl_rows u @ ?rows\<rparr>) s)"
    using s(3) by simp
  let ?s = "update_table ''job_pricing'' (\<lambda>u. u\<lparr>tl_rows := tl_rows u @ ?rows\<rparr>) s"
  have "concat (map (\<lambda>m. fst (snd m)) (migrations fresh)) = ?ops @ [BulkInsert ''job_pricing'' ?rows]"
    by (simp add: migrations_def upgrade_0006_def)
  then have run: "upgrade_all fresh empty_schema = Some ?s"
    unfolding upgrade_all_def by (simp only: run_ops_append [of ?ops] s(1) ins option.case run_ops.simps)
  have same: "same_schema ?s" using s(2) by (simp only: same_schema_rows)
  with run show ?thesis using same_schema_anchors by blast
qed

end
