(* ===== verification/App.thy ===== *)
theory App
  imports Metrics Anchoring
begin

text \<open>
  The application around the endpoints: the settings (\<^verbatim>\<open>core/config.py\<close>), the database engine and
  session (\<^verbatim>\<open>core/database.py\<close>), the configurations of storage and anchoring, the health endpoints
  (\<^verbatim>\<open>core/api/v1/health.py\<close>), the middlewares and their order (\<^verbatim>\<open>core/main.py\<close>,
  \<^verbatim>\<open>core/middleware/request_id.py\<close>), and the payment wall (\<^verbatim>\<open>core/gateway/x402\<close>).

  An application is a function from a request and a state to a response, or an exception. \<open>cors\<close> and
  \<open>wall\<close> stand for the library's CORS and payment middlewares. \<open>env\<close> looks a variable up in the
  environment, then in the \<^verbatim>\<open>.env\<close> file; its names are in capitals, as the look-up ignores case.
\<close>

section \<open>Settings\<close>

record app_settings =
  st_app_name :: string
  st_app_env :: string
  st_app_debug :: bool
  st_app_host :: string
  st_app_port :: int
  st_secret_key :: string
  st_database_url :: string
  st_db_pool_size :: int
  st_db_max_overflow :: int
  st_redis_url :: string
  st_jwt_secret_key :: string
  st_jwt_algorithm :: string
  st_jwt_access_minutes :: int
  st_jwt_refresh_days :: int
  st_stripe_secret_key :: string
  st_stripe_webhook_secret :: string
  st_stripe_publishable_key :: string
  st_sentry_dsn :: string
  st_posthog_api_key :: string
  st_x402_enabled :: bool
  st_x402_pay_to :: string
  st_x402_facilitator_url :: string
  st_x402_network :: string
  st_x402_compute_price :: string
  st_encryption_master_key :: string
  st_cors_origins :: "string list"
  st_cors_allow_methods :: "string list"
  st_cors_allow_headers :: "string list"

definition default_secret :: string where
  "default_secret = ''change-me-in-production''"

definition default_encryption_key :: string where
  "default_encryption_key = replicate 64 CHR ''0''"

definition default_settings :: app_settings where
  "default_settings =
     \<lparr>st_app_name = ''rendertrust'', st_app_env = ''development'', st_app_debug = False, st_app_host = ''0.0.0.0'',
      st_app_port = 8000, st_secret_key = default_secret,
      st_database_url = ''postgresql+asyncpg://rendertrust:rendertrust_dev@db:5432/rendertrust'',
      st_db_pool_size = 10, st_db_max_overflow = 20, st_redis_url = ''redis://redis:6379/0'',
      st_jwt_secret_key = default_secret, st_jwt_algorithm = ''HS256'', st_jwt_access_minutes = 30,
      st_jwt_refresh_days = 7, st_stripe_secret_key = '''', st_stripe_webhook_secret = '''',
      st_stripe_publishable_key = '''', st_sentry_dsn = '''', st_posthog_api_key = '''', st_x402_enabled = False,
      st_x402_pay_to = '''', st_x402_facilitator_url = ''https://x402.org/facilitator'',
      st_x402_network = ''eip155:84532'', st_x402_compute_price = ''$0.01'',
      st_encryption_master_key = default_encryption_key,
      st_cors_origins = [''http://localhost:3000'', ''http://localhost:8000''],
      st_cors_allow_methods = [''GET'', ''POST'', ''PUT'', ''DELETE'', ''OPTIONS''],
      st_cors_allow_headers = [''Authorization'', ''Content-Type'', ''X-Request-ID'']\<rparr>"

text \<open>How the settings library reads a boolean, an integer and a list (JSON) from a variable.\<close>

type_synonym environ = "string \<Rightarrow> string option"

definition env_bool :: "string \<Rightarrow> bool option" where
  "env_bool s =
     (let t = py_lower s
      in if t \<in> set [''true'', ''1'', ''yes'', ''on'', ''t'', ''y''] then Some True
         else if t \<in> set [''false'', ''0'', ''no'', ''off'', ''f'', ''n''] then Some False else None)"

definition setting :: "(string \<Rightarrow> 'a option) \<Rightarrow> environ \<Rightarrow> string \<Rightarrow> 'a \<Rightarrow> py_exc + 'a" where
  "setting parse env name dflt =
     (case env name of
        None \<Rightarrow> Inr dflt
      | Some s \<Rightarrow> (case parse s of None \<Rightarrow> Inl (ValueError name) | Some v \<Rightarrow> Inr v))"

definition text_setting :: "environ \<Rightarrow> string \<Rightarrow> string \<Rightarrow> string" where
  "text_setting env name dflt = (case env name of None \<Rightarrow> dflt | Some s \<Rightarrow> s)"

definition is_production :: "app_settings \<Rightarrow> bool" where
  "is_production s \<longleftrightarrow> st_app_env s = ''production''"

definition validate_production_secrets :: "app_settings \<Rightarrow> py_exc + app_settings" where
  "validate_production_secrets s =
     (if is_production s
      then if st_secret_key s = default_secret then Inl (ValueError ''SECRET_KEY must be changed in production'')
           else if st_jwt_secret_key s = default_secret then Inl (ValueError ''JWT_SECRET_KEY must be changed in production'')
           else if st_encryption_master_key s = default_encryption_key
           then Inl (ValueError ''ENCRYPTION_MASTER_KEY must be changed in production'')
           else Inr s
      else Inr s)"

definition load_texts :: "environ \<Rightarrow> app_settings \<Rightarrow> app_settings" where
  "load_texts env d =
     d\<lparr>st_app_name := text_setting env ''APP_NAME'' (st_app_name d),
       st_app_env := text_setting env ''APP_ENV'' (st_app_env d),
       st_app_host := text_setting env ''APP_HOST'' (st_app_host d),
       st_secret_key := text_setting env ''SECRET_KEY'' (st_secret_key d),
       st_database_url := text_setting env ''DATABASE_URL'' (st_database_url d),
       st_redis_url := text_setting env ''REDIS_URL'' (st_redis_url d),
       st_jwt_secret_key := text_setting env ''JWT_SECRET_KEY'' (st_jwt_secret_key d),
       st_jwt_algorithm := text_setting env ''JWT_ALGORITHM'' (st_jwt_algorithm d),
       st_stripe_secret_key := text_setting env ''STRIPE_SECRET_KEY'' (st_stripe_secret_key d),
       st_stripe_webhook_secret := text_setting env ''STRIPE_WEBHOOK_SECRET'' (st_stripe_webhook_secret d),
       st_stripe_publishable_key := text_setting env ''STRIPE_PUBLISHABLE_KEY'' (st_stripe_publishable_key d),
       st_sentry_dsn := text_setting env ''SENTRY_DSN'' (st_sentry_dsn d),
       st_posthog_api_key := text_setting env ''POSTHOG_API_KEY'' (st_posthog_api_key d),
       st_x402_pay_to := text_setting env ''X402_PAY_TO'' (st_x402_pay_to d),
       st_x402_facilitator_url := text_setting env ''X402_FACILITATOR_URL'' (st_x402_facilitator_url d),
       st_x402_network := text_setting env ''X402_NETWORK'' (st_x402_network d),
       st_x402_compute_price := text_setting env ''X402_COMPUTE_PRICE'' (st_x402_compute_price d),
       st_encryption_master_key := text_setting env ''ENCRYPTION_MASTER_KEY'' (st_encryption_master_key d)\<rparr>"

definition load_app_settings :: "(string \<Rightarrow> string list option) \<Rightarrow> environ \<Rightarrow> py_exc + app_settings" where
  "load_app_settings json_list env =
     (let d = default_settings
      in err_bind (setting env_bool env ''APP_DEBUG'' (st_app_debug d)) (\<lambda>debug.
         err_bind (setting py_int_str env ''APP_PORT'' (st_app_port d)) (\<lambda>port.
         err_bind (setting py_int_str env ''DB_POOL_SIZE'' (st_db_pool_size d)) (\<lambda>pool.
         err_bind (setting py_int_str env ''DB_MAX_OVERFLOW'' (st_db_max_overflow d)) (\<lambda>overflow.
         err_bind (setting py_int_str env ''JWT_ACCESS_TOKEN_EXPIRE_MINUTES'' (st_jwt_access_minutes d)) (\<lambda>minutes.
         err_bind (setting py_int_str env ''JWT_REFRESH_TOKEN_EXPIRE_DAYS'' (st_jwt_refresh_days d)) (\<lambda>days.
         err_bind (setting env_bool env ''X402_ENABLED'' (st_x402_enabled d)) (\<lambda>x402.
         err_bind (setting json_list env ''CORS_ORIGINS'' (st_cors_origins d)) (\<lambda>origins.
         err_bind (setting json_list env ''CORS_ALLOW_METHODS'' (st_cors_allow_methods d)) (\<lambda>verbs.
         err_bind (setting json_list env ''CORS_ALLOW_HEADERS'' (st_cors_allow_headers d)) (\<lambda>headers.
           validate_production_secrets
             ((load_texts env d)
                \<lparr>st_app_debug := debug, st_app_port := port, st_db_pool_size := pool, st_db_max_overflow := overflow,
                 st_jwt_access_minutes := minutes, st_jwt_refresh_days := days, st_x402_enabled := x402,
                 st_cors_origins := origins, st_cors_allow_methods := verbs, st_cors_allow_headers := headers\<rparr>))))))))))))"

text \<open>The cached singleton: a value is kept, an exception is not.\<close>

definition get_settings :: "(py_exc + 'a) \<Rightarrow> 'a option \<Rightarrow> (py_exc + 'a) \<times> 'a option" where
  "get_settings load cache =
     (case cache of
        Some s \<Rightarrow> (Inr s, cache)
      | None \<Rightarrow> (case load of Inl x \<Rightarrow> (Inl x, None) | Inr s \<Rightarrow> (Inr s, Some s)))"

section \<open>Storage and anchoring settings\<close>

record storage_settings =
  ss_endpoint_url :: string
  ss_bucket_name :: string
  ss_access_key :: string
  ss_secret_key :: string
  ss_region :: string
  ss_use_ssl :: bool

definition load_storage_settings :: "environ \<Rightarrow> py_exc + storage_settings" where
  "load_storage_settings env =
     err_bind (setting env_bool env ''STORAGE_USE_SSL'' True) (\<lambda>ssl.
       Inr \<lparr>ss_endpoint_url = text_setting env ''STORAGE_ENDPOINT_URL'' ''http://localhost:9000'',
            ss_bucket_name = text_setting env ''STORAGE_BUCKET_NAME'' ''rendertrust-dev'',
            ss_access_key = text_setting env ''STORAGE_ACCESS_KEY'' ''minioadmin'',
            ss_secret_key = text_setting env ''STORAGE_SECRET_KEY'' ''minioadmin'',
            ss_region = text_setting env ''STORAGE_REGION'' ''us-east-1'', ss_use_ssl = ssl\<rparr>)"

record anchor_config =
  ac_enabled :: bool
  ac_rpc_url :: string
  ac_contract_address :: string
  ac_private_key :: string
  ac_batch_size :: int
  ac_interval_seconds :: int

definition anchor_config_from_env :: "environ \<Rightarrow> py_exc + anchor_config" where
  "anchor_config_from_env env =
     (let enabled_raw = py_lower (text_setting env ''ANCHOR_ENABLED'' ''false'')
      in err_bind (setting py_int_str env ''ANCHOR_BATCH_SIZE'' 100) (\<lambda>size.
         err_bind (setting py_int_str env ''ANCHOR_INTERVAL_SECONDS'' 300) (\<lambda>interval.
           Inr \<lparr>ac_enabled = (enabled_raw \<in> set [''true'', ''1'', ''yes'']),
                ac_rpc_url = text_setting env ''ANCHOR_RPC_URL'' '''',
                ac_contract_address = text_setting env ''ANCHOR_CONTRACT_ADDRESS'' '''',
                ac_private_key = text_setting env ''ANCHOR_PRIVATE_KEY'' '''',
                ac_batch_size = size, ac_interval_seconds = interval\<rparr>)))"

section \<open>Engine and session\<close>

record engine_options =
  eo_url :: string
  eo_echo :: bool
  eo_pool_size :: "int option"
  eo_max_overflow :: "int option"

definition create_engine :: "app_settings \<Rightarrow> engine_options" where
  "create_engine s =
     (let pooled = \<not> starts_with ''sqlite'' (st_database_url s)
      in \<lparr>eo_url = st_database_url s, eo_echo = st_app_debug s,
          eo_pool_size = (if pooled then Some (st_db_pool_size s) else None),
          eo_max_overflow = (if pooled then Some (st_db_max_overflow s) else None)\<rparr>)"

text \<open>The dependency \<open>get_db_session\<close> around a handler: the session is closed when the request is
  over, and what the handler has not committed is gone.\<close>

definition get_db_session :: "('d session \<Rightarrow> 'r \<times> 'd session) \<Rightarrow> 'd \<Rightarrow> 'r \<times> 'd" where
  "get_db_session handler db = (case handler (open_session db) of (r, s) \<Rightarrow> (r, committed s))"

section \<open>Health\<close>

definition health_probe :: "app_settings \<Rightarrow> json" where
  "health_probe s =
     JObj [(''status'', JStr ''healthy''), (''version'', JStr ''0.1.0''), (''environment'', JStr (st_app_env s))]"

definition readiness_check :: "bool \<Rightarrow> bool \<Rightarrow> json" where
  "readiness_check db_ok redis_ok =
     (let state = (\<lambda>ok. JStr (if ok then ''connected'' else ''unavailable''));
          checks = [(''database'', state db_ok), (''redis'', state redis_ok)]
      in JObj [(''status'', JStr (if list_all (\<lambda>c. snd c = JStr ''connected'') checks then ''ready'' else ''degraded'')),
               (''checks'', JObj checks)])"

definition root_health :: json where
  "root_health = JObj [(''status'', JStr ''healthy''), (''version'', JStr ''0.1.0'')]"

definition version_info :: "app_settings \<Rightarrow> json" where
  "version_info s =
     JObj [(''name'', JStr (st_app_name s)), (''version'', JStr ''0.1.0''), (''environment'', JStr (st_app_env s))]"

section \<open>Requests, responses and headers\<close>

record app_request =
  hq_verb :: string
  hq_path :: string
  hq_headers :: "(string \<times> string) list"
  hq_request_id :: "string option"

record app_response =
  hp_status :: nat
  hp_headers :: "(string \<times> string) list"
  hp_body :: json

type_synonym 'w asgi = "app_request \<Rightarrow> 'w \<Rightarrow> (py_exc + app_response) \<times> 'w"

definition same_header :: "string \<Rightarrow> string \<Rightarrow> bool" where
  "same_header a b \<longleftrightarrow> py_lower a = py_lower b"

definition get_header :: "string \<Rightarrow> (string \<times> string) list \<Rightarrow> string option" where
  "get_header k hs = map_option snd (List.find (\<lambda>h. same_header (fst h) k) hs)"

text \<open>Assigning a header replaces its first occurrence and removes the others.\<close>

fun set_header :: "string \<Rightarrow> string \<Rightarrow> (string \<times> string) list \<Rightarrow> (string \<times> string) list" where
  "set_header k v [] = [(py_lower k, v)]"
| "set_header k v (h # hs) =
     (if same_header (fst h) k then (py_lower k, v) # filter (\<lambda>g. \<not> same_header (fst g) k) hs
      else h # set_header k v hs)"

definition on_response :: "(app_response \<Rightarrow> app_response) \<Rightarrow> (py_exc + app_response) \<times> 'w \<Rightarrow> (py_exc + app_response) \<times> 'w" where
  "on_response f out = (case out of (Inl x, w) \<Rightarrow> (Inl x, w) | (Inr r, w) \<Rightarrow> (Inr (f r), w))"

section \<open>The middlewares\<close>

definition security_headers :: "bool \<Rightarrow> (string \<times> string) list" where
  "security_headers production =
     [(''X-Content-Type-Options'', ''nosniff''), (''X-Frame-Options'', ''DENY''),
      (''X-XSS-Protection'', ''1; mode=block''), (''Referrer-Policy'', ''strict-origin-when-cross-origin''),
      (''Permissions-Policy'', ''camera=(), microphone=(), geolocation=()'')] @
     (if production then [(''Strict-Transport-Security'', ''max-age=31536000; includeSubDomains'')] else [])"

definition add_security_headers :: "bool \<Rightarrow> 'w asgi \<Rightarrow> 'w asgi" where
  "add_security_headers production call_next rq w =
     on_response (\<lambda>r. r\<lparr>hp_headers := fold (\<lambda>h. set_header (fst h) (snd h)) (security_headers production) (hp_headers r)\<rparr>)
       (call_next rq w)"

definition request_id_header :: string where "request_id_header = ''X-Request-ID''"

definition request_id_of :: "uuid \<Rightarrow> app_request \<Rightarrow> string" where
  "request_id_of fresh rq =
     (case get_header request_id_header (hq_headers rq) of
        Some s \<Rightarrow> if s = '''' then uuid_str fresh else s
      | None \<Rightarrow> uuid_str fresh)"

definition add_request_id :: "uuid \<Rightarrow> 'w asgi \<Rightarrow> 'w asgi" where
  "add_request_id fresh call_next rq w =
     (let request_id = request_id_of fresh rq
      in on_response (\<lambda>r. r\<lparr>hp_headers := set_header request_id_header request_id (hp_headers r)\<rparr>)
           (call_next (rq\<lparr>hq_request_id := Some request_id\<rparr>) w))"

definition prometheus :: "rat \<Rightarrow> ('w \<times> metrics) asgi \<Rightarrow> ('w \<times> metrics) asgi" where
  "prometheus duration call_next rq st =
     (if hq_path rq = ''/metrics'' then call_next rq st
      else case call_next rq st of
        (Inl x, st') \<Rightarrow> (Inl x, st')
      | (Inr r, w, m) \<Rightarrow>
          (Inr r, w, observe_request (hq_verb rq) (normalise_path (hq_path rq)) (hp_status r) duration m))"

text \<open>The two innermost and outermost layers of the framework: an \<open>HTTPException\<close> of the router becomes
  its response; anything else that leaves the chain becomes a bare 500.\<close>

definition http_errors :: "'w asgi \<Rightarrow> 'w asgi" where
  "http_errors call_next rq w =
     (case call_next rq w of
        (Inl (HTTPException code detail), w') \<Rightarrow>
          (Inr \<lparr>hp_status = code, hp_headers = [], hp_body = JObj [(''detail'', JStr detail)]\<rparr>, w')
      | out \<Rightarrow> out)"

definition internal_error :: app_response where
  "internal_error =
     \<lparr>hp_status = 500, hp_headers = [(''content-type'', ''text/plain; charset=utf-8'')],
      hp_body = JStr ''Internal Server Error''\<rparr>"

definition server_errors :: "'w asgi \<Rightarrow> app_request \<Rightarrow> 'w \<Rightarrow> app_response \<times> 'w" where
  "server_errors call_next rq w =
     (case call_next rq w of (Inl x, w') \<Rightarrow> (internal_error, w') | (Inr r, w') \<Rightarrow> (r, w'))"

section \<open>The payment wall\<close>

record payment_option =
  po_scheme :: string
  po_pay_to :: string
  po_price :: string
  po_network :: string
  po_description :: string

text \<open>\<open>configure_x402\<close>: the routes behind the wall with what each asks for, if a wall is put up at all.\<close>

definition configure_x402 ::
  "bool \<Rightarrow> string \<Rightarrow> string \<Rightarrow> (string \<times> (string \<times> string) list) list option \<Rightarrow>
   (string \<times> payment_option) list option" where
  "configure_x402 sdk_installed pay_to network routes =
     (if \<not> sdk_installed then None
      else if pay_to = '''' then None
      else Some (map (\<lambda>(pattern, config).
        (pattern, \<lparr>po_scheme = ''exact'', po_pay_to = pay_to,
                   po_price = (case map_of config ''price'' of Some p \<Rightarrow> p | None \<Rightarrow> ''$0.01''),
                   po_network = network,
                   po_description = (case map_of config ''description'' of Some d \<Rightarrow> d | None \<Rightarrow> ''Paid endpoint'')\<rparr>))
        (case routes of None \<Rightarrow> [] | Some rs \<Rightarrow> rs)))"

definition x402_wall :: "bool \<Rightarrow> app_settings \<Rightarrow> (string \<times> payment_option) list option" where
  "x402_wall sdk_installed s =
     (if st_x402_enabled s
      then configure_x402 sdk_installed (st_x402_pay_to s) (st_x402_network s)
             (Some [(''POST /api/v1/x402/compute'',
                     [(''price'', st_x402_compute_price s), (''description'', ''Compute job (x402 PoC)'')])])
      else None)"

definition x402_compute :: "(bytes \<Rightarrow> bytes) \<Rightarrow> (rat \<Rightarrow> rat) \<Rightarrow> uuid \<Rightarrow> string \<Rightarrow> rat \<Rightarrow> json" where
  "x402_compute sha round_2 job_id clock elapsed_ms =
     JObj [(''job_id'', JStr (uuid_str job_id)),
       (''result_hash'', JStr (hex_of (sha (map (\<lambda>c. of_nat (of_char c)) (''compute-result-'' @ uuid_str job_id @ ''-'' @ clock))))),
       (''compute_time_ms'', JNum (round_2 elapsed_ms)), (''status'', JStr ''completed''), (''payment_verified'', JBool True)]"

definition x402_pricing :: json where
  "x402_pricing =
     JObj [(''endpoints'', JObj [(''POST /api/v1/x402/compute'',
              JObj [(''price_usd'', JStr ''0.01''), (''network'', JStr ''eip155:84532''), (''asset'', JStr ''USDC''),
                    (''scheme'', JStr ''exact'')])]),
       (''facilitator'', JStr ''https://x402.org/facilitator''), (''note'', JStr ''PoC -- Base Sepolia testnet only'')]"

section \<open>The application\<close>

text \<open>A middleware that is added later lies further out; the payment wall is added last.\<close>

definition create_app ::
  "app_settings \<Rightarrow> bool \<Rightarrow> (('w \<times> metrics) asgi \<Rightarrow> ('w \<times> metrics) asgi) \<Rightarrow>
   ((string \<times> payment_option) list \<Rightarrow> ('w \<times> metrics) asgi \<Rightarrow> ('w \<times> metrics) asgi) \<Rightarrow> ('w \<times> metrics) asgi \<Rightarrow>
   uuid \<Rightarrow> rat \<Rightarrow> app_request \<Rightarrow> 'w \<times> metrics \<Rightarrow> app_response \<times> 'w \<times> metrics" where
  "create_app s sdk_installed cors wall router fresh duration =
     server_errors
       ((case x402_wall sdk_installed s of None \<Rightarrow> (\<lambda>app. app) | Some routes \<Rightarrow> wall routes)
          (add_request_id fresh
            (prometheus duration
              (add_security_headers (is_production s)
                (cors (http_errors router))))))"

section \<open>What every response carries\<close>

lemma same_header_refl [simp]: "same_header k k"
  by (simp add: same_header_def)

lemma get_header_set_same: "get_header k (set_header k v hs) = Some v"
proof (induction hs)
  case Nil
  have "py_lower (py_lower k) = py_lower k" by (simp add: py_lower_def lower_char_def)
  then show ?case by (simp add: get_header_def same_header_def)
next
  case (Cons h hs)
  have "py_lower (py_lower k) = py_lower k" by (simp add: py_lower_def lower_char_def)
  with Cons show ?case by (simp add: get_header_def same_header_def)
qed

lemma find_filter_other:
  "(\<And>x. P x \<Longrightarrow> Q x) \<Longrightarrow> List.find P (filter Q xs) = List.find P xs"
  by (induction xs) auto

lemma get_header_set_other:
  assumes "\<not> same_header j k"
  shows "get_header j (set_header k v hs) = get_header j hs"
proof (induction hs)
  case Nil
  have "py_lower (py_lower k) = py_lower k" by (simp add: py_lower_def lower_char_def)
  with assms show ?case by (simp add: get_header_def same_header_def)
next
  case (Cons h hs)
  have low: "py_lower (py_lower k) = py_lower k" by (simp add: py_lower_def lower_char_def)
  have "List.find (\<lambda>h. same_header (fst h) j) (filter (\<lambda>g. \<not> same_header (fst g) k) hs) =
      List.find (\<lambda>h. same_header (fst h) j) hs"
    using assms by (intro find_filter_other) (auto simp: same_header_def)
  with Cons assms low show ?case by (auto simp: get_header_def same_header_def)
qed

definition carries :: "(string \<times> string) list \<Rightarrow> (string \<times> string) list \<Rightarrow> bool" where
  "carries hs ks \<longleftrightarrow> list_all (\<lambda>h. get_header (fst h) hs = Some (snd h)) ks"

fun apart :: "(string \<times> string) list \<Rightarrow> bool" where
  "apart [] = True"
| "apart (h # hs) = (list_all (\<lambda>g. \<not> same_header (fst h) (fst g)) hs \<and> apart hs)"

lemma get_header_fold_other:
  "list_all (\<lambda>g. \<not> same_header j (fst g)) ks \<Longrightarrow>
   get_header j (fold (\<lambda>h. set_header (fst h) (snd h)) ks hs) = get_header j hs"
  by (induction ks arbitrary: hs) (simp_all add: get_header_set_other)

lemma carries_fold: "apart ks \<Longrightarrow> carries (fold (\<lambda>h. set_header (fst h) (snd h)) ks hs) ks"
  by (induction ks arbitrary: hs) (simp_all add: carries_def get_header_fold_other get_header_set_same)

lemma carries_set: "list_all (\<lambda>h. \<not> same_header (fst h) k) ks \<Longrightarrow> carries hs ks \<Longrightarrow> carries (set_header k v hs) ks"
  by (auto simp: carries_def list_all_iff get_header_set_other)

lemma same_header_length: "length a \<noteq> length b \<Longrightarrow> \<not> same_header a b"
  unfolding same_header_def py_lower_def by (metis length_map)

lemma frame_referrer_apart: "\<not> same_header ''X-Frame-Options'' ''Referrer-Policy''"
  by (simp add: same_header_def py_lower_def lower_char_def)

lemma security_headers_apart:
  "apart (security_headers p) \<and> list_all (\<lambda>h. \<not> same_header (fst h) request_id_header) (security_headers p)"
  by (simp add: security_headers_def request_id_header_def same_header_length frame_referrer_apart)

text \<open>Every response of the application is marked, as long as no payment wall is up: it carries the
  request's own \<open>X-Request-ID\<close>, or the fresh one when the request has none, and each security header
  of the environment, whatever the CORS middleware, the router and the other headers are. The one
  exception is the bare 500 of an exception that no layer handles.\<close>

theorem app_marks_responses:
  assumes "x402_wall installed s = None"
    and "create_app s installed cors wall router fresh duration rq st = (r, st')"
  shows "r = internal_error \<or>
    (get_header request_id_header (hp_headers r) = Some (request_id_of fresh rq) \<and>
     carries (hp_headers r) (security_headers (is_production s)))"
proof -
  let ?rq = "rq\<lparr>hq_request_id := Some (request_id_of fresh rq)\<rparr>"
  obtain out w m where out: "cors (http_errors router) ?rq st = (out, w, m)" by (cases "cors (http_errors router) ?rq st") auto
  show ?thesis
  proof (cases out)
    case (Inl x)
    then show ?thesis using assms out
      by (simp add: create_app_def server_errors_def add_request_id_def prometheus_def add_security_headers_def
          on_response_def Let_def split: if_splits)
  next
    case (Inr r0)
    let ?hs = "fold (\<lambda>h. set_header (fst h) (snd h)) (security_headers (is_production s)) (hp_headers r0)"
    have "hp_headers r = set_header request_id_header (request_id_of fresh rq) ?hs"
      using assms out Inr
      by (auto simp: create_app_def server_errors_def add_request_id_def prometheus_def add_security_headers_def
          on_response_def Let_def split: if_splits)
    then show ?thesis
      using security_headers_apart carries_fold carries_set by (simp add: get_header_set_same)
  qed
qed

definition plain_router :: "('w \<times> metrics) asgi" where
  "plain_router rq st =
     (if hq_path rq = ''/health'' then (Inr \<lparr>hp_status = 200, hp_headers = [(''x-frame-options'', ''ALLOW'')], hp_body = root_health\<rparr>, st)
      else (Inl (HTTPException 404 ''Not Found''), st))"

definition plain_request :: app_request where
  "plain_request = \<lparr>hq_verb = ''GET'', hq_path = ''/health'', hq_headers = [(''x-request-id'', ''abc'')], hq_request_id = None\<rparr>"

theorem app_marks_responses_witness:
  "\<exists>r st'. create_app default_settings True (\<lambda>app. app) (\<lambda>_ app. app) plain_router 7 1 plain_request ((), metrics_init) = (r, st') \<and>
     get_header request_id_header (hp_headers r) = Some ''abc'' \<and> carries (hp_headers r) (security_headers False)"
proof -
  have wall: "x402_wall True default_settings = None" by (simp add: x402_wall_def default_settings_def)
  obtain r st' where r: "create_app default_settings True (\<lambda>app. app) (\<lambda>_ app. app) plain_router 7 1 plain_request ((), metrics_init) = (r, st')"
    by (cases "create_app default_settings True (\<lambda>app. app) (\<lambda>_ app. app) plain_router 7 1 plain_request ((), metrics_init)") auto
  have "hp_status r = 200"
    using r by (auto simp: create_app_def wall server_errors_def add_request_id_def prometheus_def add_security_headers_def
        on_response_def Let_def http_errors_def plain_router_def plain_request_def split: if_splits)
  then have "r \<noteq> internal_error" by (auto simp: internal_error_def)
  moreover have "request_id_of 7 plain_request = ''abc''" "\<not> is_production default_settings"
    by (code_simp, simp add: is_production_def default_settings_def)
  ultimately have "get_header request_id_header (hp_headers r) = Some ''abc'' \<and> carries (hp_headers r) (security_headers False)"
    using app_marks_responses [OF wall r] by simp
  with r show ?thesis by blast
qed

text \<open>With the wall up this ends: the wall is added after the request-id middleware and lies outside it,
  so what it answers by itself, the demand for payment above all, leaves as the wall made it, with no
  request id, no security headers, and no trace in the metrics.\<close>

theorem payment_demand_unmarked:
  assumes "x402_wall installed s = Some routes"
    and "\<And>app. wall routes app rq st = (Inr demand, st)"
  shows "create_app s installed cors wall router fresh duration rq st = (demand, st)"
  using assms by (simp add: create_app_def server_errors_def)

theorem payment_demand_unmarked_witness:
  "create_app (default_settings\<lparr>st_x402_enabled := True, st_x402_pay_to := ''0x1''\<rparr>) True (\<lambda>app. app)
     (\<lambda>_ _ _ st. (Inr \<lparr>hp_status = 402, hp_headers = [], hp_body = JNull\<rparr>, st)) plain_router 7 1 plain_request ((), metrics_init) =
   (\<lparr>hp_status = 402, hp_headers = [], hp_body = JNull\<rparr>, (), metrics_init)"
  by (rule payment_demand_unmarked) (simp_all add: x402_wall_def configure_x402_def default_settings_def)

section \<open>Secrets\<close>

text \<open>Settings that load are either not for production, or none of the three default secrets is left.\<close>

theorem production_secrets_changed:
  assumes "load_app_settings json_list env = Inr s" and "is_production s"
  shows "st_secret_key s \<noteq> default_secret \<and> st_jwt_secret_key s \<noteq> default_secret \<and>
    st_encryption_master_key s \<noteq> default_encryption_key"
proof -
  obtain s0 where "validate_production_secrets s0 = Inr s"
    using assms(1) by (auto simp: load_app_settings_def Let_def err_bind_Inr)
  with assms(2) show ?thesis by (auto simp: validate_production_secrets_def split: if_splits)
qed

definition production_env :: environ where
  "production_env = map_of [(''APP_ENV'', ''production''), (''SECRET_KEY'', ''a''), (''JWT_SECRET_KEY'', ''b''),
     (''ENCRYPTION_MASTER_KEY'', ''c''), (''DB_POOL_SIZE'', ''5'')]"

theorem production_secrets_changed_witness:
  "\<exists>s. load_app_settings (\<lambda>_. None) production_env = Inr s \<and> st_secret_key s \<noteq> default_secret"
proof -
  have five: "py_int_str ''5'' = Some 5" by code_simp
  obtain s where s: "load_app_settings (\<lambda>_. None) production_env = Inr s" "st_app_env s = ''production''"
    by (simp add: load_app_settings_def setting_def production_env_def five load_texts_def text_setting_def
        validate_production_secrets_def is_production_def default_secret_def default_encryption_key_def
        default_settings_def eval_nat_numeral)
  then show ?thesis using production_secrets_changed [OF s(1)] by (auto simp: is_production_def)
qed

text \<open>The session of a request: what a handler wrote and did not commit is gone when it is over, and the
  singleton of the settings never changes once it is there.\<close>

lemma session_keeps_commits:
  "get_db_session (\<lambda>s. (r, commit s)) db = (r, db) \<and> get_db_session (\<lambda>s. (r, s\<lparr>working := db'\<rparr>)) db = (r, db) \<and>
   get_db_session (\<lambda>s. (r, commit (s\<lparr>working := db'\<rparr>))) db = (r, db')"
  by (simp add: get_db_session_def open_session_def commit_def)

lemma settings_cached:
  "get_settings load cache = (Inr s, cache') \<Longrightarrow> cache' = Some s \<and> get_settings load' cache' = (Inr s, cache')"
  by (auto simp: get_settings_def split: option.splits sum.splits)

section \<open>The verifier of anchored entries\<close>

text \<open>\<open>_get_anchoring_deps\<close>: \<open>web3\<close> stands for the construction of the web3 client, which may fail.\<close>

definition get_anchoring_deps :: "environ \<Rightarrow> (anchor_config \<Rightarrow> py_exc + 'c verify_root) \<Rightarrow> py_exc + 'c verify_root \<times> int" where
  "get_anchoring_deps env web3 =
     err_bind (anchor_config_from_env env) (\<lambda>config.
     err_bind (if ac_enabled config \<and> ac_rpc_url config \<noteq> '''' then web3 config else Inr noop_verify) (\<lambda>verify.
       Inr (verify, ac_batch_size config)))"

definition verify_request ::
  "environ \<Rightarrow> (anchor_config \<Rightarrow> py_exc + 'c verify_root) \<Rightarrow> int \<Rightarrow> anchor_db \<times> 'c \<Rightarrow> py_exc + verification_response" where
  "verify_request env web3 i s =
     err_bind (get_anchoring_deps env web3) (\<lambda>(verify, batch_size). verify_endpoint verify i s)"

text \<open>A gateway whose anchoring is not enabled confirms everything. With no \<^verbatim>\<open>ANCHOR_ENABLED\<close> in the
  environment, or no RPC URL, the verify endpoint answers that the entry is verified for every entry
  that has an anchor record, and quotes the recorded root as the one on chain, whatever root and
  transaction the record names and whatever the chain holds.\<close>

theorem disabled_anchoring_confirms:
  assumes "env ''ANCHOR_ENABLED'' = None \<or> env ''ANCHOR_RPC_URL'' = None"
    and "env ''ANCHOR_BATCH_SIZE'' = None" and "env ''ANCHOR_INTERVAL_SECONDS'' = None"
    and "find_anchor i db = Inr (e, r)"
  shows "\<exists>resp. verify_request env web3 i (db, c) = Inr resp \<and> vr_verified resp \<and> vr_entry resp = i \<and>
    vr_on_chain_root resp = ar_root r \<and> vr_tx resp = ar_tx r"
proof -
  have low: "py_lower ''false'' \<notin> set [''true'', ''1'', ''yes'']" by code_simp
  obtain cfg where cfg: "anchor_config_from_env env = Inr cfg" "\<not> (ac_enabled cfg \<and> ac_rpc_url cfg \<noteq> '''')"
    using assms(1,2,3) low
    by (auto simp: anchor_config_from_env_def text_setting_def setting_def Let_def)
  have v: "verify_endpoint noop_verify i (db, c) = Inr \<lparr>vr_verified = True, vr_entry = i, vr_root = ar_root r,
      vr_on_chain_root = ar_root r, vr_block = ar_block r, vr_tx = ar_tx r\<rparr>"
    using assms(4) by (simp add: verify_endpoint_def noop_verify_def)
  have "get_anchoring_deps env web3 = Inr (noop_verify, ac_batch_size cfg)"
    by (simp only: get_anchoring_deps_def cfg(1) err_bind.simps cfg(2) if_False)
  then show ?thesis by (simp add: verify_request_def v)
qed

definition forged_db :: anchor_db where
  "forged_db = \<lparr>ad_records = [noop_record\<lparr>ar_root := ''forged'', ar_tx := ''none''\<rparr>],
     ad_entries = [\<lparr>ae_id = 1, ae_created_at = Some 0, ae_account = ''a'', ae_delta = ''3'', ae_anchor = Some 9\<rparr>]\<rparr>"

theorem disabled_anchoring_confirms_witness:
  "\<exists>resp. verify_request (\<lambda>_. None) (\<lambda>_. Inl NoResultFound) 1 (forged_db, ()) = Inr resp \<and> vr_verified resp \<and>
     vr_on_chain_root resp = ''forged''"
proof -
  have f: "find_anchor 1 forged_db = Inr (hd (ad_entries forged_db), hd (ad_records forged_db))"
    by (simp add: find_anchor_def forged_db_def noop_record_def row_at_def)
  from disabled_anchoring_confirms [OF _ _ _ f, of "\<lambda>_. None" "\<lambda>_. Inl NoResultFound" "()"] show ?thesis
    by (auto simp: forged_db_def)
qed

text \<open>Without a payee the payment routes are served without a wall: the compute endpoint, which is included
  whenever payments are enabled, is reached like any other, and what it answers says that the payment
  was verified.\<close>

lemma unpaid_compute_reached:
  assumes "st_x402_pay_to s = '''' \<or> \<not> sdk_installed"
  shows "create_app s sdk_installed cors wall router fresh duration =
      create_app (s\<lparr>st_x402_enabled := False\<rparr>) sdk_installed cors wall router fresh duration"
    and "json_get ''payment_verified'' (x402_compute sha round_2 job_id clock ms) = Some (JBool True)"
proof -
  have "x402_wall sdk_installed s = None" "x402_wall sdk_installed (s\<lparr>st_x402_enabled := False\<rparr>) = None"
    using assms by (auto simp: x402_wall_def configure_x402_def)
  then show "create_app s sdk_installed cors wall router fresh duration =
      create_app (s\<lparr>st_x402_enabled := False\<rparr>) sdk_installed cors wall router fresh duration"
    by (intro ext) (simp add: create_app_def is_production_def)
  show "json_get ''payment_verified'' (x402_compute sha round_2 job_id clock ms) = Some (JBool True)"
    by (simp add: x402_compute_def)
qed

end
