(* ===== verification/Routing.thy ===== *)
theory Routing
  imports Sdk Edge_Client
begin

text \<open>
  The route table of the API, assembled the way \<^verbatim>\<open>core/api/v1/router.py\<close> and \<open>create_app\<close> of
  \<^verbatim>\<open>core/main.py\<close> assemble it from the routers of the endpoint modules, and the paths that the SDK and
  the relay client ask for.

  A path template is cut at its slashes; a segment in braces stands for any non-empty text without a
  slash. Requests are matched the way the framework does it: the first route whose path and method
  both match, otherwise 405 if some path matches, otherwise a redirect if the path matches with its
  trailing slash added or removed, otherwise 404.
\<close>

section \<open>Routes\<close>

datatype endpoint =
    HealthProbe | ReadinessProbe | RegisterUser | Login | RefreshToken | Logout | StripeWebhook
  | CreditsBalance | CreditsHistory | CreditsDeduct | RegisterNode | NodeHeartbeat | DispatchJob
  | ListJobs | ReadJob | CancelJob | JobResult | RelaySocket | IssueCertificate | CaCertificate
  | RenewCertificate | EntryProof | EntryVerification | AnchorRecords | FleetNodes | FleetNodeHealth
  | Scrape | X402Compute | X402Pricing | RootHealth | VersionInfo

record route =
  rt_verb :: string
  rt_path :: string
  rt_endpoint :: endpoint

definition route_of :: "string \<Rightarrow> string \<Rightarrow> endpoint \<Rightarrow> route" where
  "route_of verb path e = \<lparr>rt_verb = verb, rt_path = path, rt_endpoint = e\<rparr>"

definition include_router :: "string \<Rightarrow> route list \<Rightarrow> route list" where
  "include_router pre rs = map (\<lambda>r. r\<lparr>rt_path := pre @ rt_path r\<rparr>) rs"

definition health_router :: "route list" where
  "health_router = [route_of ''GET'' ''/health'' HealthProbe, route_of ''GET'' ''/health/ready'' ReadinessProbe]"

definition auth_router :: "route list" where
  "auth_router = include_router ''/auth''
     [route_of ''POST'' ''/register'' RegisterUser, route_of ''POST'' ''/login'' Login,
      route_of ''POST'' ''/refresh'' RefreshToken, route_of ''POST'' ''/logout'' Logout]"

definition stripe_router :: "route list" where
  "stripe_router = [route_of ''POST'' ''/webhooks/stripe'' StripeWebhook]"

definition credits_router :: "route list" where
  "credits_router = include_router ''/credits''
     [route_of ''GET'' ''/balance'' CreditsBalance, route_of ''GET'' ''/history'' CreditsHistory,
      route_of ''POST'' ''/deduct'' CreditsDeduct]"

definition nodes_router :: "route list" where
  "nodes_router = include_router ''/nodes''
     [route_of ''POST'' ''/register'' RegisterNode, route_of ''POST'' ''/heartbeat'' NodeHeartbeat]"

definition dispatch_router :: "route list" where
  "dispatch_router = include_router ''/jobs'' [route_of ''POST'' ''/dispatch'' DispatchJob]"

definition jobs_router :: "route list" where
  "jobs_router = include_router ''/jobs''
     [route_of ''GET'' '''' ListJobs, route_of ''GET'' ''/{job_id}'' ReadJob,
      route_of ''POST'' ''/{job_id}/cancel'' CancelJob, route_of ''GET'' ''/{job_id}/result'' JobResult]"

definition relay_router :: "route list" where
  "relay_router = include_router ''/relay'' [route_of ''WS'' ''/ws/{node_id}'' RelaySocket]"

definition certs_router :: "route list" where
  "certs_router = include_router ''/certs''
     [route_of ''POST'' ''/issue'' IssueCertificate, route_of ''GET'' ''/ca'' CaCertificate,
      route_of ''POST'' ''/renew'' RenewCertificate]"

definition ledger_router :: "route list" where
  "ledger_router = include_router ''/ledger''
     [route_of ''GET'' ''/{entry_id}/proof'' EntryProof, route_of ''GET'' ''/{entry_id}/verify'' EntryVerification,
      route_of ''GET'' ''/anchors'' AnchorRecords]"

definition fleet_router :: "route list" where
  "fleet_router = include_router ''/fleet''
     [route_of ''GET'' '''' FleetNodes, route_of ''GET'' ''/{node_id}/health'' FleetNodeHealth]"

definition x402_router :: "route list" where
  "x402_router = include_router ''/x402''
     [route_of ''POST'' ''/compute'' X402Compute, route_of ''GET'' ''/pricing'' X402Pricing]"

definition api_v1_router :: "route list" where
  "api_v1_router = include_router ''/api/v1''
     (health_router @ auth_router @ stripe_router @ credits_router @ nodes_router @ dispatch_router @
      jobs_router @ relay_router @ certs_router @ ledger_router)"

definition app_routes :: "bool \<Rightarrow> route list" where
  "app_routes x402_enabled =
     [route_of ''GET'' ''/metrics'' Scrape] @ api_v1_router @
     (if x402_enabled then include_router ''/api/v1'' x402_router else []) @
     [route_of ''GET'' ''/health'' RootHealth, route_of ''GET'' ''/version'' VersionInfo]"

section \<open>Matching\<close>

datatype segment = Lit string | Param

definition segment_of :: "string \<Rightarrow> segment" where
  "segment_of s = (if s \<noteq> '''' \<and> hd s = CHR ''{'' \<and> last s = CHR ''}'' then Param else Lit s)"

definition template :: "string \<Rightarrow> segment list" where
  "template path = map segment_of (split_on CHR ''/'' path)"

fun match_segments :: "segment list \<Rightarrow> string list \<Rightarrow> string list option" where
  "match_segments [] [] = Some []"
| "match_segments (Lit a # ps) (x # xs) = (if x = a then match_segments ps xs else None)"
| "match_segments (Param # ps) (x # xs) = (if x = '''' then None else map_option ((#) x) (match_segments ps xs))"
| "match_segments ps xs = None"

definition route_params :: "route \<Rightarrow> string \<Rightarrow> string list option" where
  "route_params r path = match_segments (template (rt_path r)) (split_on CHR ''/'' path)"

datatype routed = Handled endpoint "string list" | MethodNotAllowed | RedirectTo string | Unrouted

definition path_known :: "route list \<Rightarrow> string \<Rightarrow> bool" where
  "path_known rs path \<longleftrightarrow> list_ex (\<lambda>r. rt_verb r \<noteq> ''WS'' \<and> route_params r path \<noteq> None) rs"

definition other_slash :: "string \<Rightarrow> string" where
  "other_slash path =
     (if path \<noteq> '''' \<and> last path = CHR ''/'' then rstrip_char CHR ''/'' path else path @ ''/'')"

definition resolve :: "route list \<Rightarrow> string \<Rightarrow> string \<Rightarrow> routed" where
  "resolve rs verb path =
     (case List.find (\<lambda>r. rt_verb r = verb \<and> route_params r path \<noteq> None) rs of
        Some r \<Rightarrow> Handled (rt_endpoint r) (the (route_params r path))
      | None \<Rightarrow>
          if verb = ''WS'' then Unrouted
          else if path_known rs path then MethodNotAllowed
          else if path \<noteq> ''/'' \<and> path_known rs (other_slash path) then RedirectTo (other_slash path)
          else Unrouted)"

section \<open>The table is unambiguous\<close>

fun overlap :: "segment list \<Rightarrow> segment list \<Rightarrow> bool" where
  "overlap [] [] = True"
| "overlap (Lit a # ps) (Lit b # qs) = (a = b \<and> overlap ps qs)"
| "overlap (Lit a # ps) (Param # qs) = (a \<noteq> '''' \<and> overlap ps qs)"
| "overlap (Param # ps) (Lit b # qs) = (b \<noteq> '''' \<and> overlap ps qs)"
| "overlap (Param # ps) (Param # qs) = overlap ps qs"
| "overlap ps qs = False"

lemma match_Nil [simp]: "match_segments ps [] = Some vs \<longleftrightarrow> ps = [] \<and> vs = []"
  by (cases ps; cases "hd ps") auto

lemma matches_overlap:
  "match_segments ps xs = Some vs \<Longrightarrow> match_segments qs xs = Some ws \<Longrightarrow> overlap ps qs"
proof (induction ps xs arbitrary: qs vs ws rule: match_segments.induct)
  case (2 a ps x xs)
  then obtain q qs' where q: "qs = q # qs'" by (cases qs) auto
  with 2 show ?case by (cases q) (auto split: if_splits)
next
  case (3 ps x xs)
  then obtain q qs' where q: "qs = q # qs'" by (cases qs) auto
  with 3 show ?case by (cases q) (auto split: if_splits)
qed auto

fun unambiguous :: "route list \<Rightarrow> bool" where
  "unambiguous [] = True"
| "unambiguous (r # rs) =
     (list_all (\<lambda>s. rt_verb s = rt_verb r \<longrightarrow> \<not> overlap (template (rt_path r)) (template (rt_path s))) rs \<and> unambiguous rs)"

lemma unambiguous_unique:
  "unambiguous rs \<Longrightarrow> r \<in> set rs \<Longrightarrow> s \<in> set rs \<Longrightarrow> rt_verb r = rt_verb s \<Longrightarrow>
   route_params r path \<noteq> None \<Longrightarrow> route_params s path \<noteq> None \<Longrightarrow> r = s"
proof (induction rs)
  case Nil
  then show ?case by simp
next
  case (Cons t rs)
  have "overlap (template (rt_path u)) (template (rt_path v))"
    if "route_params u path \<noteq> None" "route_params v path \<noteq> None" for u v
    using that matches_overlap unfolding route_params_def by fastforce
  with Cons show ?case by (auto simp: list_all_iff)
qed
lemma app_routes_unambiguous: "unambiguous (app_routes x402)"
proof -
  have "unambiguous (app_routes True)" by code_simp
  moreover have "unambiguous (app_routes False)" by code_simp
  ultimately show ?thesis by (cases x402) simp_all
qed

lemma resolve_route:
  assumes "unambiguous rs" and "r \<in> set rs" and "route_params r path = Some vs"
  shows "resolve rs (rt_verb r) path = Handled (rt_endpoint r) vs"
proof -
  let ?P = "\<lambda>s. rt_verb s = rt_verb r \<and> route_params s path \<noteq> None"
  have "?P r" using assms(3) by simp
  then obtain s where s: "List.find ?P rs = Some s"
    using assms(2) by (cases "List.find ?P rs") (auto simp: find_None_iff)
  then have "s \<in> set rs" "?P s" by (auto dest: find_SomeD)
  then have "s = r" using unambiguous_unique [OF assms(1) _ assms(2)] assms(3) by blast
  with s assms(3) show ?thesis by (simp add: resolve_def)
qed

text \<open>The route table has no shadowed entry: each request has at most one route that could handle it, so
  the order in which the routers are included does not matter, and a request whose path fits a route
  is handled by that route's endpoint with the values of its parameters.\<close>

theorem routes_unambiguous:
  assumes "r \<in> set (app_routes x402)" and "route_params r path = Some vs"
  shows "resolve (app_routes x402) (rt_verb r) path = Handled (rt_endpoint r) vs \<and>
    (\<forall>s \<in> set (app_routes x402). rt_verb s = rt_verb r \<and> route_params s path \<noteq> None \<longrightarrow> s = r)"
  using resolve_route [OF app_routes_unambiguous assms] unambiguous_unique [OF app_routes_unambiguous _ assms(1)] assms(2)
  by blast

theorem routes_unambiguous_witness:
  "resolve (app_routes False) ''GET'' ''/api/v1/jobs/7'' = Handled ReadJob [''7'']"
proof -
  have "route_of ''GET'' ''/api/v1/jobs/{job_id}'' ReadJob \<in> set (app_routes False)"
    by (simp add: app_routes_def api_v1_router_def jobs_router_def include_router_def route_of_def)
  moreover have "route_params (route_of ''GET'' ''/api/v1/jobs/{job_id}'' ReadJob) ''/api/v1/jobs/7'' = Some [''7'']"
    by code_simp
  ultimately show ?thesis using routes_unambiguous by (fastforce simp: route_of_def)
qed

section \<open>The paths the clients ask for\<close>

definition routed_request :: "route list \<Rightarrow> string \<Rightarrow> http_request \<Rightarrow> routed" where
  "routed_request rs base rq =
     resolve rs (case rq_verb rq of GET \<Rightarrow> ''GET'' | POST \<Rightarrow> ''POST'') (drop (length base) (rq_url rq))"

definition segment_ok :: "string \<Rightarrow> bool" where
  "segment_ok s \<longleftrightarrow> s \<noteq> '''' \<and> CHR ''/'' \<notin> set s"

lemma in_table:
  assumes "route_of verb path e \<in> set (app_routes x402)" and "match_segments (template path) (split_on CHR ''/'' p) = Some vs"
  shows "resolve (app_routes x402) verb p = Handled e vs"
  using resolve_route [OF app_routes_unambiguous assms(1), of p vs] assms(2) by (simp add: route_params_def route_of_def)

lemmas route_tables = app_routes_def api_v1_router_def health_router_def auth_router_def credits_router_def
  dispatch_router_def jobs_router_def relay_router_def include_router_def route_of_def

lemma job_paths:
  assumes "segment_ok i"
  shows "split_on CHR ''/'' (''/api/v1/jobs/'' @ i) = ['''', ''api'', ''v1'', ''jobs'', i]"
    and "split_on CHR ''/'' (''/api/v1/jobs/'' @ i @ ''/cancel'') = ['''', ''api'', ''v1'', ''jobs'', i, ''cancel'']"
    and "split_on CHR ''/'' (''/api/v1/jobs/'' @ i @ ''/result'') = ['''', ''api'', ''v1'', ''jobs'', i, ''result'']"
  using assms split_on_no_sep [of "CHR ''/''" i] split_on_append [of "CHR ''/''" i] by (simp_all add: segment_ok_def)

lemma job_templates:
  "template ''/api/v1/jobs/{job_id}'' = [Lit '''', Lit ''api'', Lit ''v1'', Lit ''jobs'', Param]"
  "template ''/api/v1/jobs/{job_id}/cancel'' = [Lit '''', Lit ''api'', Lit ''v1'', Lit ''jobs'', Param, Lit ''cancel'']"
  "template ''/api/v1/jobs/{job_id}/result'' = [Lit '''', Lit ''api'', Lit ''v1'', Lit ''jobs'', Param, Lit ''result'']"
  "template ''/api/v1/relay/ws/{node_id}'' = [Lit '''', Lit ''api'', Lit ''v1'', Lit ''relay'', Lit ''ws'', Param]"
  by (simp_all add: template_def segment_of_def)

lemma fixed_paths:
  "resolve (app_routes x402) ''POST'' ''/api/v1/auth/login'' = Handled Login []"
  "resolve (app_routes x402) ''POST'' ''/api/v1/jobs/dispatch'' = Handled DispatchJob []"
  "resolve (app_routes x402) ''GET'' ''/api/v1/jobs'' = Handled ListJobs []"
  "resolve (app_routes x402) ''GET'' ''/api/v1/credits/balance'' = Handled CreditsBalance []"
  "resolve (app_routes x402) ''GET'' ''/health'' = Handled RootHealth []"
proof -
  have fit: "match_segments (template p) (split_on CHR ''/'' p) = Some []" if "p \<in> set
      [''/api/v1/auth/login'', ''/api/v1/jobs/dispatch'', ''/api/v1/jobs'', ''/api/v1/credits/balance'', ''/health'']" for p
  proof -
    have "list_all (\<lambda>p. match_segments (template p) (split_on CHR ''/'' p) = Some [])
      [''/api/v1/auth/login'', ''/api/v1/jobs/dispatch'', ''/api/v1/jobs'', ''/api/v1/credits/balance'', ''/health'']"
      by code_simp
    with that show ?thesis unfolding list_all_iff by blast
  qed
  show "resolve (app_routes x402) ''POST'' ''/api/v1/auth/login'' = Handled Login []"
    by (rule in_table [OF _ fit]) (simp_all add: route_tables)
  show "resolve (app_routes x402) ''POST'' ''/api/v1/jobs/dispatch'' = Handled DispatchJob []"
    by (rule in_table [OF _ fit]) (simp_all add: route_tables)
  show "resolve (app_routes x402) ''GET'' ''/api/v1/jobs'' = Handled ListJobs []"
    by (rule in_table [OF _ fit]) (simp_all add: route_tables)
  show "resolve (app_routes x402) ''GET'' ''/api/v1/credits/balance'' = Handled CreditsBalance []"
    by (rule in_table [OF _ fit]) (simp_all add: route_tables)
  show "resolve (app_routes x402) ''GET'' ''/health'' = Handled RootHealth []"
    by (rule in_table [OF _ fit]) (simp_all add: route_tables)
qed

lemma job_requests:
  assumes "segment_ok i"
  shows "resolve (app_routes x402) ''GET'' (''/api/v1/jobs/'' @ i) = Handled ReadJob [i]"
    and "resolve (app_routes x402) ''POST'' (''/api/v1/jobs/'' @ i @ ''/cancel'') = Handled CancelJob [i]"
    and "resolve (app_routes x402) ''GET'' (''/api/v1/jobs/'' @ i @ ''/result'') = Handled JobResult [i]"
proof -
  have ne: "i \<noteq> ''''" using assms by (simp add: segment_ok_def)
  show "resolve (app_routes x402) ''GET'' (''/api/v1/jobs/'' @ i) = Handled ReadJob [i]"
    by (rule in_table [where path = "''/api/v1/jobs/{job_id}''"])
      (simp add: route_tables, simp only: job_templates job_paths [OF assms], simp add: ne)
  show "resolve (app_routes x402) ''POST'' (''/api/v1/jobs/'' @ i @ ''/cancel'') = Handled CancelJob [i]"
    by (rule in_table [where path = "''/api/v1/jobs/{job_id}/cancel''"])
      (simp add: route_tables, simp only: job_templates job_paths [OF assms], simp add: ne)
  show "resolve (app_routes x402) ''GET'' (''/api/v1/jobs/'' @ i @ ''/result'') = Handled JobResult [i]"
    by (rule in_table [where path = "''/api/v1/jobs/{job_id}/result''"])
      (simp add: route_tables, simp only: job_templates job_paths [OF assms], simp add: ne)
qed

text \<open>Each request of the SDK reaches the endpoint its method is named for, for every job identifier
  that is one non-empty path segment, whatever the base URL of the client, and whether or not the
  payment routes are included.\<close>

theorem sdk_requests_routed:
  assumes "segment_ok i"
  shows "map (routed_request (app_routes x402) (sc_base_url c))
      [login_request py_str c email password, submit_request py_str c ty payload kw, list_request py_str c st n,
       simple_request py_str c GET (''/api/v1/jobs/'' @ i), simple_request py_str c POST (''/api/v1/jobs/'' @ i @ ''/cancel''),
       simple_request py_str c GET (''/api/v1/jobs/'' @ i @ ''/result''), simple_request py_str c GET ''/api/v1/credits/balance'',
       simple_request py_str c GET ''/health''] =
    [Handled Login [], Handled DispatchJob [], Handled ListJobs [], Handled ReadJob [i], Handled CancelJob [i],
     Handled JobResult [i], Handled CreditsBalance [], Handled RootHealth []]"
  using fixed_paths [of x402] job_requests [OF assms, of x402]
  by (simp add: routed_request_def login_request_def submit_request_def list_request_def simple_request_def Let_def)


theorem sdk_requests_routed_witness:
  "routed_request (app_routes False) (sc_base_url (new_sdk_client ''http://h'' None None 30))
     (simple_request (\<lambda>_. ''7'') (new_sdk_client ''http://h'' None None 30) POST ''/api/v1/jobs/7/cancel'') = Handled CancelJob [''7''] \<and>
   routed_request (app_routes True) (sc_base_url (new_sdk_client ''http://h'' None None 30))
     (login_request (\<lambda>_. ''7'') (new_sdk_client ''http://h'' None None 30) ''a@b.c'' ''pw'') = Handled Login []"
proof -
  have ok: "segment_ok ''7''" by (simp add: segment_ok_def)
  show ?thesis
    using sdk_requests_routed [OF ok, of False "new_sdk_client ''http://h'' None None 30" "\<lambda>_. ''7''" "''a@b.c''" "''pw''"
        "''x''" JNull "[]" None 5]
      sdk_requests_routed [OF ok, of True "new_sdk_client ''http://h'' None None 30" "\<lambda>_. ''7''" "''a@b.c''" "''pw''"
        "''x''" JNull "[]" None 5]
    by simp
qed

text \<open>The relay socket: the upgrade request carries the path of the URL up to the question mark.\<close>

definition socket_path :: "string \<Rightarrow> relay_client \<Rightarrow> string" where
  "socket_path origin c = takeWhile (\<lambda>x. x \<noteq> CHR ''?'') (drop (length origin) (ws_url c))"

lemma takeWhile_until: "c \<notin> set w \<Longrightarrow> takeWhile (\<lambda>x. x \<noteq> c) (w @ c # s) = w"
  by (induction w) auto

lemma uuid_segment: "c \<notin> set ''0123456789abcdef-'' \<Longrightarrow> c \<notin> set (uuid_str u)"
proof
  assume c: "c \<notin> set ''0123456789abcdef-''" and "c \<in> set (uuid_str u)"
  then have "c \<in> set (filter (\<lambda>c. c \<noteq> CHR ''-'') (uuid_str u))" by simp
  then have "c \<in> set (uuid_hex u)" by (simp only: uuid_str_hex)
  from hex_chars [OF this] c show False by simp
qed

lemma socket_path_eq:
  assumes "rc_server_url c = origin @ pre" and "CHR ''?'' \<notin> set pre"
  shows "socket_path origin c = pre @ ''/relay/ws/'' @ uuid_str (rc_node_id c)"
proof -
  have "ws_url c = origin @ (pre @ ''/relay/ws/'' @ uuid_str (rc_node_id c)) @ CHR ''?'' # ''token='' @ rc_token c"
    using assms(1) by (simp add: ws_url_def)
  moreover have "CHR ''?'' \<notin> set (pre @ ''/relay/ws/'' @ uuid_str (rc_node_id c))"
    using assms(2) uuid_segment [of "CHR ''?''"] by simp
  ultimately show ?thesis
    using takeWhile_until [of "CHR ''?''" "pre @ ''/relay/ws/'' @ uuid_str (rc_node_id c)" "''token='' @ rc_token c"]
    by (simp add: socket_path_def)
qed

lemma one_socket:
  assumes "r \<in> set (app_routes x402)" and "rt_verb r = ''WS''"
  shows "rt_path r = ''/api/v1/relay/ws/{node_id}''"
proof -
  let ?P = "\<lambda>r. rt_verb r = ''WS'' \<longrightarrow> rt_path r = ''/api/v1/relay/ws/{node_id}''"
  have "list_all ?P (app_routes True)" by code_simp
  moreover have "list_all ?P (app_routes False)" by code_simp
  ultimately have "list_all ?P (app_routes x402)" by (cases x402) simp_all
  with assms show ?thesis by (simp add: list_all_iff)
qed

text \<open>The socket of a node that was given the URL of the API is handled by the relay endpoint with the
  identifier of that node; given the address of the gateway alone, which is what the \<^verbatim>\<open>register\<close> command
  takes, the upgrade is refused because no route has that path.\<close>

theorem relay_url_routed:
  shows "rc_server_url c = origin @ ''/api/v1'' \<Longrightarrow>
      resolve (app_routes x402) ''WS'' (socket_path origin c) = Handled RelaySocket [uuid_str (rc_node_id c)]"
    and "rc_server_url c = origin \<Longrightarrow> resolve (app_routes x402) ''WS'' (socket_path origin c) = Unrouted"
proof -
  let ?u = "uuid_str (rc_node_id c)"
  have u: "CHR ''/'' \<notin> set ?u" using uuid_segment [of "CHR ''/''"] by simp
  have ne: "?u \<noteq> ''''" using length_uuid_str [of "rc_node_id c"] by (auto simp del: length_uuid_str)
  show "resolve (app_routes x402) ''WS'' (socket_path origin c) = Handled RelaySocket [?u]"
    if "rc_server_url c = origin @ ''/api/v1''"
    by (rule in_table [where path = "''/api/v1/relay/ws/{node_id}''"])
      (simp add: route_tables, simp only: job_templates socket_path_eq [OF that],
        simp add: socket_path_eq [OF that] split_on_no_sep u ne)
  show "resolve (app_routes x402) ''WS'' (socket_path origin c) = Unrouted" if "rc_server_url c = origin"
  proof -
    have p: "socket_path origin c = ''/relay/ws/'' @ ?u" using socket_path_eq [of c origin "''''"] that by simp
    have "route_params r (''/relay/ws/'' @ ?u) = None" if "r \<in> set (app_routes x402)" "rt_verb r = ''WS''" for r
      using that one_socket by (simp add: route_params_def job_templates)
    then have "List.find (\<lambda>r. rt_verb r = ''WS'' \<and> route_params r (''/relay/ws/'' @ ?u) \<noteq> None) (app_routes x402) = None"
      by (auto simp: find_None_iff)
    then show ?thesis by (simp add: resolve_def p)
  qed
qed

text \<open>The fleet endpoints, which the documentation puts under \<^verbatim>\<open>/api/v1/fleet\<close>, are in no router that the
  application includes.\<close>

lemma fleet_not_routed: "resolve (app_routes x402) ''GET'' ''/api/v1/fleet'' = Unrouted"
  and fleet_router_alone: "resolve (include_router ''/api/v1'' fleet_router) ''GET'' ''/api/v1/fleet'' = Handled FleetNodes []"
proof -
  have "resolve (app_routes True) ''GET'' ''/api/v1/fleet'' = Unrouted" by code_simp
  moreover have "resolve (app_routes False) ''GET'' ''/api/v1/fleet'' = Unrouted" by code_simp
  ultimately show "resolve (app_routes x402) ''GET'' ''/api/v1/fleet'' = Unrouted" by (cases x402) simp_all
  show "resolve (include_router ''/api/v1'' fleet_router) ''GET'' ''/api/v1/fleet'' = Handled FleetNodes []"
    by code_simp
qed

end
