(* ===== verification/Edge_Process.thy ===== *)
theory Edge_Process
  imports Edge_Node
begin

text \<open>
  The tasks of an edge node, \<open>run_edge_node\<close> of \<^verbatim>\<open>edgekit/entrypoint.py\<close>: the main task, which waits for
  a signal and then shuts the node down, the task of the relay client's \<open>run()\<close>, and the health
  server. Each step is what one task does between two suspension points, or something the
  environment does; the tasks share the client object, so the order of the steps matters.

  \<open>create_task\<close> queues the first section of \<open>run()\<close> before a signal can be delivered, so a started
  process is one whose relay task is already connecting. The messages of a connection are the
  subject of \<^verbatim>\<open>Edge_Client\<close> and \<^verbatim>\<open>Edge_Relay\<close>; they do not change what is followed here.
\<close>

section \<open>The process\<close>

text \<open>Where the relay task and the main task are suspended.\<close>

datatype relay_pc = Connecting | Receiving nat | Sleeping | RelayDone

datatype main_pc = AwaitSignal | Closing nat | Gathering | Exited

record node_process =
  np_client :: relay_client
  np_registered :: bool
  np_start_time :: rat
  np_relay :: relay_pc
  np_backoff :: rat
  np_main :: main_pc
  np_signal :: bool
  np_should_exit :: bool
  np_server_done :: bool

definition set_relay_client :: "node_process \<Rightarrow> node_process" where
  "set_relay_client p = p\<lparr>np_registered := True\<rparr>"

definition get_relay_client :: "node_process \<Rightarrow> relay_client option" where
  "get_relay_client p = (if np_registered p then Some (np_client p) else None)"

definition reset_start_time :: "rat \<Rightarrow> node_process \<Rightarrow> node_process" where
  "reset_start_time now p = p\<lparr>np_start_time := now\<rparr>"

definition health_answer :: "rat \<Rightarrow> node_process \<Rightarrow> health_response" where
  "health_answer now p = health_check (get_relay_client p) (np_start_time p) now"

text \<open>Up to the first suspension of \<open>run_edge_node\<close>, and the first section of \<open>run()\<close>.\<close>

definition start_process ::
  "(json \<Rightarrow> string) \<Rightarrow> (json \<Rightarrow> string) \<Rightarrow> (json \<Rightarrow> string) \<Rightarrow> rat \<Rightarrow> rlimits \<Rightarrow> rat \<Rightarrow> (string \<rightharpoonup> string) \<Rightarrow> uuid \<Rightarrow>
   start_failure + node_process" where
  "start_process py_str py_repr dumps duration l now env fresh =
     (case parse_env env fresh of
        Inl x \<Rightarrow> Inl x
      | Inr ne \<Rightarrow>
          (case build_node py_str py_repr dumps duration l ne of
             Inl x \<Rightarrow> Inl (Unhandled_exc x)
           | Inr (c, cb, job_types) \<Rightarrow>
               Inr (set_relay_client
                 \<lparr>np_client = c\<lparr>rc_running := True\<rparr>, np_registered = False, np_start_time = now, np_relay = Connecting,
                  np_backoff = rc_initial_backoff c, np_main = AwaitSignal, np_signal = False,
                  np_should_exit = False, np_server_done = False\<rparr>)))"

text \<open>The handler of both signals.\<close>

definition signal_handler :: "node_process \<Rightarrow> node_process" where
  "signal_handler p = p\<lparr>np_signal := True\<rparr>"

section \<open>The relay task\<close>

definition turn_over :: "node_process \<Rightarrow> node_process" where
  "turn_over p =
     (let c = (np_client p)\<lparr>rc_connected := False, rc_ws := None, rc_live := False\<rparr>
      in p\<lparr>np_client := c, np_relay := (if rc_running c then Sleeping else RelayDone)\<rparr>)"

definition connected :: "nat \<Rightarrow> node_process \<Rightarrow> node_process" where
  "connected w p =
     p\<lparr>np_client := snd (client_connect (Some w) (np_client p)), np_backoff := rc_initial_backoff (np_client p),
       np_relay := Receiving w\<rparr>"

definition slept :: "node_process \<Rightarrow> node_process" where
  "slept p =
     p\<lparr>np_backoff := min (np_backoff p * rc_multiplier (np_client p)) (rc_max_backoff (np_client p)),
       np_relay := (if rc_running (np_client p) then Connecting else RelayDone)\<rparr>"

section \<open>The main task\<close>

text \<open>\<open>disconnect()\<close> is suspended in the closing handshake when there is a socket.\<close>

definition begin_shutdown :: "node_process \<Rightarrow> node_process" where
  "begin_shutdown p =
     (let c = (np_client p)\<lparr>rc_running := False, rc_connected := False\<rparr>
      in case rc_ws c of
           None \<Rightarrow> p\<lparr>np_client := c, np_should_exit := True, np_main := Gathering\<rparr>
         | Some w \<Rightarrow> p\<lparr>np_client := c, np_main := Closing w\<rparr>)"

definition socket_closed :: "node_process \<Rightarrow> node_process" where
  "socket_closed p =
     p\<lparr>np_client := (np_client p)\<lparr>rc_ws := None, rc_live := False\<rparr>, np_should_exit := True, np_main := Gathering\<rparr>"

text \<open>What happens in a step. \<open>PeerCloses\<close> is the end of a connection that this node did not close.\<close>

datatype node_event =
  Signal | ConnectOk nat | ConnectFails | PeerCloses | ClosedHere | WakeUp | MainResumes | HandshakeDone
  | ServerStops | TasksDone

inductive node_step :: "node_process \<Rightarrow> node_event \<Rightarrow> node_process \<Rightarrow> bool" where
  signal: "node_step p Signal (signal_handler p)"
| connect_ok: "np_relay p = Connecting \<Longrightarrow> node_step p (ConnectOk w) (connected w p)"
| connect_fails: "np_relay p = Connecting \<Longrightarrow> node_step p ConnectFails (turn_over p)"
| peer_closes: "np_relay p = Receiving w \<Longrightarrow> rc_live (np_client p) \<Longrightarrow> node_step p PeerCloses (turn_over p)"
| closed_here: "np_relay p = Receiving w \<Longrightarrow> np_main p = Closing w \<or> \<not> rc_live (np_client p) \<Longrightarrow>
    node_step p ClosedHere (turn_over p)"
| wake_up: "np_relay p = Sleeping \<Longrightarrow> node_step p WakeUp (slept p)"
| main_resumes: "np_main p = AwaitSignal \<Longrightarrow> np_signal p \<Longrightarrow> node_step p MainResumes (begin_shutdown p)"
| handshake_done: "np_main p = Closing w \<Longrightarrow> node_step p HandshakeDone (socket_closed p)"
| server_stops: "np_should_exit p \<Longrightarrow> \<not> np_server_done p \<Longrightarrow> node_step p ServerStops (p\<lparr>np_server_done := True\<rparr>)"
| tasks_done: "np_main p = Gathering \<Longrightarrow> np_relay p = RelayDone \<Longrightarrow> np_server_done p \<Longrightarrow>
    node_step p TasksDone (p\<lparr>np_main := Exited\<rparr>)"

inductive node_run :: "node_process \<Rightarrow> node_event list \<Rightarrow> node_process \<Rightarrow> bool" where
  here: "node_run p [] p"
| more: "node_run p es q \<Longrightarrow> node_step q e r \<Longrightarrow> node_run p (es @ [e]) r"

inductive_cases step_cases: "node_step p e q"
inductive_simps node_step_simps [simp]:
  "node_step p Signal q" "node_step p (ConnectOk w) q" "node_step p ConnectFails q" "node_step p PeerCloses q"
  "node_step p ClosedHere q" "node_step p WakeUp q" "node_step p MainResumes q" "node_step p HandshakeDone q"
  "node_step p ServerStops q" "node_step p TasksDone q"

lemmas task_defs = signal_handler_def turn_over_def connected_def slept_def begin_shutdown_def socket_closed_def
  client_connect_def Let_def

section \<open>Invariant\<close>

fun relay_inv :: "relay_pc \<Rightarrow> node_process \<Rightarrow> bool" where
  "relay_inv (Receiving w) p =
     (if rc_live (np_client p) then rc_ws (np_client p) = Some w else rc_ws (np_client p) = None \<and> \<not> rc_connected (np_client p))"
| "relay_inv pc p = (rc_ws (np_client p) = None \<and> \<not> rc_connected (np_client p) \<and> \<not> rc_live (np_client p))"

fun main_inv :: "main_pc \<Rightarrow> node_process \<Rightarrow> bool" where
  "main_inv AwaitSignal p =
     (rc_running (np_client p) \<and> \<not> np_should_exit p \<and> np_relay p \<noteq> RelayDone \<and> \<not> np_server_done p \<and>
      (case np_relay p of Receiving w \<Rightarrow> rc_live (np_client p) | _ \<Rightarrow> True))"
| "main_inv (Closing w) p =
     (\<not> rc_running (np_client p) \<and> np_signal p \<and> \<not> rc_connected (np_client p) \<and> \<not> np_server_done p \<and> \<not> np_should_exit p \<and>
      (np_relay p = Receiving w \<and> rc_live (np_client p) \<or> np_relay p = RelayDone))"
| "main_inv Gathering p = (\<not> rc_running (np_client p) \<and> np_signal p \<and> np_should_exit p)"
| "main_inv Exited p = (\<not> rc_running (np_client p) \<and> np_signal p \<and> np_should_exit p \<and> np_relay p = RelayDone \<and> np_server_done p)"

definition node_inv :: "node_process \<Rightarrow> bool" where
  "node_inv p \<longleftrightarrow> np_registered p \<and> relay_inv (np_relay p) p \<and> main_inv (np_main p) p"

lemma node_inv_start:
  assumes "start_process py_str py_repr dumps duration l now env fresh = Inr p"
  shows "node_inv p \<and> np_main p = AwaitSignal \<and> np_relay p = Connecting \<and> \<not> np_signal p"
  using assms
  by (auto simp: start_process_def node_inv_def set_relay_client_def build_node_def build_relay_client_def
      default_relay_client_def new_relay_client_def err_bind_Inr split: sum.splits elim!: err_bind.elims)

lemma node_inv_step: "node_step p e q \<Longrightarrow> node_inv p \<Longrightarrow> node_inv q"
proof (induction rule: node_step.induct)
  case (wake_up p)
  then show ?case by (cases "np_main p") (auto simp: node_inv_def task_defs)
next
  case (main_resumes p)
  then show ?case by (cases "np_relay p") (auto simp: node_inv_def task_defs)
next
  case (connect_ok p w)
  then show ?case by (cases "np_main p") (auto simp: node_inv_def task_defs)
next
  case (connect_fails p)
  then show ?case by (cases "np_main p") (auto simp: node_inv_def task_defs)
next
  case (peer_closes p w)
  then show ?case by (cases "np_main p") (auto simp: node_inv_def task_defs)
next
  case (closed_here p w)
  then show ?case by (cases "np_main p") (auto simp: node_inv_def task_defs)
next
  case (handshake_done p w)
  then show ?case by (cases "np_relay p") (auto simp: node_inv_def task_defs)
next
  case (signal p)
  then show ?case by (cases "np_main p"; cases "np_relay p") (auto simp: node_inv_def task_defs)
next
  case (server_stops p)
  then show ?case by (cases "np_main p"; cases "np_relay p") (auto simp: node_inv_def)
next
  case (tasks_done p)
  then show ?case by (auto simp: node_inv_def)
qed

interpretation tasks: step_invariant
    "\<lambda>p. \<exists>py_str py_repr dumps duration l now env fresh. start_process py_str py_repr dumps duration l now env fresh = Inr p"
    "\<lambda>p q. \<exists>e. node_step p e q" node_inv
  by unfold_locales (auto dest: node_inv_start node_inv_step)

lemma node_run_steps: "node_run p es q \<Longrightarrow> (\<lambda>p q. \<exists>e. node_step p e q)\<^sup>*\<^sup>* p q"
  by (induction rule: node_run.induct) (auto intro: rtranclp.rtrancl_into_rtrancl)

lemma node_inv_run: "node_run p es q \<Longrightarrow> node_inv p \<Longrightarrow> node_inv q"
  by (rule tasks.inv_steps [OF node_run_steps])

lemma run_signal: "node_run p es q \<Longrightarrow> \<not> np_signal p \<Longrightarrow> np_signal q \<longleftrightarrow> Signal \<in> set es"
proof (induction rule: node_run.induct)
  case (more p es q e r)
  then show ?case by (auto elim!: step_cases simp: task_defs split: option.splits)
qed simp


section \<open>Properties\<close>

lemma run_Cons:
  assumes "node_step p e q" and "node_run q es r"
  shows "node_run p (e # es) r"
  using assms(2,1)
proof (induction rule: node_run.induct)
  case (here q)
  then show ?case using node_run.more [OF node_run.here] by fastforce
next
  case (more q es s f r)
  then show ?case using node_run.more [of p "e # es" s f r] by simp
qed

text \<open>A started node, and its complete run: it connects, is told to stop, and stops.\<close>

abbreviation demo_start :: "start_failure + node_process" where
  "demo_start \<equiv> start_process (\<lambda>_. []) (\<lambda>_. []) (\<lambda>_. []) 0 \<lparr>rl_as = (None, None), rl_cpu = (None, None)\<rparr> 0 demo_env 9"

lemma demo_starts: "\<exists>p. demo_start = Inr p"
  using node_builds [OF demo_env_parses, of "\<lambda>_. []" "\<lambda>_. []" "\<lambda>_. []" 0 "\<lparr>rl_as = (None, None), rl_cpu = (None, None)\<rparr>" 0 0]
  by (auto simp: start_process_def demo_env_parses)

lemma demo_run:
  assumes "node_inv p" and "np_main p = AwaitSignal" and "np_relay p = Connecting"
  shows "\<exists>q r s. node_run p [ConnectOk 5, Signal] q \<and> np_relay q = Receiving 5 \<and> node_step q MainResumes r \<and>
    node_run r [HandshakeDone, ClosedHere, ServerStops, TasksDone] s \<and> np_main s = Exited \<and>
    node_run p [ConnectOk 5, Signal, MainResumes, HandshakeDone, ClosedHere, ServerStops, TasksDone] s"
proof -
  let ?q = "signal_handler (connected 5 p)"
  let ?r = "begin_shutdown ?q"
  let ?t = "turn_over (socket_closed ?r)"
  let ?s = "?t\<lparr>np_server_done := True, np_main := Exited\<rparr>"
  have d: "\<not> np_server_done p" using assms by (simp add: node_inv_def)
  have end4: "node_run ?r [HandshakeDone, ClosedHere, ServerStops, TasksDone] ?s"
    by (rule run_Cons, rule handshake_done [where w = 5], simp add: task_defs,
        rule run_Cons, rule closed_here [where w = 5], simp add: task_defs, simp add: task_defs,
        rule run_Cons, rule server_stops, simp add: task_defs, simp add: task_defs d,
        rule run_Cons, rule tasks_done, simp add: task_defs, simp add: task_defs, simp, simp add: node_run.here)
  have m: "node_step ?q MainResumes ?r" by (simp add: task_defs assms)
  have b: "node_run p [ConnectOk 5, Signal] ?q"
    by (rule run_Cons, rule connect_ok, rule assms, rule run_Cons, rule signal, rule node_run.here)
  have "node_run p (ConnectOk 5 # Signal # MainResumes # [HandshakeDone, ClosedHere, ServerStops, TasksDone]) ?s"
    by (rule run_Cons, rule connect_ok, rule assms, rule run_Cons, rule signal, rule run_Cons [OF m end4])
  moreover have "np_relay ?q = Receiving 5" by (simp add: task_defs)
  ultimately show ?thesis using b m end4 by (intro exI conjI) simp_all
qed

text \<open>A node process ends only by a shutdown. In every run from a start, the relay task never ends and
  the process never exits before a signal has come, however often the gateway refuses or drops the
  connection; a process that has exited has closed its connection and ended both tasks; and the
  health endpoint reports a connection exactly while one is open and no shutdown has begun, unless the
  shutdown began while it was being made.\<close>

theorem node_exits_on_signal:
  assumes "start_process py_str py_repr dumps duration l now env fresh = Inr p" and "node_run p es q"
  shows "(np_relay q = RelayDone \<or> np_main q \<noteq> AwaitSignal \<longrightarrow> Signal \<in> set es) \<and>
    (np_main q = Exited \<longrightarrow> np_relay q = RelayDone \<and> np_server_done q \<and> rc_ws (np_client q) = None \<and>
       \<not> rc_live (np_client q)) \<and>
    (he_connected (health_answer t q) \<longrightarrow> (\<exists>w. np_relay q = Receiving w \<and> rc_ws (np_client q) = Some w))"
proof -
  from node_inv_start [OF assms(1)] have p: "node_inv p" "\<not> np_signal p" by simp_all
  have inv: "node_inv q" using node_inv_run [OF assms(2) p(1)] .
  have sig: "np_signal q \<longleftrightarrow> Signal \<in> set es" using run_signal [OF assms(2) p(2)] .
  have "np_relay q = RelayDone \<or> np_main q \<noteq> AwaitSignal \<longrightarrow> np_signal q"
    using inv by (cases "np_main q") (auto simp: node_inv_def)
  moreover have "np_main q = Exited \<longrightarrow> np_relay q = RelayDone \<and> np_server_done q \<and> rc_ws (np_client q) = None \<and>
      \<not> rc_live (np_client q)"
    using inv by (auto simp: node_inv_def)
  moreover have "he_connected (health_answer t q) \<longrightarrow> (\<exists>w. np_relay q = Receiving w \<and> rc_ws (np_client q) = Some w)"
    using inv by (cases "np_relay q")
      (auto simp: node_inv_def health_answer_def health_check_def get_relay_client_def split: if_splits)
  ultimately show ?thesis using sig by blast
qed

text \<open>A measure of what is left to do, and the states of a shutdown that cannot connect any more.\<close>

fun relay_left :: "relay_pc \<Rightarrow> nat" where
  "relay_left RelayDone = 0"
| "relay_left _ = 1"

fun main_left :: "main_pc \<Rightarrow> nat" where
  "main_left Exited = 0"
| "main_left Gathering = 1"
| "main_left (Closing w) = 2"
| "main_left AwaitSignal = 3"

definition work_left :: "node_process \<Rightarrow> nat" where
  "work_left p = relay_left (np_relay p) + main_left (np_main p) + (if np_server_done p then 0 else 1)"

definition draining :: "node_process \<Rightarrow> bool" where
  "draining p \<longleftrightarrow> node_inv p \<and> np_main p \<noteq> AwaitSignal \<and> np_relay p \<noteq> Connecting \<and>
     (rc_live (np_client p) \<longrightarrow> (\<exists>w. np_main p = Closing w))"

lemma draining_step:
  assumes "node_step p e q" and "draining p" and "e \<noteq> Signal"
  shows "draining q \<and> work_left q < work_left p \<and> (\<forall>w. e \<noteq> ConnectOk w)"
proof -
  have q: "node_inv q" using assms(1,2) node_inv_step by (simp add: draining_def)
  have p: "main_inv (np_main p) p" "relay_inv (np_relay p) p" "np_main p \<noteq> AwaitSignal" "np_relay p \<noteq> Connecting"
    "rc_live (np_client p) \<longrightarrow> (\<exists>w. np_main p = Closing w)"
    using assms(2) by (simp_all add: draining_def node_inv_def)
  have nr: "\<not> rc_running (np_client p)" using p(1,3) by (cases "np_main p") auto
  from assms(1) show ?thesis
  proof (cases rule: node_step.cases)
    case (handshake_done w)
    then show ?thesis using q p nr by (simp add: draining_def work_left_def socket_closed_def)
  next
    case wake_up
    then show ?thesis using q p nr by (simp add: draining_def work_left_def slept_def)
  next
    case (peer_closes w)
    then show ?thesis using q p nr by (simp add: draining_def work_left_def turn_over_def Let_def)
  next
    case (closed_here w)
    then show ?thesis using q p nr by (simp add: draining_def work_left_def turn_over_def Let_def)
  qed (use q p nr assms(3) in \<open>simp_all add: draining_def work_left_def\<close>)
qed

lemma draining_progress:
  assumes "draining p" and "np_main p \<noteq> Exited"
  shows "\<exists>e q. e \<noteq> Signal \<and> node_step p e q"
proof (cases "np_main p")
  case Gathering
  then have i: "np_should_exit p" "\<not> rc_live (np_client p)" "np_relay p \<noteq> Connecting"
    using assms by (auto simp: draining_def node_inv_def)
  consider w where "np_relay p = Receiving w" | "np_relay p = Sleeping" | "np_relay p = RelayDone"
    using i(3) by (cases "np_relay p") auto
  then show ?thesis
  proof cases
    case 1 then show ?thesis using i by (intro exI [of _ ClosedHere] exI [of _ "turn_over p"]) auto
  next
    case 2 then show ?thesis by (intro exI [of _ WakeUp] exI [of _ "slept p"]) auto
  next
    case 3
    show ?thesis
    proof (cases "np_server_done p")
      case True
      with 3 Gathering show ?thesis by (intro exI [of _ TasksDone] exI [of _ "p\<lparr>np_main := Exited\<rparr>"]) auto
    next
      case False
      with i show ?thesis by (intro exI [of _ ServerStops] exI [of _ "p\<lparr>np_server_done := True\<rparr>"]) auto
    qed
  qed
next
  case (Closing w)
  then show ?thesis by (intro exI [of _ HandshakeDone] exI [of _ "socket_closed p"]) auto
qed (use assms in \<open>auto simp: draining_def\<close>)

lemma draining_run: "node_run p es q \<Longrightarrow> draining p \<Longrightarrow> Signal \<notin> set es \<Longrightarrow>
    draining q \<and> length es + work_left q \<le> work_left p \<and> (\<forall>w. ConnectOk w \<notin> set es)"
proof (induction rule: node_run.induct)
  case (more p es q e r)
  then show ?case using draining_step [of q e r] by fastforce
qed simp

text \<open>C40: A shutdown that finds the node connected or between two attempts completes. From the moment the
  main task resumes after the signal, every run is at most four steps long, in none of them does
  the node connect again, and a run that cannot go on has left the process exited.\<close>

theorem node_shutdown_completes:
  assumes "start_process py_str py_repr dumps duration l now env fresh = Inr p" and "node_run p es q"
    and "np_relay q \<noteq> Connecting" and "node_step q MainResumes q'"
    and "node_run q' fs r" and "Signal \<notin> set fs"
  shows "length fs \<le> 4 \<and> (\<forall>w. ConnectOk w \<notin> set fs) \<and>
    ((\<forall>e r'. node_step r e r' \<longrightarrow> e = Signal) \<longrightarrow> np_main r = Exited)"
proof -
  have inv: "node_inv q" using node_inv_run [OF assms(2)] node_inv_start [OF assms(1)] by blast
  have d: "draining q' \<and> work_left q' \<le> 4"
    using inv node_inv_step [OF assms(4) inv] assms(3,4)
    by (cases "np_relay q") (auto simp: draining_def node_inv_def task_defs work_left_def split: option.splits)
  from draining_run [OF assms(5) conjunct1 [OF d] assms(6)] d
  show ?thesis using draining_progress [of r] by fastforce
qed

text \<open>A signal that arrives while the node is connecting does not close the connection that is being
  made: \<open>disconnect()\<close> finds no socket, the attempt then succeeds, and \<open>_receive_loop\<close> does not look at
  \<open>_running\<close>. The node stays connected, says so on its health endpoint, and does not exit in any
  further run in which the gateway does not close the connection.\<close>

theorem shutdown_misses_connection:
  assumes "start_process py_str py_repr dumps duration l now env fresh = Inr p" and "node_run p es q"
    and "np_main q = AwaitSignal" and "np_relay q = Connecting"
  shows "\<exists>r. node_run q [Signal, MainResumes, ConnectOk w] r \<and>
    (\<forall>fs r'. node_run r fs r' \<and> PeerCloses \<notin> set fs \<longrightarrow> np_main r' = Gathering \<and> np_relay r' = Receiving w \<and>
       he_connected (health_answer t r'))"
proof -
  have inv: "node_inv q" using node_inv_run [OF assms(2)] node_inv_start [OF assms(1)] by blast
  let ?r = "connected w (begin_shutdown (signal_handler q))"
  let ?stuck = "\<lambda>s. np_registered s \<and> np_main s = Gathering \<and> np_relay s = Receiving w \<and> rc_live (np_client s) \<and>
      rc_connected (np_client s)"
  have n: "rc_ws (np_client q) = None" "np_registered q" using inv assms(4) by (auto simp: node_inv_def)
  have "node_run q ([] @ [Signal]) (signal_handler q)" by (rule node_run.intros)+ simp
  then have "node_run q (([] @ [Signal]) @ [MainResumes]) (begin_shutdown (signal_handler q))"
    by (rule node_run.more) (simp add: assms(3) task_defs)
  then have "node_run q ((([] @ [Signal]) @ [MainResumes]) @ [ConnectOk w]) ?r"
    by (rule node_run.more) (simp add: assms(4) n task_defs)
  moreover have "?stuck r'" if "node_run s fs r'" "?stuck s" "PeerCloses \<notin> set fs" for s fs r'
    using that
  proof (induction rule: node_run.induct)
    case (more p es q e r)
    then show ?case by (auto elim!: step_cases simp: signal_handler_def)
  qed simp
  moreover have "?stuck ?r" using n by (simp add: task_defs assms(4))
  ultimately show ?thesis
    by (intro exI [of _ ?r]) (auto simp: health_answer_def health_check_def get_relay_client_def)
qed

theorem node_exits_on_signal_witness:
  "\<exists>p q. demo_start = Inr p \<and>
    node_run p [ConnectOk 5, Signal, MainResumes, HandshakeDone, ClosedHere, ServerStops, TasksDone] q \<and>
    np_main q = Exited \<and> rc_ws (np_client q) = None \<and> \<not> he_connected (health_answer 3 q)"
proof -
  obtain p where p: "demo_start = Inr p" using demo_starts ..
  from demo_run [of p] node_inv_start [OF p] obtain q where
    q: "node_run p [ConnectOk 5, Signal, MainResumes, HandshakeDone, ClosedHere, ServerStops, TasksDone] q" "np_main q = Exited"
    by blast
  from node_exits_on_signal [OF p q(1), of 3] q(2) have "rc_ws (np_client q) = None" "\<not> he_connected (health_answer 3 q)"
    by auto
  with p q show ?thesis by blast
qed

theorem node_shutdown_completes_witness:
  "\<exists>p q r s. demo_start = Inr p \<and> node_run p [ConnectOk 5, Signal] q \<and> node_step q MainResumes r \<and>
    node_run r [HandshakeDone, ClosedHere, ServerStops, TasksDone] s \<and>
    length [HandshakeDone, ClosedHere, ServerStops, TasksDone] \<le> 4 \<and> np_main s = Exited"
proof -
  obtain p where p: "demo_start = Inr p" using demo_starts ..
  from demo_run [of p] node_inv_start [OF p] obtain q r s where
    q: "node_run p [ConnectOk 5, Signal] q" "np_relay q = Receiving 5" "node_step q MainResumes r"
      "node_run r [HandshakeDone, ClosedHere, ServerStops, TasksDone] s" "np_main s = Exited"
    by blast
  from node_shutdown_completes [OF p q(1) _ q(3) q(4)] q(2)
  have "length [HandshakeDone, ClosedHere, ServerStops, TasksDone] \<le> 4" by auto
  with p q show ?thesis by blast
qed

theorem shutdown_misses_connection_witness:
  "\<exists>p r. demo_start = Inr p \<and> node_run p [Signal, MainResumes, ConnectOk 5] r \<and> np_main r = Gathering \<and>
    he_connected (health_answer 3 r)"
proof -
  obtain p where p: "demo_start = Inr p" using demo_starts ..
  from shutdown_misses_connection [OF p node_run.here, of 5 3] node_inv_start [OF p] show ?thesis
    using p node_run.here by fastforce
qed

end
