(* ===== verification/Legacy.thy ===== *)
theory Legacy
  imports Auth
begin

text \<open>
  The services that still run beside the main application: the usage webhook and its ledger
  (\<^verbatim>\<open>core/billing/webhook.py\<close>, \<^verbatim>\<open>core/billing/stripe/ledger/credit.py\<close>), the monthly invoices
  (\<^verbatim>\<open>core/billing/invoice/\<close>), the token rotator (\<^verbatim>\<open>core/ledger/vault/token_rotator.py\<close>), the fleet
  gateway (\<^verbatim>\<open>edgekit/poller/core/fleet_gateway.py\<close>), the fleet page
  (\<^verbatim>\<open>core/gateway/web/ui/routes/fleet.py\<close>), the CPU filter and the relay stub of the load test.

  The module \<open>db\<close> that the first two import is not in the repository: its two tables are lists of
  rows with the columns the code writes, and the column \<open>gross_usd\<close> that it computes is the parameter
  \<open>gross\<close>. Float arithmetic is exact. The template, the PDF writer and the presigned link are
  parameters.
\<close>

section \<open>The usage webhook\<close>

record usage_event =
  ue_event_id :: json
  ue_module_id :: json
  ue_creator_id :: json
  ue_units :: json
  ue_unit_price_usd :: json

record ledger_row =
  lr_account :: json
  lr_delta :: rat

record legacy_db =
  ld_events :: "usage_event list"
  ld_ledger :: "ledger_row list"

definition platform_fee :: rat where
  "platform_fee = 15 / 100"

definition fee_threshold :: rat where
  "fee_threshold = 1000"

definition event_of :: "json \<Rightarrow> py_exc + usage_event" where
  "event_of payload =
     err_bind (get_item ''eventId'' payload) (\<lambda>eid.
     err_bind (get_item ''moduleId'' payload) (\<lambda>m.
     err_bind (get_item ''creatorId'' payload) (\<lambda>c.
     err_bind (get_item ''units'' payload) (\<lambda>u.
     err_bind (get_item ''unitPriceUsd'' payload) (\<lambda>p.
       Inr \<lparr>ue_event_id = eid, ue_module_id = m, ue_creator_id = c, ue_units = u, ue_unit_price_usd = p\<rparr>)))))"

definition module_sales :: "(usage_event \<Rightarrow> rat) \<Rightarrow> json \<Rightarrow> usage_event list \<Rightarrow> rat" where
  "module_sales gross m es = sum_list (map gross (filter (\<lambda>e. ue_module_id e = m) es))"

definition usage_rows :: "(json \<Rightarrow> string) \<Rightarrow> usage_event \<Rightarrow> rat \<Rightarrow> rat \<Rightarrow> ledger_row list" where
  "usage_rows py_str ue gross fee =
     [\<lparr>lr_account = ue_creator_id ue, lr_delta = - gross\<rparr>,
      \<lparr>lr_account = JStr (''module:'' @ str_of py_str (ue_module_id ue)), lr_delta = gross - fee\<rparr>,
      \<lparr>lr_account = JStr ''wtfb_platform'', lr_delta = fee\<rparr>]"

definition usage_webhook ::
  "(json \<Rightarrow> string) \<Rightarrow> (usage_event \<Rightarrow> rat) \<Rightarrow> json \<Rightarrow> legacy_db \<Rightarrow> (py_exc + string) \<times> legacy_db" where
  "usage_webhook py_str gross payload db =
     (case get_item ''eventId'' payload of
        Inl x \<Rightarrow> (Inl x, db)
      | Inr eid \<Rightarrow>
          if list_ex (\<lambda>e. ue_event_id e = eid) (ld_events db) then (Inr ''ignored'', db)
          else (case event_of payload of
                  Inl x \<Rightarrow> (Inl x, db)
                | Inr ue \<Rightarrow>
                    let events = ld_events db @ [ue];
                        total_sales = module_sales gross (ue_module_id ue) events;
                        fee_rate = (if total_sales < fee_threshold then 0 else platform_fee);
                        fee = gross ue * fee_rate
                    in (Inr ''ok'', \<lparr>ld_events = events, ld_ledger = ld_ledger db @ usage_rows py_str ue (gross ue) fee\<rparr>)))"

definition credit :: "json \<Rightarrow> rat \<Rightarrow> legacy_db \<Rightarrow> legacy_db" where
  "credit creator_id amount db =
     db\<lparr>ld_ledger := ld_ledger db @ [\<lparr>lr_account = creator_id, lr_delta = amount\<rparr>]\<rparr>"

definition account_sum :: "json \<Rightarrow> ledger_row list \<Rightarrow> rat" where
  "account_sum a rows = sum_list (map lr_delta (filter (\<lambda>r. lr_account r = a) rows))"

definition usage_inv :: "legacy_db \<Rightarrow> bool" where
  "usage_inv db \<longleftrightarrow> distinct (map ue_event_id (ld_events db)) \<and> length (ld_ledger db) = 3 * length (ld_events db) \<and>
     sum_list (map lr_delta (ld_ledger db)) = 0"

lemma event_id_of: "event_of payload = Inr ue \<Longrightarrow> get_item ''eventId'' payload = Inr (ue_event_id ue)"
  by (auto simp: event_of_def err_bind_Inr)

lemma usage_inv_step: "usage_inv db \<Longrightarrow> usage_inv (snd (usage_webhook py_str gross payload db))"
  by (auto simp: usage_webhook_def usage_inv_def usage_rows_def list_ex_iff Let_def dest!: event_id_of split: sum.splits)

fun usage_calls :: "(json \<Rightarrow> string) \<Rightarrow> (usage_event \<Rightarrow> rat) \<Rightarrow> json list \<Rightarrow> legacy_db \<Rightarrow> legacy_db" where
  "usage_calls py_str gross [] db = db"
| "usage_calls py_str gross (p # ps) db = usage_calls py_str gross ps (snd (usage_webhook py_str gross p db))"

interpretation usage_inv: step_invariant "\<lambda>db. db = \<lparr>ld_events = [], ld_ledger = []\<rparr>"
    "\<lambda>db db'. \<exists>payload. db' = snd (usage_webhook py_str gross payload db)" usage_inv
  for py_str gross
  by unfold_locales (auto simp: usage_inv_step, simp add: usage_inv_def)

lemma usage_calls_steps:
  "(\<lambda>db db'. \<exists>payload. db' = snd (usage_webhook py_str gross payload db))\<^sup>*\<^sup>* db (usage_calls py_str gross ps db)"
proof (induction ps arbitrary: db)
  case (Cons p ps)
  then show ?case
    by (auto intro!: converse_rtranclp_into_rtranclp [of _ db "snd (usage_webhook py_str gross p db)"])
qed simp

interpretation usage: idempotent_posting "usage_webhook py_str gross" "json_get ''eventId''" "\<lambda>_. True"
    "\<lambda>db k. k \<in> Some ` ue_event_id ` set (ld_events db)" "\<lambda>_. True"
  for py_str gross
proof
  fix payload db e db'
  assume call: "usage_webhook py_str gross payload db = (Inr e, db')"
  from call obtain eid where eid: "get_item ''eventId'' payload = Inr eid"
    by (auto simp: usage_webhook_def split: sum.splits)
  then have k: "json_get ''eventId'' payload = Some eid"
    by (cases payload) (auto simp: get_item_def split: option.splits)
  show "json_get ''eventId'' payload \<in> Some ` ue_event_id ` set (ld_events db')"
    using call eid by (auto simp: k usage_webhook_def list_ex_iff Let_def dest!: event_id_of split: if_splits sum.splits)
  show "k \<in> Some ` ue_event_id ` set (ld_events db')" if "k \<in> Some ` ue_event_id ` set (ld_events db)" for k
    using call that by (auto simp: usage_webhook_def Let_def split: if_splits sum.splits)
next
  fix db :: legacy_db and payload :: json
  assume "json_get ''eventId'' payload \<in> Some ` ue_event_id ` set (ld_events db)"
  then obtain e where e: "e \<in> set (ld_events db)" "json_get ''eventId'' payload = Some (ue_event_id e)" by auto
  then have "get_item ''eventId'' payload = Inr (ue_event_id e)"
    by (cases payload) (auto simp: get_item_def)
  with e(1) show "\<exists>r. usage_webhook py_str gross payload db = (Inr r, db)"
    by (auto simp: usage_webhook_def list_ex_iff)
qed simp_all

text \<open>A delivered batch may be delivered again, whole or in part and in any order: nothing changes.\<close>

lemma usage_batch_again:
  assumes "post_all (usage_webhook py_str gross) ps db = (Inr rs, db')" and "json_get ''eventId'' ` set qs \<subseteq> json_get ''eventId'' ` set ps"
  shows "\<exists>rs'. post_all (usage_webhook py_str gross) qs db' = (Inr rs', db')"
  using usage.post_all_twice [OF TrueI assms(1)] assms(2) by (simp add: image_subset_iff)

text \<open>The usage ledger is double entry. Over any sequence of webhook calls, bad and repeated ones
  included, every event identifier is booked once, with three rows; the deltas add up to zero, so
  what the creators are charged is what the modules and the platform receive; and a call that
  repeats an identifier changes nothing, whatever else it carries.\<close>

theorem usage_ledger_balanced:
  "let db = usage_calls py_str gross ps \<lparr>ld_events = [], ld_ledger = []\<rparr>
   in distinct (map ue_event_id (ld_events db)) \<and> length (ld_ledger db) = 3 * length (ld_events db) \<and>
      sum_list (map lr_delta (ld_ledger db)) = 0 \<and>
      list_all (\<lambda>e. \<forall>kvs. json_get ''eventId'' (JObj kvs) \<noteq> Some (ue_event_id e) \<or>
        usage_webhook py_str gross (JObj kvs) db = (Inr ''ignored'', db)) (ld_events db)"
proof -
  let ?db = "usage_calls py_str gross ps \<lparr>ld_events = [], ld_ledger = []\<rparr>"
  have "usage_inv ?db" by (rule usage_inv.inv_reachable [OF refl usage_calls_steps])
  moreover have "usage_webhook py_str gross (JObj kvs) ?db = (Inr ''ignored'', ?db)"
    if "e \<in> set (ld_events ?db)" "json_get ''eventId'' (JObj kvs) = Some (ue_event_id e)" for e kvs
  proof -
    have "get_item ''eventId'' (JObj kvs) = Inr (ue_event_id e)" using that(2) by (simp add: get_item_def del: json_get.simps)
    with that(1) show ?thesis by (auto simp: usage_webhook_def list_ex_iff)
  qed
  ultimately show ?thesis unfolding Let_def usage_inv_def list_all_iff by blast
qed

section \<open>Monthly invoices\<close>

text \<open>\<open>PERIOD\<close> is computed when the module is imported; the rows are those of the month before the day on
  which the query runs. A row of \<open>ledger_entries\<close> is its account, the date of \<open>created_at\<close> and its delta.\<close>

record ledger_activity =
  la_account :: string
  la_created :: date
  la_delta :: rat

definition previous_month :: "date \<Rightarrow> nat \<times> nat" where
  "previous_month d = (if d_month d = 1 then (d_year d - 1, 12) else (d_year d, d_month d - 1))"

definition period_day :: "date \<Rightarrow> date" where
  "period_day today =
     (case previous_month today of (y, m) \<Rightarrow> \<lparr>d_year = y, d_month = m, d_day = days_in_month y m\<rparr>)"

definition month_names :: "string list" where
  "month_names = [''January'', ''February'', ''March'', ''April'', ''May'', ''June'', ''July'', ''August'',
     ''September'', ''October'', ''November'', ''December'']"

definition invoice_period :: "date \<Rightarrow> string" where
  "invoice_period today = month_names ! (d_month (period_day today) - 1) @ '' '' @ show_nat (d_year (period_day today))"

record invoice =
  iv_account :: string
  iv_items :: "(date \<times> string \<times> rat) list"
  iv_total :: rat
  iv_period :: string

type_synonym object_store = "string \<times> string \<rightharpoonup> bytes"

definition month_activity :: "date \<Rightarrow> string \<Rightarrow> ledger_activity list \<Rightarrow> ledger_activity list" where
  "month_activity today account_id rows =
     filter (\<lambda>r. la_account r = account_id \<and> (d_year (la_created r), d_month (la_created r)) = previous_month today) rows"

definition build_invoice :: "date \<Rightarrow> date \<Rightarrow> string \<Rightarrow> ledger_activity list \<Rightarrow> invoice" where
  "build_invoice import_day today account_id rows =
     (let items = map (\<lambda>r. (la_created r, ''Ledger activity'', la_delta r)) (month_activity today account_id rows)
      in \<lparr>iv_account = account_id, iv_items = items, iv_total = sum_list (map (snd \<circ> snd) items),
          iv_period = invoice_period import_day\<rparr>)"

definition invoice_key :: "string \<Rightarrow> string \<Rightarrow> string" where
  "invoice_key account_id period =
     ''invoices/'' @ account_id @ ''/'' @ map (\<lambda>c. if c = CHR '' '' then CHR ''_'' else c) period @ ''.pdf''"

definition build ::
  "(invoice \<Rightarrow> bytes) \<Rightarrow> (string \<Rightarrow> string) \<Rightarrow> date \<Rightarrow> date \<Rightarrow> string \<Rightarrow> ledger_activity list \<Rightarrow> object_store \<Rightarrow>
   (string \<times> rat) \<times> object_store" where
  "build pdf presign import_day today account_id rows s3 =
     (let iv = build_invoice import_day today account_id rows; key = invoice_key account_id (iv_period iv)
      in ((presign key, iv_total iv), s3((''wtfb-invoices'', key) \<mapsto> pdf iv)))"

record invoice_mail =
  im_to :: string
  im_subject :: string
  im_total :: rat
  im_url :: string

fun send_invoices ::
  "(invoice \<Rightarrow> bytes) \<Rightarrow> (string \<Rightarrow> string) \<Rightarrow> date \<Rightarrow> date \<Rightarrow> (string \<times> string) list \<Rightarrow> ledger_activity list \<Rightarrow>
   invoice_mail list \<times> object_store \<Rightarrow> invoice_mail list \<times> object_store" where
  "send_invoices pdf presign import_day today [] rows st = st"
| "send_invoices pdf presign import_day today ((creator, email) # cs) rows (mails, s3) =
     (case build pdf presign import_day today creator rows s3 of
        ((url, due), s3') \<Rightarrow>
          send_invoices pdf presign import_day today cs rows
            (mails @ [\<lparr>im_to = email, im_subject = ''WTFB Invoice '' @ invoice_period import_day, im_total = due, im_url = url\<rparr>], s3'))"

lemma period_is_day_before:
  assumes "valid_date d" and "1 < d_year d"
  shows "toordinal (period_day d) = toordinal (d\<lparr>d_day := 1\<rparr>) - 1"
proof (cases "d_month d = 1")
  case True
  obtain y where y: "d_year d = Suc y" "1 \<le> y" using assms(2) by (cases "d_year d") auto
  have sum12: "int (days_before_month y 12) + int (days_in_month y 12) = (if leap y then 366 else 365)"
    by (simp add: numeral_eq_Suc days_in_month_def)
  have step: "days_before_year (Suc y) = days_before_year y + (if leap y then 366 else 365)"
  proof -
    obtain z where z: "y = Suc z" using y(2) by (cases y) auto
    have d: "int y div int k = int z div int k + (if k dvd y then 1 else 0)" for k
    proof -
      have "int y div int k = int (Suc z div k)" "int z div int k = int (z div k)" by (simp_all add: z zdiv_int)
      then show ?thesis by (simp add: div_Suc dvd_eq_mod_eq_0 z)
    qed
    have dv: "100 dvd y \<Longrightarrow> 4 dvd y" "400 dvd y \<Longrightarrow> 100 dvd y"
      by (rule dvd_trans [rotated], assumption, simp)+
    have "days_before_year (Suc y) = int y * 365 + int y div 4 - int y div 100 + int y div 400"
      by (simp add: days_before_year_def Let_def)
    moreover have "days_before_year y = int z * 365 + int z div 4 - int z div 100 + int z div 400"
      by (simp add: days_before_year_def Let_def z)
    moreover have "int y = int z + 1" using z by simp
    moreover have "int y div 4 = int z div 4 + (if 4 dvd y then 1 else 0)"
      "int y div 100 = int z div 100 + (if 100 dvd y then 1 else 0)"
      "int y div 400 = int z div 400 + (if 400 dvd y then 1 else 0)"
      using d [of 4] d [of 100] d [of 400] by simp_all
    ultimately have "days_before_year (Suc y) - days_before_year y =
        365 + (if 4 dvd y then 1 else 0) - (if 100 dvd y then 1 else 0) + (if 400 dvd y then 1 else 0)"
      by (simp only: algebra_simps)
    moreover have "\<dots> = (if leap y then 366 else 365)"
      using dv by (cases "4 dvd y"; cases "100 dvd y"; cases "400 dvd y") (simp_all add: leap_def)
    ultimately show ?thesis by linarith
  qed
  show ?thesis using True y sum12 step by (simp add: toordinal_def period_day_def previous_month_def)
next
  case False
  then obtain m where m: "d_month d = Suc m" "m \<noteq> 0" using assms(1) by (cases "d_month d") (auto simp: valid_date_def)
  then show ?thesis by (simp add: toordinal_def period_day_def previous_month_def)
qed

lemma mails_of:
  "fst (send_invoices pdf presign d t cs rows (mails, s3)) = mails @ map (\<lambda>(c, e).
     \<lparr>im_to = e, im_subject = ''WTFB Invoice '' @ invoice_period d, im_total = iv_total (build_invoice d t c rows),
      im_url = presign (invoice_key c (invoice_period d))\<rparr>) cs"
  by (induction cs arbitrary: mails s3) (auto simp: build_def build_invoice_def Let_def)

text \<open>The invoices of a month. Run on the day its module is imported, the job sends every creator one
  mail, in order, whose total is the sum of the creator's activity in the calendar month before,
  whose subject names that month, and whose link is to the object that holds the invoice; and when
  the creators are distinct the totals add up to their joint activity of that month.\<close>

lemma invoice_total: "iv_total (build_invoice d t c rows) = sum_list (map la_delta (month_activity t c rows))"
  by (simp add: build_invoice_def Let_def comp_def)

lemma build_eq:
  "build pdf presign d t c rows s3 =
     ((presign (invoice_key c (invoice_period d)), iv_total (build_invoice d t c rows)),
      s3((''wtfb-invoices'', invoice_key c (invoice_period d)) \<mapsto> pdf (build_invoice d t c rows)))"
proof -
  have "iv_period (build_invoice d t c rows) = invoice_period d" by (simp add: build_invoice_def Let_def)
  then show ?thesis by (simp add: build_def Let_def)
qed

lemma invoice_key_inj: "invoice_key c p = invoice_key c' p \<longleftrightarrow> c = c'"
  by (simp add: invoice_key_def)

lemma invoice_kept:
  "s3 (''wtfb-invoices'', invoice_key c (invoice_period d)) = Some (pdf (build_invoice d t c rows)) \<Longrightarrow>
   snd (send_invoices pdf presign d t cs rows (ms, s3)) (''wtfb-invoices'', invoice_key c (invoice_period d)) =
     Some (pdf (build_invoice d t c rows))"
proof (induction cs arbitrary: ms s3)
  case (Cons x cs)
  show ?case
    by (cases x) (auto simp: build_eq invoice_key_inj Cons.prems intro!: Cons.IH)
qed simp

lemma invoices_stored:
  "c \<in> fst ` set cs \<Longrightarrow>
   snd (send_invoices pdf presign d t cs rows (ms, s3)) (''wtfb-invoices'', invoice_key c (invoice_period d)) =
     Some (pdf (build_invoice d t c rows))"
proof (induction cs arbitrary: ms s3)
  case (Cons x cs)
  obtain c' e where x: "x = (c', e)" by (cases x)
  show ?case
  proof (cases "c = c'")
    case True
    then show ?thesis unfolding x by (simp add: build_eq invoice_kept)
  next
    case False
    with Cons show ?thesis by (simp add: x build_eq)
  qed
qed simp

lemma sum_filter_or:
  "c \<notin> A \<Longrightarrow> sum_list (map f (filter (\<lambda>r. g r = c \<and> P r) rows)) + sum_list (map f (filter (\<lambda>r. g r \<in> A \<and> P r) rows)) =
     (sum_list (map f (filter (\<lambda>r. (g r = c \<or> g r \<in> A) \<and> P r) rows)) :: rat)"
  by (induction rows) auto

lemma month_sums:
  "distinct cs \<Longrightarrow> sum_list (map (\<lambda>c. sum_list (map la_delta (month_activity t c rows))) cs) =
     sum_list (map la_delta (filter (\<lambda>r. la_account r \<in> set cs \<and>
       (d_year (la_created r), d_month (la_created r)) = previous_month t) rows))"
proof (induction cs)
  case (Cons c cs)
  then show ?case
    using sum_filter_or [of c "set cs" la_delta la_account
      "\<lambda>r. (d_year (la_created r), d_month (la_created r)) = previous_month t" rows]
    by (simp add: month_activity_def)
qed simp

theorem invoices_cover_month:
  assumes "distinct (map fst cs)" and "send_invoices pdf presign today today cs rows ([], s3) = (mails, s3')"
  shows "map im_to mails = map snd cs \<and>
    map im_total mails = map (\<lambda>(c, e). sum_list (map la_delta (month_activity today c rows))) cs \<and>
    map im_url mails = map (\<lambda>(c, e). presign (invoice_key c (invoice_period today))) cs \<and>
    sum_list (map im_total mails) = sum_list (map la_delta (filter (\<lambda>r. la_account r \<in> fst ` set cs \<and>
       (d_year (la_created r), d_month (la_created r)) = previous_month today) rows)) \<and>
    (\<forall>c \<in> fst ` set cs. s3' (''wtfb-invoices'', invoice_key c (invoice_period today)) =
       Some (pdf (build_invoice today today c rows)))"
proof -
  have m: "mails = map (\<lambda>(c, e). \<lparr>im_to = e, im_subject = ''WTFB Invoice '' @ invoice_period today,
      im_total = iv_total (build_invoice today today c rows), im_url = presign (invoice_key c (invoice_period today))\<rparr>) cs"
    using mails_of [of pdf presign today today cs rows "[]" s3] assms(2) by simp
  have t: "map im_total mails = map (\<lambda>(c, e). sum_list (map la_delta (month_activity today c rows))) cs"
    unfolding m by (simp add: invoice_total case_prod_beta comp_def)
  have "map im_total mails = map (\<lambda>c. sum_list (map la_delta (month_activity today c rows))) (map fst cs)"
    unfolding t by (simp add: case_prod_beta comp_def)
  with month_sums [OF assms(1), of today rows] have "sum_list (map im_total mails) =
      sum_list (map la_delta (filter (\<lambda>r. la_account r \<in> fst ` set cs \<and>
       (d_year (la_created r), d_month (la_created r)) = previous_month today) rows))"
    by simp
  moreover have "map im_to mails = map snd cs"
    "map im_url mails = map (\<lambda>(c, e). presign (invoice_key c (invoice_period today))) cs"
    unfolding m by (simp_all add: case_prod_beta comp_def)
  moreover have "s3' (''wtfb-invoices'', invoice_key c (invoice_period today)) = Some (pdf (build_invoice today today c rows))"
    if "c \<in> fst ` set cs" for c
    using invoices_stored [OF that, of pdf presign today today rows "[]" s3] assms(2) by simp
  ultimately show ?thesis using t by blast
qed

section \<open>Edge tokens\<close>

text \<open>The vault is a map from paths to secrets.\<close>

definition rotate_token ::
  "jwt_encode \<Rightarrow> instant \<Rightarrow> string \<Rightarrow> (string \<rightharpoonup> string) \<Rightarrow> string \<times> (string \<rightharpoonup> string)" where
  "rotate_token enc now node_id vault =
     (let token = enc \<lparr>cl_sub = Some node_id, cl_exp = Some (unix_seconds (now + seconds (24 * 3600))),
                       cl_iat = Some (unix_seconds now), cl_type = None, cl_jti = None, cl_capabilities = None\<rparr>
      in (token, vault(''edge/'' @ node_id \<mapsto> token)))"

text \<open>\<open>tok.split()\<close>: the maximal runs of characters that are not white space.\<close>

fun py_words :: "string \<Rightarrow> string list" where
  "py_words [] = []"
| "py_words (c # s) =
     (if py_space c then py_words s
      else case s of
             [] \<Rightarrow> [[c]]
           | d # _ \<Rightarrow> if py_space d then [c] # py_words s
                     else (case py_words s of [] \<Rightarrow> [[c]] | w # ws \<Rightarrow> (c # w) # ws))"

definition auth_check :: "jwt_decode \<Rightarrow> instant \<Rightarrow> string \<Rightarrow> py_exc + string" where
  "auth_check dec now tok =
     (case py_words tok of
        _ # w # _ \<Rightarrow>
          (case dec now w of
             None \<Rightarrow> Inl (HTTPException 401 ''Unauthorized'')
           | Some c \<Rightarrow> (case cl_sub c of None \<Rightarrow> Inl (OtherError ''KeyError'') | Some s \<Rightarrow> Inr s))
      | _ \<Rightarrow> Inl (IndexError ''list index out of range''))"

record influx_point =
  ip_node :: string
  ip_fields :: "(string \<times> json) list"
  ip_time :: instant

definition hb ::
  "jwt_decode \<Rightarrow> instant \<Rightarrow> (string \<times> json) list \<Rightarrow> string option \<Rightarrow> influx_point list \<Rightarrow> (py_exc + bool) \<times> influx_point list" where
  "hb dec now stats authorization points =
     (case authorization of
        None \<Rightarrow> (Inl (HTTPException 422 ''Field required''), points)
      | Some a \<Rightarrow>
          (case auth_check dec now a of
             Inl x \<Rightarrow> (Inl x, points)
           | Inr node \<Rightarrow> (Inr True, points @ [\<lparr>ip_node = node, ip_fields = stats, ip_time = now\<rparr>])))"

lemma words_of_word: "w \<noteq> [] \<Longrightarrow> \<forall>c \<in> set w. \<not> py_space c \<Longrightarrow> py_words w = [w]"
  by (induction w rule: py_words.induct) (auto split: list.splits)

lemma words_cons: "w \<noteq> [] \<Longrightarrow> \<forall>c \<in> set w. \<not> py_space c \<Longrightarrow> py_space d \<Longrightarrow> py_words (w @ d # s) = w # py_words (d # s)"
proof (induction w)
  case (Cons c w)
  then show ?case by (cases w) auto
qed simp

lemma bearer_words:
  assumes "w \<noteq> []" and "\<forall>c \<in> set w. \<not> py_space c"
  shows "py_words (''Bearer '' @ w) = [''Bearer'', w]"
proof -
  have "py_words (''Bearer'' @ CHR '' '' # w) = ''Bearer'' # py_words (CHR '' '' # w)"
    by (rule words_cons) (simp_all add: py_space_def)
  moreover have "py_words (CHR '' '' # w) = [w]" using words_of_word [OF assms] by (simp add: py_space_def)
  ultimately show ?thesis by simp
qed

text \<open>A rotated token is worth twenty-four hours of heartbeats. The vault holds it for
  its node and keeps every other node's secret; the fleet gateway, given the same key, records a
  point for that node until the second in which the token expires and answers 401 afterwards,
  recording nothing.\<close>

theorem rotated_token_beats:
  assumes "codec_ok enc dec" and "rotate_token enc now node vault = (tok, vault')"
    and "tok \<noteq> []" and "\<forall>c \<in> set tok. \<not> py_space c"
  shows "vault' (''edge/'' @ node) = Some tok \<and> (\<forall>n. n = node \<or> vault' (''edge/'' @ n) = vault (''edge/'' @ n)) \<and>
    hb dec t stats (Some (''Bearer '' @ tok)) points =
      (if unix_seconds t \<le> unix_seconds (now + seconds (24 * 3600))
       then (Inr True, points @ [\<lparr>ip_node = node, ip_fields = stats, ip_time = t\<rparr>])
       else (Inl (HTTPException 401 ''Unauthorized''), points))"
proof -
  have "vault' = vault(''edge/'' @ node \<mapsto> tok)" using assms(2) by (auto simp: rotate_token_def Let_def)
  then have "vault' (''edge/'' @ node) = Some tok \<and> (\<forall>n. n = node \<or> vault' (''edge/'' @ n) = vault (''edge/'' @ n))"
    by auto
  moreover have "auth_check dec t (''Bearer '' @ tok) =
      (if unix_seconds t \<le> unix_seconds (now + seconds (24 * 3600)) then Inr node else Inl (HTTPException 401 ''Unauthorized''))"
    using assms(1,2) bearer_words [OF assms(3,4)]
    by (auto simp: rotate_token_def auth_check_def codec_ok_def Let_def simp del: append.simps)
  ultimately show ?thesis by (simp add: hb_def del: append.simps)
qed

section \<open>The CPU filter, the fleet page and the relay stub\<close>

record cpu_job =
  cj_requires_gpu :: bool
  cj_vram :: rat

record cpu_node =
  cn_gpu :: bool
  cn_vram :: rat
  cn_cpu :: bool
  cn_free_cores :: int
  cn_load :: rat

definition candidates :: "cpu_job \<Rightarrow> cpu_node list \<Rightarrow> cpu_node list" where
  "candidates job nodes =
     (if cj_requires_gpu job then filter (\<lambda>n. cn_gpu n \<and> cj_vram job \<le> cn_vram n) nodes
      else filter (\<lambda>n. cn_cpu n \<and> 4 \<le> cn_free_cores n) nodes)"

definition pick_node :: "cpu_job \<Rightarrow> cpu_node list \<Rightarrow> cpu_node option" where
  "pick_node job nodes =
     (case sort_key cn_load (candidates job nodes) of [] \<Rightarrow> None | n # _ \<Rightarrow> Some n)"

lemma pick_node_least:
  "pick_node job nodes = None \<longleftrightarrow> candidates job nodes = []"
  "pick_node job nodes = Some n \<Longrightarrow> n \<in> set (candidates job nodes) \<and> (\<forall>m \<in> set (candidates job nodes). cn_load n \<le> cn_load m)"
proof -
  let ?s = "sort_key cn_load (candidates job nodes)"
  have s: "set ?s = set (candidates job nodes)" "sorted (map cn_load ?s)" "length ?s = length (candidates job nodes)" by simp_all
  show "pick_node job nodes = None \<longleftrightarrow> candidates job nodes = []"
    using s(3) by (cases ?s) (auto simp: pick_node_def)
  show "pick_node job nodes = Some n \<Longrightarrow> n \<in> set (candidates job nodes) \<and> (\<forall>m \<in> set (candidates job nodes). cn_load n \<le> cn_load m)"
    using s(1,2) by (cases ?s) (auto simp: pick_node_def)
qed

definition fleet_overview :: "py_exc + user \<Rightarrow> (string \<times> json) list list \<Rightarrow> py_exc + json list" where
  "fleet_overview current_user rows = err_bind current_user (\<lambda>u. Inr (map JObj rows))"

definition execute_stub :: "json \<Rightarrow> json" where
  "execute_stub job =
     JObj [(''ok'', JBool True), (''jobId'', case json_get ''id'' job of Some i \<Rightarrow> i | None \<Rightarrow> JNull)]"

theorem rotated_token_beats_witness:
  "case rotate_token unary_encode 0 ''n'' Map.empty of
     (tok, vault) \<Rightarrow> hb unary_decode 86400000000 [] (Some (''Bearer '' @ tok)) [] =
         (Inr True, [\<lparr>ip_node = ''n'', ip_fields = [], ip_time = 86400000000\<rparr>]) \<and>
       hb unary_decode 86401000000 [] (Some (''Bearer '' @ tok)) [] = (Inl (HTTPException 401 ''Unauthorized''), [])"
proof -
  obtain tok vault where r: "rotate_token unary_encode 0 ''n'' Map.empty = (tok, vault)" by (cases "rotate_token unary_encode 0 ''n'' Map.empty")
  have "tok \<noteq> []" "\<forall>c \<in> set tok. \<not> py_space c"
    using r by (auto simp: rotate_token_def Let_def unary_encode_def py_space_def)
  from rotated_token_beats [OF unary_codec r this] show ?thesis
    by (simp add: r unix_seconds_def del: append.simps)
qed

theorem invoices_cover_month_witness:
  "case send_invoices (\<lambda>_. []) (\<lambda>k. k) \<lparr>d_year = 2025, d_month = 1, d_day = 3\<rparr> \<lparr>d_year = 2025, d_month = 1, d_day = 3\<rparr>
       [(''a'', ''a@x'')] [\<lparr>la_account = ''a'', la_created = \<lparr>d_year = 2024, d_month = 12, d_day = 31\<rparr>, la_delta = 5\<rparr>,
         \<lparr>la_account = ''a'', la_created = \<lparr>d_year = 2025, d_month = 1, d_day = 1\<rparr>, la_delta = 7\<rparr>] ([], Map.empty) of
     (mails, s3) \<Rightarrow> map im_to mails = [''a@x''] \<and> map im_total mails = [5]"
proof -
  let ?d = "\<lparr>d_year = 2025, d_month = 1, d_day = 3\<rparr>"
  let ?rows = "[\<lparr>la_account = ''a'', la_created = \<lparr>d_year = 2024, d_month = 12, d_day = 31\<rparr>, la_delta = 5\<rparr>,
         \<lparr>la_account = ''a'', la_created = \<lparr>d_year = 2025, d_month = 1, d_day = 1\<rparr>, la_delta = 7\<rparr>]"
  obtain mails s3 where r: "send_invoices (\<lambda>_. []) (\<lambda>k. k) ?d ?d [(''a'', ''a@x'')] ?rows ([], Map.empty) = (mails, s3)"
    by fastforce
  have d: "distinct (map fst [(''a'', ''a@x'')])" by simp
  have "map im_to mails = [''a@x''] \<and> map im_total mails = [5]"
    using invoices_cover_month [OF d r] by (simp add: month_activity_def previous_month_def)
  then show ?thesis unfolding r by simp
qed

end
