(* ===== verification/Login_Guard.thy ===== *)
theory Login_Guard
  imports Auth Rate_Limit
begin

text \<open>
  The login route of \<^verbatim>\<open>core/api/v1/auth.py\<close> with its dependency on the limiter of
  \<^verbatim>\<open>core/auth/rate_limit.py\<close>, which runs before the handler. Requests are handled one after another,
  as the counter is incremented atomically; the address is the one the connection has.
\<close>

section \<open>A route behind a limiter\<close>

text \<open>The dependency of the route: a handler runs, on its state, when the limiter lets the request
  pass; otherwise the answer is 429 and the handler's state is as it was.\<close>

abbreviation too_many :: py_exc where
  "too_many \<equiv> HTTPException 429 ''Too many requests''"

definition limited ::
  "limiter \<Rightarrow> string \<Rightarrow> redis_reply \<Rightarrow> instant \<Rightarrow> string \<Rightarrow> ('s \<Rightarrow> (py_exc + 'r) \<times> 's) \<Rightarrow> 's \<times> counters \<Rightarrow>
   (py_exc + 'r) \<times> 's \<times> counters" where
  "limited l path a now client_ip handler w =
     (case check_limit l a now (limit_key path client_ip) (snd w) of
        (TooMany retry_after, r') \<Rightarrow> (Inl too_many, fst w, r')
      | (Pass, r') \<Rightarrow> (case handler (fst w) of (res, s') \<Rightarrow> (res, s', r')))"

definition hits :: "string \<Rightarrow> counters \<Rightarrow> string \<Rightarrow> nat" where
  "hits path r ip = (case r (limit_key path ip) of None \<Rightarrow> 0 | Some (c, e) \<Rightarrow> c)"

definition window_ok :: "limiter \<Rightarrow> string \<Rightarrow> instant \<Rightarrow> counters \<Rightarrow> bool" where
  "window_ok l path t0 r \<longleftrightarrow> (\<forall>ip. case r (limit_key path ip) of
     None \<Rightarrow> True | Some (c, None) \<Rightarrow> False | Some (c, Some e) \<Rightarrow> 0 < c \<and> t0 + seconds (window_seconds l) \<le> e)"

definition limits :: "limiter \<Rightarrow> bool" where
  "limits l \<longleftrightarrow> 0 < window_seconds l \<and> 1 \<le> max_requests l"

lemma limits_used [simp]: "limits login_limiter" "limits refresh_limiter" "limits register_limiter"
  by (simp_all add: limits_def login_limiter_def refresh_limiter_def register_limiter_def)

lemma limit_key_inj [simp]: "limit_key p a = limit_key p b \<longleftrightarrow> a = b"
  by (simp add: limit_key_def)

lemma window_ok_empty [simp]: "window_ok l path t0 Map.empty" "hits path Map.empty ip = 0"
  by (simp_all add: window_ok_def hits_def)

lemma limited_counts:
  assumes "window_ok l path t0 r" and "limits l" and "t0 \<le> now" and "now < t0 + seconds (window_seconds l)"
    and "limited l path redis_up now ip handler (s, r) = (res, s', r')"
  shows "window_ok l path t0 r' \<and> hits path r' = (hits path r)(ip := hits path r ip + 1) \<and>
    (res, s') = (if hits path r ip < max_requests l then handler s else (Inl too_many, s))"
proof (cases "r (limit_key path ip)")
  case None
  let ?r = "r(limit_key path ip \<mapsto> (1, Some (now + seconds (window_seconds l))))"
  from None assms(2) have "check_limit l redis_up now (limit_key path ip) r = (Pass, ?r)"
    by (subst check_limit_first) (simp_all add: live_counter_def limits_def)
  with assms(5) have r': "r' = ?r" and res: "(res, s') = handler s"
    by (auto simp: limited_def split: prod.splits)
  have "hits path r' = (hits path r)(ip := hits path r ip + 1)" by (rule ext) (simp add: hits_def r' None)
  moreover have "hits path r ip = 0" by (simp add: hits_def None)
  moreover have "window_ok l path t0 r'" using assms(1,3) by (simp add: window_ok_def r')
  ultimately show ?thesis using assms(2) by (simp add: res limits_def)
next
  case (Some x)
  obtain c e' where x: "x = (c, Some e')" "0 < c" "t0 + seconds (window_seconds l) \<le> e'"
    using spec [OF assms(1) [unfolded window_ok_def], of ip] Some by (cases x; cases "snd x") auto
  then have "check_limit l redis_up now (limit_key path ip) r =
      (if max_requests l < c + 1 then TooMany (max ((e' - now + 500000) div 1000000) 1) else Pass,
       r(limit_key path ip \<mapsto> (c + 1, Some e')))"
    using Some assms(4) by (subst check_limit_next) simp_all
  with assms(5) have r': "r' = r(limit_key path ip \<mapsto> (c + 1, Some e'))"
    and res: "(res, s') = (if c < max_requests l then handler s else (Inl too_many, s))"
    by (auto simp: limited_def split: if_splits prod.splits)
  have "hits path r' = (hits path r)(ip := hits path r ip + 1)" by (rule ext) (simp add: hits_def r' Some x)
  moreover have "hits path r ip = c" by (simp add: hits_def Some x)
  moreover have "window_ok l path t0 r'" using assms(1) x by (simp add: window_ok_def r')
  ultimately show ?thesis by (simp add: res)
qed

section \<open>The login endpoint behind its limiter\<close>

definition login_path :: string where
  "login_path = ''/api/v1/auth/login''"

definition login_endpoint ::
  "jwt_encode \<Rightarrow> (string \<Rightarrow> string \<Rightarrow> bool) \<Rightarrow> token_settings \<Rightarrow> redis_reply \<Rightarrow> instant \<Rightarrow> uuid \<Rightarrow> uuid \<Rightarrow>
   string \<Rightarrow> string \<Rightarrow> string \<Rightarrow> user_db \<Rightarrow> counters \<Rightarrow> (py_exc + token_response) \<times> counters" where
  "login_endpoint enc check cfg a now jti1 jti2 client_ip email password db r =
     (case limited login_limiter login_path a now client_ip
             (\<lambda>s. (login enc check cfg now jti1 jti2 email password db, s)) ((), r) of
        (res, _, r') \<Rightarrow> (res, r'))"

text \<open>Attempts to log in, in the order in which they arrive, with Redis up.\<close>

record attempt_at =
  at_ip :: string
  at_time :: instant
  at_email :: string
  at_password :: string

fun login_attempts ::
  "jwt_encode \<Rightarrow> (string \<Rightarrow> string \<Rightarrow> bool) \<Rightarrow> token_settings \<Rightarrow> uuid \<Rightarrow> uuid \<Rightarrow> user_db \<Rightarrow> attempt_at list \<Rightarrow> counters \<Rightarrow>
   (attempt_at \<times> (py_exc + token_response)) list" where
  "login_attempts enc check cfg jti1 jti2 db [] r = []"
| "login_attempts enc check cfg jti1 jti2 db (a # as) r =
     (case login_endpoint enc check cfg redis_up (at_time a) jti1 jti2 (at_ip a) (at_email a) (at_password a) db r of
        (res, r') \<Rightarrow> (a, res) # login_attempts enc check cfg jti1 jti2 db as r')"

lemma login_endpoint_counts:
  assumes "window_ok login_limiter login_path t0 r" and "t0 \<le> now" and "now < t0 + seconds 60"
    and "login_endpoint enc check cfg redis_up now j1 j2 ip e p db r = (res, r')"
  shows "window_ok login_limiter login_path t0 r' \<and>
    hits login_path r' = (hits login_path r)(ip := hits login_path r ip + 1) \<and>
    res = (if hits login_path r ip < 5 then login enc check cfg now j1 j2 e p db else Inl too_many)"
proof -
  have call: "limited login_limiter login_path redis_up now ip (\<lambda>s. (login enc check cfg now j1 j2 e p db, s)) ((), r) = (res, (), r')"
    using assms(4) by (simp add: login_endpoint_def split: prod.splits)
  show ?thesis
    using limited_counts [OF assms(1) limits_used(1) assms(2) _ call] assms(3)
    by (auto simp: login_limiter_def split: if_splits)
qed

lemma attempts_of_address:
  "window_ok login_limiter login_path t0 r \<Longrightarrow> \<forall>a \<in> set as. t0 \<le> at_time a \<and> at_time a < t0 + seconds 60 \<Longrightarrow>
   map snd (filter (\<lambda>(a, res). at_ip a = ip) (login_attempts enc check cfg j1 j2 db as r)) =
    map (\<lambda>a. login enc check cfg (at_time a) j1 j2 (at_email a) (at_password a) db) (take (5 - hits login_path r ip) (filter (\<lambda>a. at_ip a = ip) as)) @
    replicate (length (filter (\<lambda>a. at_ip a = ip) as) - (5 - hits login_path r ip)) (Inl (HTTPException 429 ''Too many requests''))"
proof (induction as arbitrary: r)
  case (Cons a as)
  obtain res r' where call: "login_endpoint enc check cfg redis_up (at_time a) j1 j2 (at_ip a) (at_email a) (at_password a) db r = (res, r')"
    by fastforce
  note c = login_endpoint_counts [OF Cons.prems(1) _ _ call]
  have IH: "map snd (filter (\<lambda>(a, res). at_ip a = ip) (login_attempts enc check cfg j1 j2 db as r')) =
    map (\<lambda>a. login enc check cfg (at_time a) j1 j2 (at_email a) (at_password a) db) (take (5 - hits login_path r' ip) (filter (\<lambda>a. at_ip a = ip) as)) @
    replicate (length (filter (\<lambda>a. at_ip a = ip) as) - (5 - hits login_path r' ip)) (Inl (HTTPException 429 ''Too many requests''))"
    using c Cons.prems by (intro Cons.IH) simp_all
  show ?case
  proof (cases "at_ip a = ip \<and> hits login_path r ip < 5")
    case True
    then have "5 - hits login_path r ip = Suc (5 - hits login_path r' ip)" using c Cons.prems by simp arith
    with True IH c Cons.prems call show ?thesis by simp
  next
    case False
    then show ?thesis using IH c Cons.prems call by (auto simp: not_less)
  qed
qed simp

text \<open>Guessing passwords is bounded per address. Of the attempts that an address makes within a minute,
  while other addresses make theirs, the first five are answered by the check of the password and all
  others are refused with 429 whatever they carry; so at most five passwords are tried.\<close>

theorem guesses_bounded:
  assumes "\<forall>a \<in> set as. t0 \<le> at_time a \<and> at_time a < t0 + seconds 60"
  shows "map snd (filter (\<lambda>(a, res). at_ip a = ip) (login_attempts enc check cfg j1 j2 db as Map.empty)) =
    map (\<lambda>a. login enc check cfg (at_time a) j1 j2 (at_email a) (at_password a) db) (take 5 (filter (\<lambda>a. at_ip a = ip) as)) @
    replicate (length (filter (\<lambda>a. at_ip a = ip) as) - 5) (Inl (HTTPException 429 ''Too many requests''))"
  using attempts_of_address [OF window_ok_empty(1) assms, of ip enc check cfg j1 j2 db] by simp

theorem guesses_bounded_witness:
  "map snd (filter (\<lambda>(a, res). at_ip a = ''6.6.6.6'')
      (login_attempts unary_encode (\<lambda>p h. False) \<lparr>ts_minutes = 30, ts_days = 7\<rparr> 1 2 [demo_user]
        (replicate 7 \<lparr>at_ip = ''6.6.6.6'', at_time = 0, at_email = ''a@x'', at_password = ''pw''\<rparr>) Map.empty)) =
   replicate 5 (Inl (unauthorized ''Invalid email or password'')) @ replicate 2 (Inl (HTTPException 429 ''Too many requests''))"
proof -
  let ?a = "\<lparr>at_ip = ''6.6.6.6'', at_time = 0, at_email = ''a@x'', at_password = ''pw''\<rparr>"
  have w: "\<forall>a \<in> set (replicate 7 ?a). 0 \<le> at_time a \<and> at_time a < 0 + seconds 60" by simp
  have l: "login unary_encode (\<lambda>p h. False) \<lparr>ts_minutes = 30, ts_days = 7\<rparr> 0 1 2 ''a@x'' ''pw'' [demo_user] =
      Inl (unauthorized ''Invalid email or password'')"
    by (simp add: login_def split: option.split)
  show ?thesis
    using guesses_bounded [OF w, of "''6.6.6.6''" unary_encode "\<lambda>p h. False" "\<lparr>ts_minutes = 30, ts_days = 7\<rparr>" 1 2 "[demo_user]"]
    by (simp add: l)
qed

end
