(* ===== verification/Auth_Api.thy ===== *)
theory Auth_Api
  imports Login_Guard
begin

text \<open>
  The registration and refresh routes of \<^verbatim>\<open>core/api/v1/auth.py\<close> as they are served: the limiter of
  the route, the validation of the body, the handler and its response. \<open>email_of\<close> is the e-mail type of
  the validation library: the normalised address, if the text is one. The session of a request is
  closed after the handler.
\<close>

section \<open>Schemas\<close>

record register_request =
  rg_email :: string
  rg_name :: string
  rg_password :: string

record user_response =
  ur_id :: string
  ur_email :: string
  ur_name :: string
  ur_is_active :: bool

record register_response =
  rs_user :: user_response
  rs_tokens :: token_response

definition valid_register :: "(string \<Rightarrow> string option) \<Rightarrow> register_request \<Rightarrow> register_request option" where
  "valid_register email_of q =
     (case email_of (rg_email q) of
        None \<Rightarrow> None
      | Some e \<Rightarrow>
          if length (rg_name q) < 1 \<or> 255 < length (rg_name q) \<or> length (rg_password q) < 8 then None
          else Some (q\<lparr>rg_email := e\<rparr>))"

section \<open>Routes\<close>

definition register_path :: string where
  "register_path = ''/api/v1/auth/register''"

definition refresh_path :: string where
  "refresh_path = ''/api/v1/auth/refresh''"

definition register_handler ::
  "jwt_encode \<Rightarrow> (string \<Rightarrow> string) \<Rightarrow> token_settings \<Rightarrow> (string \<Rightarrow> string option) \<Rightarrow> instant \<Rightarrow> uuid \<Rightarrow> uuid \<Rightarrow> uuid \<Rightarrow>
   register_request \<Rightarrow> user_db session \<Rightarrow> (py_exc + register_response) \<times> user_db session" where
  "register_handler enc hash cfg email_of now uid jti1 jti2 q s =
     (case valid_register email_of q of
        None \<Rightarrow> (Inl (HTTPException 422 ''validation error''), s)
      | Some p \<Rightarrow>
          (case register_user enc hash cfg now uid jti1 jti2 (rg_email p) (rg_name p) (rg_password p) s of
             (Inl x, s') \<Rightarrow> (Inl x, s')
           | (Inr (i, tokens), s') \<Rightarrow>
               (Inr \<lparr>rs_user = \<lparr>ur_id = uuid_str i, ur_email = rg_email p, ur_name = rg_name p, ur_is_active = True\<rparr>,
                     rs_tokens = tokens\<rparr>, s')))"

definition register_route ::
  "jwt_encode \<Rightarrow> (string \<Rightarrow> string) \<Rightarrow> token_settings \<Rightarrow> (string \<Rightarrow> string option) \<Rightarrow> redis_reply \<Rightarrow> instant \<Rightarrow> uuid \<Rightarrow>
   uuid \<Rightarrow> uuid \<Rightarrow> string \<Rightarrow> register_request \<Rightarrow> user_db session \<times> counters \<Rightarrow>
   (py_exc + register_response) \<times> user_db session \<times> counters" where
  "register_route enc hash cfg email_of a now uid jti1 jti2 client_ip q =
     limited register_limiter register_path a now client_ip
       (register_handler enc hash cfg email_of now uid jti1 jti2 q)"

definition refresh_route ::
  "jwt_encode \<Rightarrow> jwt_decode \<Rightarrow> token_settings \<Rightarrow> redis_reply \<Rightarrow> instant \<Rightarrow> bool \<Rightarrow> uuid \<Rightarrow> uuid \<Rightarrow> expiring_keys \<Rightarrow>
   string \<Rightarrow> string \<Rightarrow> user_db \<times> counters \<Rightarrow> (py_exc + token_response) \<times> user_db \<times> counters" where
  "refresh_route enc dec cfg a now up jti1 jti2 bl client_ip token =
     limited refresh_limiter refresh_path a now client_ip
       (\<lambda>db. (refresh enc dec cfg now up jti1 jti2 bl token db, db))"

section \<open>Sequences of requests to a limited route\<close>

record 'h arrival =
  av_ip :: string
  av_time :: instant
  av_run :: 'h

type_synonym ('s, 'r) handler = "'s \<Rightarrow> (py_exc + 'r) \<times> 's"

fun serve_limited ::
  "limiter \<Rightarrow> string \<Rightarrow> ('s, 'r) handler arrival list \<Rightarrow> 's \<times> counters \<Rightarrow> (py_exc + 'r) list \<times> 's \<times> counters" where
  "serve_limited l path [] w = ([], w)"
| "serve_limited l path (c # cs) w =
     (case limited l path redis_up (av_time c) (av_ip c) (av_run c) w of
        (res, w') \<Rightarrow> (case serve_limited l path cs w' of (rs, w'') \<Rightarrow> (res # rs, w'')))"

text \<open>The requests a limit of \<open>n\<close> per address lets through, when \<open>seen\<close> were counted before, and the
  run of their handlers alone.\<close>

fun let_through :: "nat \<Rightarrow> (string \<Rightarrow> nat) \<Rightarrow> ('s, 'r) handler arrival list \<Rightarrow> bool list" where
  "let_through n seen [] = []"
| "let_through n seen (c # cs) = (seen (av_ip c) < n) # let_through n (seen(av_ip c := seen (av_ip c) + 1)) cs"

fun serve_marked :: "(bool \<times> ('s, 'r) handler arrival) list \<Rightarrow> 's \<Rightarrow> (py_exc + 'r) list \<times> 's" where
  "serve_marked [] s = ([], s)"
| "serve_marked ((ok, c) # cs) s =
     (case (if ok then av_run c s else (Inl too_many, s)) of
        (res, s') \<Rightarrow> (case serve_marked cs s' of (rs, s'') \<Rightarrow> (res # rs, s'')))"

lemma length_let_through [simp]: "length (let_through n seen cs) = length cs"
  by (induction cs arbitrary: seen) simp_all

lemma let_through_count:
  "length (filter (\<lambda>(ok, c). ok \<and> av_ip c = ip) (zip (let_through n seen cs) cs)) =
     min (n - seen ip) (length (filter (\<lambda>c. av_ip c = ip) cs))"
proof (induction cs arbitrary: seen)
  case (Cons c cs)
  define seen1 where "seen1 = seen(av_ip c := seen (av_ip c) + 1)"
  have "seen1 ip = (if ip = av_ip c then seen ip + 1 else seen ip)" by (simp add: seen1_def)
  moreover have "let_through n seen (c # cs) = (seen (av_ip c) < n) # let_through n seen1 cs"
    by (simp add: seen1_def)
  ultimately show ?case using Cons [of seen1] by (cases "ip = av_ip c") auto
qed simp

lemma serve_limited_marked:
  assumes "window_ok l path t0 r" and "limits l"
    and "\<forall>c \<in> set cs. t0 \<le> av_time c \<and> av_time c < t0 + seconds (window_seconds l)"
  shows "\<exists>r'. serve_limited l path cs (s, r) =
    (case serve_marked (zip (let_through (max_requests l) (hits path r) cs) cs) s of (rs, s') \<Rightarrow> (rs, s', r'))"
  using assms(1,3)
proof (induction cs arbitrary: s r)
  case (Cons c cs)
  obtain res s1 r1 where call: "limited l path redis_up (av_time c) (av_ip c) (av_run c) (s, r) = (res, s1, r1)"
    by (metis prod_cases3)
  note step = limited_counts [OF Cons.prems(1) assms(2) _ _ call]
  have "\<exists>r'. serve_limited l path cs (s1, r1) =
      (case serve_marked (zip (let_through (max_requests l) (hits path r1) cs) cs) s1 of (rs, s') \<Rightarrow> (rs, s', r'))"
    using step Cons.prems by (intro Cons.IH) simp_all
  moreover have "hits path r1 = (hits path r)(av_ip c := hits path r (av_ip c) + 1)"
    "(res, s1) = (if hits path r (av_ip c) < max_requests l then av_run c s else (Inl too_many, s))"
    using step Cons.prems(2) by simp_all
  ultimately show ?case
    using call by (auto split: prod.splits if_splits)
qed simp

text \<open>C26: a limited route is the unlimited one on fewer requests. Whatever the addresses send within one
  window, and in whatever order, the answers and the final state are those of running the handlers of
  the requests that are let through and no others, each refused request being answered 429; and of
  every address's requests exactly the first \<open>max_requests\<close> are let through: ten registrations, five
  logins, three refreshes.\<close>

theorem limited_route_thins:
  assumes "limits l" and "\<forall>c \<in> set cs. t0 \<le> av_time c \<and> av_time c < t0 + seconds (window_seconds l)"
  shows "(case serve_limited l path cs (s, Map.empty) of (rs, s', r') \<Rightarrow> (rs, s')) =
      serve_marked (zip (let_through (max_requests l) (\<lambda>_. 0) cs) cs) s \<and>
    length (filter (\<lambda>(ok, c). ok \<and> av_ip c = ip) (zip (let_through (max_requests l) (\<lambda>_. 0) cs) cs)) =
      min (max_requests l) (length (filter (\<lambda>c. av_ip c = ip) cs))"
proof -
  have "hits path Map.empty = (\<lambda>_. 0)" by (rule ext) simp
  with serve_limited_marked [OF window_ok_empty(1) assms, of path s] let_through_count [of ip "max_requests l" "\<lambda>_. 0" cs]
  show ?thesis
    by (cases "serve_marked (zip (let_through (max_requests l) (\<lambda>_. 0) cs) cs) s") (auto split: prod.splits)
qed


text \<open>A registration that passes its limiter answers with the account it would create.\<close>

theorem register_route_answers:
  assumes "check_limit register_limiter a now (limit_key register_path ip) r = (Pass, r')"
    and "valid_register email_of q = Some p" and "user_by_email (rg_email p) db = None"
  shows "\<exists>rs s'. register_route enc hash cfg email_of a now uid j1 j2 ip q (open_session db, r) = (Inr rs, s', r') \<and>
    ur_email (rs_user rs) = rg_email p \<and> ur_id (rs_user rs) = uuid_str uid \<and>
    user_by_email (rg_email p) (working s') \<noteq> None \<and> committed s' = db"
proof -
  have "\<not> (rg_name p = [] \<or> 255 < length (rg_name p) \<or> length (rg_password p) < 8)"
    using assms(2) by (auto simp: valid_register_def split: option.splits if_splits)
  with assms show ?thesis
    by (auto simp: register_route_def limited_def register_handler_def register_user_def Let_def user_by_email_def
        open_session_def row_at_append split: option.splits)
qed

definition spammer :: "(nat, nat) handler arrival list" where
  "spammer = replicate 12 \<lparr>av_ip = ''6.6.6.6'', av_time = 0, av_run = (\<lambda>s. (Inr s, s + 1))\<rparr>"

theorem limited_route_thins_witness:
  "(case serve_limited register_limiter register_path spammer (0, Map.empty) of (rs, s', r') \<Rightarrow> (rs, s')) =
     serve_marked (zip (let_through 10 (\<lambda>_. 0) spammer) spammer) 0 \<and>
   length (filter (\<lambda>(ok, c). ok \<and> av_ip c = ''6.6.6.6'') (zip (let_through 10 (\<lambda>_. 0) spammer) spammer)) = 10"
proof -
  have w: "\<forall>c \<in> set spammer. 0 \<le> av_time c \<and> av_time c < 0 + seconds (window_seconds register_limiter)"
    by (simp add: register_limiter_def spammer_def)
  have "max_requests register_limiter = 10" by (simp add: register_limiter_def)
  moreover have "length (filter (\<lambda>c. av_ip c = ''6.6.6.6'') spammer) = 12" by (simp add: spammer_def)
  ultimately show ?thesis
    using limited_route_thins [OF limits_used(3) w, of register_path 0 "''6.6.6.6''"] by simp
qed

end
