(* ===== verification/LedgerLocks.thy ===== *)
theory LedgerLocks
  imports LedgerConcurrency
begin

text \<open>
  Concurrent calls of \<^verbatim>\<open>core/ledger/service.py\<close>'s \<open>deduct_credits\<close>, with the row locks of
  its \<open>SELECT ... FOR UPDATE\<close>.

  Every call runs in a transaction of its own, and is cut where the database can let another
  one run: after the query of the reference, after \<open>ORDER BY created_at DESC LIMIT 1\<close> has picked
  a row, after that row's lock was granted, and after the flush, which the transaction then
  commits. The engine of \<^verbatim>\<open>core/database.py\<close> sets no isolation level, so PostgreSQL runs at
  READ COMMITTED. There a statement that waited for a row lock looks again at that row alone;
  a row that was inserted in the meantime does not become its answer. Entries are never
  updated, so the row a call locks is the row it picked. A lock is held until the transaction
  ends, with the commit or, when the balance is too small, with the exception that closes the
  session.
\<close>

section \<open>Calls, locks and steps\<close>

datatype deduction =
    To_Check credit_request
  | To_Read credit_request
  | To_Lock credit_request "ledger_entry option"
  | To_Post credit_request "ledger_entry option" prepared
  | Answered credit_request "py_exc + ledger_entry"

record deductions =
  book :: ledger_db
  calls :: "deduction list"

fun call_request :: "deduction \<Rightarrow> credit_request" where
  "call_request (To_Check r) = r"
| "call_request (To_Read r) = r"
| "call_request (To_Lock r row) = r"
| "call_request (To_Post r row p) = r"
| "call_request (Answered r x) = r"

text \<open>The row a transaction has locked, and the rows that are locked.\<close>

fun lock_of :: "deduction \<Rightarrow> uuid option" where
  "lock_of (To_Post r (Some e) p) = Some (le_id e)"
| "lock_of _ = None"

definition locked_rows :: "deduction list \<Rightarrow> uuid set" where
  "locked_rows ds = {k. \<exists>d \<in> set ds. lock_of d = Some k}"

text \<open>The rest of the call once the row is there: \<open>current_balance\<close>, the check and the entry.\<close>

definition row_balance :: "ledger_entry option \<Rightarrow> rat" where
  "row_balance row = (case row of Some e \<Rightarrow> le_balance_after e | None \<Rightarrow> 0)"

definition charged_entry :: "credit_request \<Rightarrow> rat \<Rightarrow> ledger_entry" where
  "charged_entry r current =
     \<lparr>le_id = cr_id r, le_user = cr_user r, le_amount = cr_amount r, le_direction = DEBIT,
      le_source = cr_source r, le_reference = cr_reference r,
      le_balance_after = current - cr_amount r, le_description = cr_description r,
      le_created_at = cr_now r\<rparr>"

definition charge_row :: "credit_request \<Rightarrow> rat \<Rightarrow> py_exc + prepared" where
  "charge_row r current =
     (if current - cr_amount r < 0
      then Inl (InsufficientCreditsError (cr_user r) (cr_amount r) current)
      else Inr (Fresh (charged_entry r current)))"

fun deduct_step :: "numeric \<Rightarrow> uuid set \<Rightarrow> ledger_db \<Rightarrow> deduction \<Rightarrow> (ledger_db \<times> deduction) option" where
  "deduct_step num held db (To_Check r) =
     (if cr_amount r \<le> 0
      then Some (db, Answered r (Inl (ValueError ''Debit amount must be positive'')))
      else case scalar_one_or_none (by_reference (cr_reference r) DEBIT db) of
             Inl x \<Rightarrow> Some (db, Answered r (Inl x))
           | Inr (Some e) \<Rightarrow> Some (db, Answered r (Inr e))
           | Inr None \<Rightarrow> Some (db, To_Read r))"
| "deduct_step num held db (To_Read r) = Some (db, To_Lock r (last_entry (cr_user r) db))"
| "deduct_step num held db (To_Lock r row) =
     (if (\<exists>e. row = Some e \<and> le_id e \<in> held) then None
      else case charge_row r (row_balance row) of
             Inl x \<Rightarrow> Some (db, Answered r (Inl x))
           | Inr p \<Rightarrow> Some (db, To_Post r row p))"
| "deduct_step num held db (To_Post r row p) =
     (case ledger_finish num p (open_session db) of
        (res, s) \<Rightarrow> Some (committed (commit s), Answered r res))"
| "deduct_step num held db (Answered r x) = None"

inductive lock_step :: "numeric \<Rightarrow> deductions \<Rightarrow> deductions \<Rightarrow> bool" for num where
  call: "i < length (calls c) \<Longrightarrow>
     deduct_step num (locked_rows (calls c)) (book c) (calls c ! i) = Some (db, d) \<Longrightarrow>
     lock_step num c \<lparr>book = db, calls = (calls c)[i := d]\<rparr>"

inductive_cases lock_stepE: "lock_step num c c'"

definition deductions_start :: "ledger_db \<Rightarrow> credit_request list \<Rightarrow> deductions" where
  "deductions_start db rs = \<lparr>book = db, calls = map To_Check rs\<rparr>"

text \<open>A schedule names the call of each step; a call that waits for a lock or has answered stays
  as it is.\<close>

fun run_locks :: "numeric \<Rightarrow> nat list \<Rightarrow> deductions \<Rightarrow> deductions" where
  "run_locks num [] c = c"
| "run_locks num (i # is) c =
     (if i < length (calls c) then
        (case deduct_step num (locked_rows (calls c)) (book c) (calls c ! i) of
           Some (db, d) \<Rightarrow> run_locks num is \<lparr>book = db, calls = (calls c)[i := d]\<rparr>
         | None \<Rightarrow> run_locks num is c)
      else run_locks num is c)"

lemma run_locks_steps: "(lock_step num)\<^sup>*\<^sup>* c (run_locks num is c)"
proof (induction num "is" c rule: run_locks.induct)
  case (2 num i "is" c)
  then show ?case
    by (auto split: option.splits intro: converse_rtranclp_into_rtranclp lock_step.call)
qed simp

section \<open>One call alone is the service\<close>

lemma last_entry_balance: "row_balance (last_entry u db) = get_balance db u"
  by (simp add: row_balance_def get_balance_def)

lemma lock_of_cases: "lock_of d = Some k \<longleftrightarrow> (\<exists>r e p. d = To_Post r (Some e) p \<and> k = le_id e)"
  by (cases d rule: lock_of.cases) auto

lemma locked_rows_nth: "k \<in> locked_rows ds \<longleftrightarrow> (\<exists>i < length ds. lock_of (ds ! i) = Some k)"
  by (auto simp: locked_rows_def set_conv_nth)

lemma locked_rows_append [simp]: "locked_rows (xs @ ys) = locked_rows xs \<union> locked_rows ys"
  by (auto simp: locked_rows_def)

lemma locked_rows_Cons [simp]:
  "locked_rows (d # ds) = (case lock_of d of Some k \<Rightarrow> insert k (locked_rows ds) | None \<Rightarrow> locked_rows ds)"
  by (auto simp: locked_rows_def split: option.splits)

lemma locked_rows_Nil [simp]: "locked_rows [] = {}"
  by (simp add: locked_rows_def)

lemma lock_step_middle:
  assumes "deduct_step num (locked_rows (xs @ d # ys)) db d = Some (db', d')"
  shows "lock_step num \<lparr>book = db, calls = xs @ d # ys\<rparr> \<lparr>book = db', calls = xs @ d' # ys\<rparr>"
proof -
  let ?c = "\<lparr>book = db, calls = xs @ d # ys\<rparr>"
  have "lock_step num ?c \<lparr>book = db', calls = (calls ?c)[length xs := d']\<rparr>"
    by (rule lock_step.call) (use assms in \<open>simp_all add: nth_append\<close>)
  then show ?thesis by simp
qed

lemma lock_step_only:
  "deduct_step num {} db d = Some (db', d') \<Longrightarrow> lock_of d = None \<Longrightarrow>
   lock_step num \<lparr>book = db, calls = [d]\<rparr> \<lparr>book = db', calls = [d']\<rparr>"
  using lock_step_middle [of num "[]" d "[]" db db' d'] by simp


abbreviation deduct_alone :: "numeric \<Rightarrow> credit_request \<Rightarrow> ledger_db \<Rightarrow> (py_exc + ledger_entry) \<times> ledger_db session" where
  "deduct_alone num r db \<equiv> deduct_credits num (cr_id r) (cr_now r) (cr_user r) (cr_amount r) (cr_source r)
     (cr_reference r) (cr_description r) (open_session db)"

lemma deduct_alone_steps:
  "deduct_alone num r db =
     (if cr_amount r \<le> 0 then (Inl (ValueError ''Debit amount must be positive''), open_session db)
      else case scalar_one_or_none (by_reference (cr_reference r) DEBIT db) of
             Inl x \<Rightarrow> (Inl x, open_session db)
           | Inr (Some e) \<Rightarrow> (Inr e, open_session db)
           | Inr None \<Rightarrow>
               (case charge_row r (get_balance db (cr_user r)) of
                  Inl x \<Rightarrow> (Inl x, open_session db)
                | Inr p \<Rightarrow> ledger_finish num p (open_session db)))"
  by (auto simp: deduct_credits_def deduct_prepare_def charge_row_def charged_entry_def Let_def
      ledger_finish_def split: sum.splits option.splits)

lemma deduct_from_read:
  "case (case charge_row r (get_balance db (cr_user r)) of
           Inl x \<Rightarrow> (Inl x, open_session db) | Inr p \<Rightarrow> ledger_finish num p (open_session db))
   of (res, s) \<Rightarrow> (lock_step num)\<^sup>*\<^sup>* \<lparr>book = db, calls = [To_Read r]\<rparr>
        \<lparr>book = committed (commit s), calls = [Answered r res]\<rparr>"
proof -
  let ?row = "last_entry (cr_user r) db"
  have 1: "lock_step num \<lparr>book = db, calls = [To_Read r]\<rparr> \<lparr>book = db, calls = [To_Lock r ?row]\<rparr>"
    by (rule lock_step_only) simp_all
  show ?thesis
  proof (cases "charge_row r (get_balance db (cr_user r))")
    case (Inl x)
    then have "lock_step num \<lparr>book = db, calls = [To_Lock r ?row]\<rparr> \<lparr>book = db, calls = [Answered r (Inl x)]\<rparr>"
      by (intro lock_step_only) (simp_all add: last_entry_balance)
    with 1 Inl show ?thesis by (simp add: rtranclp.rtrancl_into_rtrancl)
  next
    case (Inr p)
    obtain res s where fin: "ledger_finish num p (open_session db) = (res, s)" by fastforce
    from Inr have 2: "lock_step num \<lparr>book = db, calls = [To_Lock r ?row]\<rparr> \<lparr>book = db, calls = [To_Post r ?row p]\<rparr>"
      by (intro lock_step_only) (simp_all add: last_entry_balance)
    have 3: "lock_step num \<lparr>book = db, calls = [To_Post r ?row p]\<rparr>
        \<lparr>book = committed (commit s), calls = [Answered r res]\<rparr>"
      using lock_step_middle [of num "[]" "To_Post r ?row p" "[]"] fin by simp
    from 1 2 3 Inr fin show ?thesis by (simp add: rtranclp.rtrancl_into_rtrancl)
  qed
qed

text \<open>The steps are the service. A deduction that runs with no other transaction in between
  takes its steps to the answer of \<open>deduct_credits\<close>, and leaves in the database what the service
  committed, on every branch: a bad amount, a reference that was used, a balance that is too small,
  a value that does not fit the column, a new entry.\<close>

theorem deduct_alone_is_service:
  "case deduct_credits num (cr_id r) (cr_now r) (cr_user r) (cr_amount r) (cr_source r)
          (cr_reference r) (cr_description r) (open_session db) of
     (res, s) \<Rightarrow> (lock_step num)\<^sup>*\<^sup>* (deductions_start db [r])
                  \<lparr>book = committed (commit s), calls = [Answered r res]\<rparr>"
proof (cases "deduct_step num {} db (To_Check r)")
  case None
  then show ?thesis by (auto split: if_splits sum.splits option.splits)
next
  case (Some q)
  obtain db' d where q: "q = (db', d)" by fastforce
  have 1: "lock_step num (deductions_start db [r]) \<lparr>book = db', calls = [d]\<rparr>"
    unfolding deductions_start_def using Some q by (simp del: deduct_step.simps add: lock_step_only)
  show ?thesis
  proof (cases "d = To_Read r")
    case True
    with Some q have "db' = db" and "deduct_alone num r db =
        (case charge_row r (get_balance db (cr_user r)) of
           Inl x \<Rightarrow> (Inl x, open_session db) | Inr p \<Rightarrow> ledger_finish num p (open_session db))"
      by (auto simp: deduct_alone_steps split: if_splits sum.splits option.splits)
    with 1 True deduct_from_read [where r = r and db = db and num = num] show ?thesis
      by (auto intro: converse_rtranclp_into_rtranclp)
  next
    case False
    with Some q have "case deduct_alone num r db of
        (res, s) \<Rightarrow> d = Answered r res \<and> db' = committed (commit s)"
      by (auto simp: deduct_alone_steps split: if_splits sum.splits option.splits)
    with 1 show ?thesis by (auto split: prod.splits)
  qed
qed


section \<open>What the locks and the constraints keep\<close>

text \<open>No two transactions hold the lock of one row, and every answer is in the table.\<close>

definition exclusive :: "deduction list \<Rightarrow> bool" where
  "exclusive ds \<longleftrightarrow> (\<forall>i < length ds. \<forall>j < length ds. \<forall>k.
     lock_of (ds ! i) = Some k \<and> lock_of (ds ! j) = Some k \<longrightarrow> i = j)"

fun call_ok :: "ledger_db \<Rightarrow> deduction \<Rightarrow> bool" where
  "call_ok db (To_Post r row (Existing e)) = False"
| "call_ok db (To_Post r row (Fresh e)) \<longleftrightarrow> entry_key e = (cr_reference r, DEBIT) \<and> 0 \<le> le_balance_after e"
| "call_ok db (Answered r (Inr e)) = settled DEBIT db r e"
| "call_ok db _ = True"

definition deductions_ok :: "deductions \<Rightarrow> bool" where
  "deductions_ok c \<longleftrightarrow> ledger_ok (book c) \<and> exclusive (calls c) \<and>
     (\<forall>d \<in> set (calls c). call_ok (book c) d)"

lemma call_ok_mono: "call_ok db d \<Longrightarrow> extends_db db db' \<Longrightarrow> call_ok db' d"
  by (cases "(db, d)" rule: call_ok.cases) (auto intro: settled_mono)

lemma charge_row_ok:
  "charge_row r b = Inr p \<Longrightarrow> call_ok db (To_Post r row p)"
  by (auto simp: charge_row_def charged_entry_def entry_key_def split: if_splits)

lemma deduct_step_ok:
  assumes ok: "ledger_ok db" and d: "call_ok db d" and step: "deduct_step num held db d = Some (db', d')"
  shows "ledger_ok db' \<and> extends_db db db' \<and> call_ok db' d'"
proof (cases d)
  case (To_Check r)
  with ok step show ?thesis
    by (auto simp: by_reference_posted settled_def split: if_splits sum.splits option.splits)
next
  case (To_Read r)
  with ok step show ?thesis by auto
next
  case (To_Lock r row)
  with ok step show ?thesis by (auto simp: charge_row_ok split: if_splits sum.splits)
next
  case (To_Post r row p)
  with d obtain e where p: "p = Fresh e" and key: "entry_key e = (cr_reference r, DEBIT)"
    by (cases p) auto
  obtain res s where fin: "ledger_finish num (Fresh e) (open_session db) = (res, s)" by fastforce
  with To_Post p step have "db' = working s" "d' = Answered r res" by auto
  with finish_Fresh_ok [OF ok key fin] show ?thesis by (cases res) (auto simp: settled_def)
next
  case (Answered r x)
  with step show ?thesis by simp
qed

lemma deduct_step_lock:
  assumes "deduct_step num held db d = Some (db', d')" and "lock_of d' = Some k"
  shows "k \<notin> held"
  using assms by (cases d) (auto simp: lock_of_cases split: if_splits sum.splits option.splits prod.splits)

lemma exclusive_update:
  assumes ex: "exclusive ds" and i: "i < length ds"
    and fresh: "\<And>k. lock_of d = Some k \<Longrightarrow> k \<notin> locked_rows ds"
  shows "exclusive (ds[i := d])"
proof -
  have "m = n" if "m < length ds" "n < length ds" "lock_of (ds[i := d] ! m) = Some k"
    "lock_of (ds[i := d] ! n) = Some k" for m n k
  proof (cases "m = i \<or> n = i")
    case True
    with that i fresh show ?thesis by (auto simp: nth_list_update locked_rows_nth split: if_splits)
  next
    case False
    with that ex show ?thesis by (auto simp: exclusive_def)
  qed
  then show ?thesis by (auto simp: exclusive_def)
qed

lemma deductions_start_ok [inv_intros]: "ledger_ok db \<Longrightarrow> deductions_ok (deductions_start db rs)"
  by (auto simp: deductions_ok_def deductions_start_def exclusive_def)

interpretation deduct_fibers: shared_fibers "deduct_step num" ledger_ok call_ok extends_db
  for num
  by unfold_locales (blast dest: deduct_step_ok intro: call_ok_mono)+

lemma lock_step_ok [inv_intros]:
  assumes "deductions_ok c" and "lock_step num c c'"
  shows "deductions_ok c'"
  using assms(2)
proof (rule lock_stepE)
  fix i db d
  assume c': "c' = \<lparr>book = db, calls = (calls c)[i := d]\<rparr>" and i: "i < length (calls c)"
    and step: "deduct_step num (locked_rows (calls c)) (book c) (calls c ! i) = Some (db, d)"
  have "exclusive ((calls c)[i := d])"
    using assms(1) i deduct_step_lock [OF step] by (simp add: deductions_ok_def exclusive_update)
  with c' assms(1) deduct_fibers.advance_all [OF _ _ i step] show ?thesis
    by (simp add: deductions_ok_def)
qed

interpretation locks: step_invariant "\<lambda>c. \<exists>db rs. ledger_ok db \<and> c = deductions_start db rs"
    "lock_step num" deductions_ok
  for num
  by unfold_locales (blast intro: deductions_start_ok lock_step_ok)+



section \<open>What the locks do not keep\<close>

text \<open>A request the balance \<open>b\<close> would pay for, on an account of \<open>db\<close> where it is new.\<close>

definition payable :: "numeric \<Rightarrow> rat \<Rightarrow> ledger_db \<Rightarrow> credit_request \<Rightarrow> bool" where
  "payable num b db r \<longleftrightarrow> 0 < cr_amount r \<and> cr_amount r \<le> b \<and>
     num (cr_amount r) = Some (cr_amount r) \<and> num (b - cr_amount r) = Some (b - cr_amount r) \<and>
     length (cr_reference r) \<le> 255 \<and> cr_user r \<in> set (ld_users db) \<and>
     posted db (cr_reference r, DEBIT) = None"

definition add_debits :: "rat \<Rightarrow> credit_request list \<Rightarrow> ledger_db \<Rightarrow> ledger_db" where
  "add_debits b rs db = db\<lparr>ld_entries := ld_entries db @ map (\<lambda>r. charged_entry r b) rs\<rparr>"

lemma add_debits_simps [simp]:
  "add_debits b [] db = db"
  "add_debits b rs (add_debits b [r] db) = add_debits b (r # rs) db"
  by (simp_all add: add_debits_def)

lemma payable_finish:
  assumes "payable num b db r"
  shows "ledger_finish num (Fresh (charged_entry r b)) (open_session db) =
    (Inr (charged_entry r b), (open_session db)\<lparr>working := add_debits b [r] db\<rparr>)"
proof -
  have "flush_entry num (charged_entry r b) db = Inr (add_debits b [r] db)"
    unfolding flush_entry_Inr using assms
    by (simp add: payable_def charged_entry_def entry_key_def add_debits_def)
  then show ?thesis by (simp add: ledger_finish_def)
qed

lemma payable_add:
  "payable num b db r' \<Longrightarrow> cr_reference r' \<noteq> cr_reference r \<Longrightarrow> payable num b (add_debits b [r] db) r'"
  by (simp add: payable_def add_debits_def posted_append charged_entry_def entry_key_def)

lemma lift_calls:
  assumes "\<And>r held. r \<in> set rs \<Longrightarrow> deduct_step num held db (f r) = Some (db, g r)"
  shows "(lock_step num)\<^sup>*\<^sup>* \<lparr>book = db, calls = ds @ map f rs\<rparr> \<lparr>book = db, calls = ds @ map g rs\<rparr>"
  using assms
proof (induction rs arbitrary: ds)
  case (Cons r rs)
  have "lock_step num \<lparr>book = db, calls = ds @ f r # map f rs\<rparr> \<lparr>book = db, calls = ds @ g r # map f rs\<rparr>"
    by (rule lock_step_middle) (simp add: Cons.prems)
  with Cons.IH [of "ds @ [g r]"] Cons.prems show ?case
    by (auto intro: converse_rtranclp_into_rtranclp)
qed simp

lemma post_all:
  assumes "\<forall>r \<in> set rs. payable num (row_balance row) db r" and "distinct (map cr_reference rs)"
    and "locked_rows ds = {}"
  shows "(lock_step num)\<^sup>*\<^sup>* \<lparr>book = db, calls = ds @ map (\<lambda>r. To_Lock r row) rs\<rparr>
    \<lparr>book = add_debits (row_balance row) rs db,
     calls = ds @ map (\<lambda>r. Answered r (Inr (charged_entry r (row_balance row)))) rs\<rparr>"
  using assms
proof (induction rs arbitrary: db ds)
  case (Cons r rs)
  let ?b = "row_balance row" and ?rest = "map (\<lambda>r. To_Lock r row) rs"
  let ?p = "Fresh (charged_entry r ?b)"
  have free: "locked_rows (ds @ To_Lock r row # ?rest) = {}"
    using Cons.prems(3) by (auto simp: locked_rows_def)
  have pay: "payable num ?b db r" using Cons.prems(1) by simp
  have 1: "lock_step num \<lparr>book = db, calls = ds @ To_Lock r row # ?rest\<rparr>
      \<lparr>book = db, calls = ds @ To_Post r row ?p # ?rest\<rparr>"
    by (rule lock_step_middle) (use pay free in \<open>simp add: charge_row_def payable_def\<close>)
  have 2: "lock_step num \<lparr>book = db, calls = ds @ To_Post r row ?p # ?rest\<rparr>
      \<lparr>book = add_debits ?b [r] db, calls = ds @ Answered r (Inr (charged_entry r ?b)) # ?rest\<rparr>"
    by (rule lock_step_middle) (simp add: payable_finish [OF pay])
  have "(lock_step num)\<^sup>*\<^sup>*
      \<lparr>book = add_debits ?b [r] db, calls = (ds @ [Answered r (Inr (charged_entry r ?b))]) @ ?rest\<rparr>
      \<lparr>book = add_debits ?b rs (add_debits ?b [r] db),
       calls = (ds @ [Answered r (Inr (charged_entry r ?b))]) @
         map (\<lambda>r. Answered r (Inr (charged_entry r ?b))) rs\<rparr>"
    by (rule Cons.IH) (use Cons.prems payable_add in \<open>auto simp: image_iff\<close>)
  with 1 2 show ?case by (auto intro: converse_rtranclp_into_rtranclp)
qed simp

lemma account_total_debits:
  "account_total (add_debits b rs db) u =
     account_total db u - sum_list (map cr_amount (filter (\<lambda>r. cr_user r = u) rs))"
proof (induction rs arbitrary: db)
  case (Cons r rs)
  have "account_total (add_debits b [r] db) u =
      account_total db u - (if cr_user r = u then cr_amount r else 0)"
    by (simp add: add_debits_def signed_amount_def charged_entry_def)
  with Cons [of "add_debits b [r] db"] show ?case by simp
qed simp

text \<open>C6: the row lock does not protect the balance. Any number of deductions with different
  references, each of which the balance would pay for alone, has an interleaving that respects the
  locks in which all of them succeed: every call has read the same last entry, and whoever is
  granted its lock later still computes with the old balance. What was spent is the sum of them all.\<close>

theorem concurrent_deductions_overdraw:
  assumes "\<forall>r \<in> set rs. cr_user r = u \<and> payable num (get_balance db u) db r"
    and "distinct (map cr_reference rs)" and "ledger_ok db"
  shows "\<exists>c. (lock_step num)\<^sup>*\<^sup>* (deductions_start db rs) c \<and>
    calls c = map (\<lambda>r. Answered r (Inr (charged_entry r (get_balance db u)))) rs \<and>
    account_total (book c) u = account_total db u - sum_list (map cr_amount rs)"
proof -
  let ?row = "last_entry u db"
  let ?c = "\<lparr>book = add_debits (get_balance db u) rs db,
     calls = map (\<lambda>r. Answered r (Inr (charged_entry r (get_balance db u)))) rs\<rparr>"
  have "(lock_step num)\<^sup>*\<^sup>* \<lparr>book = db, calls = [] @ map To_Check rs\<rparr> \<lparr>book = db, calls = [] @ map To_Read rs\<rparr>"
    by (rule lift_calls) (use assms in \<open>auto simp: payable_def by_reference_posted\<close>)
  moreover have "(lock_step num)\<^sup>*\<^sup>* \<lparr>book = db, calls = [] @ map To_Read rs\<rparr>
      \<lparr>book = db, calls = [] @ map (\<lambda>r. To_Lock r ?row) rs\<rparr>"
    by (rule lift_calls) (use assms(1) in simp)
  moreover have "(lock_step num)\<^sup>*\<^sup>* \<lparr>book = db, calls = [] @ map (\<lambda>r. To_Lock r ?row) rs\<rparr> ?c"
    using post_all [of rs num ?row db "[]"] assms(1,2) by (simp add: last_entry_balance)
  ultimately have "(lock_step num)\<^sup>*\<^sup>* (deductions_start db rs) ?c"
    by (simp add: deductions_start_def)
  moreover have "filter (\<lambda>r. cr_user r = u) rs = rs" using assms(1) by simp
  ultimately show ?thesis
    by (intro exI [of _ ?c]) (simp add: account_total_debits)
qed


lemmas lock_defs = race_request_def deductions_start_def locked_rows_def charge_row_def row_balance_def
  charged_entry_def demo_ledger_defs

theorem concurrent_deductions_overdraw_witness:
  "\<exists>c. (lock_step numeric_12_4)\<^sup>*\<^sup>* (deductions_start demo_ledger
       [race_request 2 ''b'' 10 7, race_request 3 ''c'' 10 7, race_request 4 ''d'' 10 7]) c \<and>
     account_total (book c) 7 = -18"
proof -
  have "account_total demo_ledger 7 = 12"
    by (simp add: account_total_def signed_amount_def demo_ledger_defs)
  then show ?thesis
    using concurrent_deductions_overdraw [of "[race_request 2 ''b'' 10 7, race_request 3 ''c'' 10 7,
      race_request 4 ''d'' 10 7]" 7 numeric_12_4 demo_ledger]
    by (auto simp: payable_def ledger_ok_def lock_defs)
qed


end
