(* ===== verification/JobConcurrency.thy ===== *)
theory JobConcurrency
  imports Jobs
begin

text \<open>
  Concurrent calls of \<^verbatim>\<open>core/scheduler/job_service.py\<close>'s \<open>update_job_status\<close> and
  \<open>cancel_job\<close>. Both read the row with a plain \<open>SELECT\<close> and write it at the flush; there is no
  \<open>FOR UPDATE\<close> and no version column. The flush sends an \<open>UPDATE\<close> of the attributes whose value
  changed since the row was loaded, for the row of that identifier, whatever the row holds by
  then. Every call is a transaction of its own: one step reads and decides, one step writes and
  commits, and the calls' steps interleave in any order.
\<close>

section \<open>Calls and their steps\<close>

datatype job_operation = Update job_status "string option" "string option" | Cancel

record job_request =
  jq_operation :: job_operation
  jq_job :: uuid
  jq_now :: instant

datatype job_txn =
    Unread job_request
  | Loaded job_request job job
  | Ended job_request "py_exc + job"

record job_race =
  table :: sched_db
  txns :: "job_txn list"

definition job_service :: "job_request \<Rightarrow> sched_db \<Rightarrow> py_exc + job \<times> sched_db" where
  "job_service r db =
     (case jq_operation r of
        Update new result err \<Rightarrow> update_job_status (jq_now r) (jq_job r) new result err db
      | Cancel \<Rightarrow> cancel_job (jq_now r) (jq_job r) db)"

text \<open>The \<open>UPDATE\<close> of a flush: \<open>old\<close> is the row as loaded, \<open>new\<close> the object now, \<open>cur\<close> the row
  in the table.\<close>

definition written :: "'a \<Rightarrow> 'a \<Rightarrow> 'a \<Rightarrow> 'a" where
  "written old new cur = (if new = old then cur else new)"

definition flush_job :: "job \<Rightarrow> job \<Rightarrow> job \<Rightarrow> job" where
  "flush_job old new cur = cur
     \<lparr>j_status := written (j_status old) (j_status new) (j_status cur),
      j_dispatched_at := written (j_dispatched_at old) (j_dispatched_at new) (j_dispatched_at cur),
      j_completed_at := written (j_completed_at old) (j_completed_at new) (j_completed_at cur),
      j_result := written (j_result old) (j_result new) (j_result cur),
      j_error := written (j_error old) (j_error new) (j_error cur),
      j_retry := written (j_retry old) (j_retry new) (j_retry cur)\<rparr>"

lemma written_same [simp]: "written old new old = new"
  by (simp add: written_def)

lemma written_set:
  "(old \<noteq> None \<longrightarrow> new \<noteq> None) \<Longrightarrow> (old \<noteq> None \<longrightarrow> cur \<noteq> None) \<Longrightarrow> new \<noteq> None \<or> cur \<noteq> None \<Longrightarrow>
   written old new cur \<noteq> None"
  by (auto simp: written_def)

text \<open>Rows are never deleted, so the row a call has loaded is there when it writes.\<close>

fun txn_step :: "sched_db \<Rightarrow> job_txn \<Rightarrow> (sched_db \<times> job_txn) option" where
  "txn_step db (Unread r) =
     (case job_service r db of
        Inl x \<Rightarrow> Some (db, Ended r (Inl x))
      | Inr (new, _) \<Rightarrow> map_option (\<lambda>old. (db, Loaded r old new)) (job_at (jq_job r) db))"
| "txn_step db (Loaded r old new) =
     map_option (\<lambda>cur. (put_job (flush_job old new cur) db, Ended r (Inr new))) (job_at (jq_job r) db)"
| "txn_step db (Ended r x) = None"

inductive race_step :: "job_race \<Rightarrow> job_race \<Rightarrow> bool" where
  txn: "i < length (txns c) \<Longrightarrow> txn_step (table c) (txns c ! i) = Some (db, t) \<Longrightarrow>
     race_step c \<lparr>table = db, txns = (txns c)[i := t]\<rparr>"

inductive_cases race_stepE: "race_step c c'"

definition race_start :: "sched_db \<Rightarrow> job_request list \<Rightarrow> job_race" where
  "race_start db rs = \<lparr>table = db, txns = map Unread rs\<rparr>"

lemma race_step_middle:
  assumes "txn_step db t = Some (db', t')"
  shows "race_step \<lparr>table = db, txns = xs @ t # ys\<rparr> \<lparr>table = db', txns = xs @ t' # ys\<rparr>"
proof -
  let ?c = "\<lparr>table = db, txns = xs @ t # ys\<rparr>"
  have "race_step ?c \<lparr>table = db', txns = (txns ?c)[length xs := t']\<rparr>"
    by (rule race_step.txn) (use assms in \<open>simp_all add: nth_append\<close>)
  then show ?thesis by simp
qed

section \<open>One call alone is the service\<close>

text \<open>Times that were set are never cleared.\<close>

definition later_row :: "job \<Rightarrow> job \<Rightarrow> bool" where
  "later_row old cur \<longleftrightarrow>
     (j_dispatched_at old \<noteq> None \<longrightarrow> j_dispatched_at cur \<noteq> None) \<and>
     (j_completed_at old \<noteq> None \<longrightarrow> j_completed_at cur \<noteq> None)"

text \<open>What a call has changed when it succeeds, for either operation.\<close>

lemma valid_transition_moves: "st \<notin> valid_transitions st"
  by (cases st) auto

lemma job_service_Inr:
  assumes "job_service r db = Inr (new, db')"
  obtains old where "job_at (jq_job r) db = Some old" "db' = put_job new db" "j_id new = j_id old"
    "j_status new \<noteq> j_status old" "flush_job old new old = new" "later_row old new"
    "job_ok old \<longrightarrow> job_ok new"
proof (cases "jq_operation r")
  case (Update st result err)
  with assms obtain old where "job_at (jq_job r) db = Some old" "st \<in> valid_transitions (j_status old)"
    "new = transition_job (jq_now r) st result err old" "db' = put_job new db"
    by (auto simp: job_service_def update_job_status_Inr)
  then show ?thesis
    by (intro that [of old]) (auto simp: flush_job_def later_row_def valid_transition_moves intro: transition_job_ok)
next
  case Cancel
  with assms obtain old where "job_at (jq_job r) db = Some old" "j_status old \<in> {QUEUED, DISPATCHED}"
    "new = cancelled (jq_now r) old" "db' = put_job new db"
    by (auto simp: job_service_def cancel_job_Inr)
  then show ?thesis
    by (intro that [of old]) (auto simp: flush_job_def later_row_def cancelled_def intro: cancelled_ok [unfolded cancelled_def])
qed


lemma load_txn:
  assumes "job_service r db = Inr (new, db')" and "job_at (jq_job r) db = Some old"
  shows "race_step \<lparr>table = db, txns = xs @ Unread r # ys\<rparr> \<lparr>table = db, txns = xs @ Loaded r old new # ys\<rparr>"
  by (rule race_step_middle) (use assms in simp)

lemma write_txn:
  assumes "job_at (jq_job r) db = Some cur"
  shows "race_step \<lparr>table = db, txns = xs @ Loaded r old new # ys\<rparr>
    \<lparr>table = put_job (flush_job old new cur) db, txns = xs @ Ended r (Inr new) # ys\<rparr>"
  by (rule race_step_middle) (use assms in simp)

lemma serve_txn:
  assumes "job_service r db = Inr (new, db')"
  shows "race_step\<^sup>*\<^sup>* \<lparr>table = db, txns = xs @ Unread r # ys\<rparr> \<lparr>table = db', txns = xs @ Ended r (Inr new) # ys\<rparr>"
proof -
  from assms obtain old where old: "job_at (jq_job r) db = Some old" "db' = put_job new db"
    "flush_job old new old = new" by (rule job_service_Inr)
  with load_txn [OF assms old(1), of xs ys] write_txn [OF old(1), of xs old new ys] show ?thesis
    by auto
qed

text \<open>The two steps are the service. A call that runs with no other transaction in between
  ends with what \<open>update_job_status\<close> or \<open>cancel_job\<close> answers and leaves the table they leave; an
  error leaves the table as it was.\<close>

theorem job_txn_alone:
  "case job_service r db of
     Inl x \<Rightarrow> race_step\<^sup>*\<^sup>* (race_start db [r]) \<lparr>table = db, txns = [Ended r (Inl x)]\<rparr>
   | Inr (j, db') \<Rightarrow> race_step\<^sup>*\<^sup>* (race_start db [r]) \<lparr>table = db', txns = [Ended r (Inr j)]\<rparr>"
proof (cases "job_service r db")
  case (Inl x)
  then have "race_step (race_start db [r]) \<lparr>table = db, txns = [Ended r (Inl x)]\<rparr>"
    using race_step_middle [of db "Unread r" db _ "[]" "[]"] by (simp add: race_start_def)
  with Inl show ?thesis by auto
next
  case (Inr q)
  then show ?thesis
    using serve_txn [of r db _ _ "[]" "[]"] by (cases q) (simp add: race_start_def)
qed

section \<open>What every interleaving keeps\<close>

text \<open>A row that a stale call writes over stays well formed.\<close>

fun txn_ok :: "sched_db \<Rightarrow> job_txn \<Rightarrow> bool" where
  "txn_ok db (Loaded r old new) \<longleftrightarrow> j_id old = jq_job r \<and> job_ok new \<and> 
     j_status new \<noteq> j_status old \<and> later_row old new \<and>
     (\<exists>cur. job_at (jq_job r) db = Some cur \<and> later_row old cur)"
| "txn_ok db _ = True"

definition later_table :: "sched_db \<Rightarrow> sched_db \<Rightarrow> bool" where
  "later_table db db' \<longleftrightarrow> (\<forall>i cur. job_at i db = Some cur \<longrightarrow>
     (\<exists>cur'. job_at i db' = Some cur' \<and> later_row cur cur'))"

definition race_ok :: "job_race \<Rightarrow> bool" where
  "race_ok c \<longleftrightarrow> jobs_ok (table c) \<and> (\<forall>t \<in> set (txns c). txn_ok (table c) t)"

lemma later_row_refl [simp]: "later_row j j"
  by (simp add: later_row_def)

lemma later_row_trans: "later_row i j \<Longrightarrow> later_row j k \<Longrightarrow> later_row i k"
  by (simp add: later_row_def)

lemma later_table_refl [simp]: "later_table db db"
  by (simp add: later_table_def)

lemma later_tableD:
  "later_table db db' \<Longrightarrow> job_at i db = Some cur \<Longrightarrow> \<exists>cur'. job_at i db' = Some cur' \<and> later_row cur cur'"
  by (simp add: later_table_def)

lemma txn_ok_later: "txn_ok db t \<Longrightarrow> later_table db db' \<Longrightarrow> txn_ok db' t"
  by (cases t) (auto dest: later_tableD intro: later_row_trans)

lemma flush_job_id [simp]: "j_id (flush_job old new cur) = j_id cur"
  by (simp add: flush_job_def)

lemma flush_job_times:
  assumes "later_row old new" and "later_row old cur"
  shows "later_row new (flush_job old new cur)" and "later_row cur (flush_job old new cur)"
  using assms by (simp_all add: flush_job_def later_row_def written_set del: not_None_eq)

lemma flush_job_ok:
  assumes "job_ok new" and "job_ok cur" and "j_status new \<noteq> j_status old"
    and "later_row old new" and "later_row old cur"
  shows "job_ok (flush_job old new cur)"
proof -
  have "j_status (flush_job old new cur) = j_status new" "0 \<le> j_retry (flush_job old new cur)"
    using assms(1,2,3) by (simp_all add: flush_job_def written_def job_ok_def)
  with assms(1) flush_job_times(1) [OF assms(4,5)] show ?thesis
    by (simp add: job_ok_def later_row_def)
qed

lemma txn_step_ok:
  assumes ok: "jobs_ok db" and t: "txn_ok db t" and step: "txn_step db t = Some (db', t')"
  shows "jobs_ok db' \<and> later_table db db' \<and> txn_ok db' t'"
proof (cases t)
  case (Unread r)
  show ?thesis
  proof (cases "job_service r db")
    case (Inl x)
    with Unread ok step show ?thesis by auto
  next
    case (Inr q)
    then obtain new d where q: "job_service r db = Inr (new, d)" by (cases q) auto
    then obtain old where old: "job_at (jq_job r) db = Some old" "j_status new \<noteq> j_status old"
      "later_row old new" "job_ok old \<longrightarrow> job_ok new"
      by (rule job_service_Inr)
    from Unread q old(1) step have "db' = db" "t' = Loaded r old new" by auto
    with ok old jobs_okD [OF ok old(1)] job_at_id [OF old(1)] show ?thesis by simp
  qed
next
  case (Loaded r old new)
  with t obtain cur where cur: "job_at (jq_job r) db = Some cur" "later_row old cur"
    and new: "job_ok new" "j_status new \<noteq> j_status old" "later_row old new" by auto
  have *: "job_ok (flush_job old new cur)" "later_row cur (flush_job old new cur)"
    using flush_job_ok [OF new(1) jobs_okD [OF ok cur(1)] new(2,3) cur(2)]
      flush_job_times [OF new(3) cur(2)] by simp_all
  from Loaded step cur have "db' = put_job (flush_job old new cur) db" "t' = Ended r (Inr new)" by auto
  with * cur ok job_at_id [OF cur(1)] show ?thesis
    by (auto simp: later_table_def intro: put_job_ok)
next
  case (Ended r x)
  with step show ?thesis by simp
qed

interpretation job_fibers: shared_fibers "\<lambda>_. txn_step" jobs_ok txn_ok later_table
  by unfold_locales (blast dest: txn_step_ok intro: txn_ok_later)+

lemma race_step_ok [inv_intros]:
  assumes "race_ok c" and "race_step c c'"
  shows "race_ok c'"
  using assms(2)
proof (rule race_stepE)
  fix i db t
  assume c': "c' = \<lparr>table = db, txns = (txns c)[i := t]\<rparr>" and i: "i < length (txns c)"
    and step: "txn_step (table c) (txns c ! i) = Some (db, t)"
  with assms(1) job_fibers.advance_all [OF _ _ i step] show ?thesis by (simp add: race_ok_def)
qed

lemma race_start_ok [inv_intros]: "jobs_ok db \<Longrightarrow> race_ok (race_start db rs)"
  by (auto simp: race_ok_def race_start_def)

interpretation job_races: step_invariant "\<lambda>c. \<exists>db rs. jobs_ok db \<and> c = race_start db rs"
    race_step race_ok
  by unfold_locales (blast intro: race_start_ok race_step_ok)+


text \<open>C9: job rows stay well formed in every interleaving. However the reads and writes of
  concurrent status changes and cancellations of any jobs are mixed, identifiers stay unique, a
  job that runs or completed has its dispatch time, a job that ended has its completion time and
  no retry counter is negative: columns of different calls are mixed in one row, but none of them
  is cleared.\<close>

theorem concurrent_jobs_well_formed:
  assumes "jobs_ok db" and "race_step\<^sup>*\<^sup>* (race_start db rs) c"
  shows "jobs_ok (table c)"
  using job_races.inv_reachable [OF _ assms(2)] assms(1) by (auto simp: race_ok_def)

section \<open>What stale writes lose\<close>

lemma lift_txns:
  assumes "\<And>r. r \<in> set rs \<Longrightarrow> txn_step db (f r) = Some (db, g r)"
  shows "race_step\<^sup>*\<^sup>* \<lparr>table = db, txns = ts @ map f rs\<rparr> \<lparr>table = db, txns = ts @ map g rs\<rparr>"
  using assms
proof (induction rs arbitrary: ts)
  case (Cons r rs)
  have "race_step \<lparr>table = db, txns = ts @ f r # map f rs\<rparr> \<lparr>table = db, txns = ts @ g r # map f rs\<rparr>"
    by (rule race_step_middle) (simp add: Cons.prems)
  with Cons.IH [of "ts @ [g r]"] Cons.prems show ?case
    by (auto intro: converse_rtranclp_into_rtranclp)
qed simp

definition requeue :: "uuid \<Rightarrow> instant \<Rightarrow> job_request" where
  "requeue i now = \<lparr>jq_operation = Update QUEUED None None, jq_job = i, jq_now = now\<rparr>"

definition requeued :: "job \<Rightarrow> job" where
  "requeued j = j\<lparr>j_retry := j_retry j + 1, j_status := QUEUED\<rparr>"

lemma requeue_service:
  "job_at i db = Some j \<Longrightarrow> j_status j = FAILED \<Longrightarrow>
   job_service (requeue i now) db = Inr (requeued j, put_job (requeued j) db)"
  by (simp add: job_service_def requeue_def update_job_status_def transition_job_def requeued_def Let_def)

lemma flush_requeued:
  "j_status j = FAILED \<Longrightarrow> cur \<in> {j, requeued j} \<Longrightarrow> flush_job j (requeued j) cur = requeued j"
  by (auto simp: flush_job_def requeued_def written_def)

lemma put_requeued_twice: "put_job (requeued j) (put_job (requeued j) db) = put_job (requeued j) db"
proof -
  have "row_update key k (\<lambda>_. x) (row_update key k (\<lambda>_. x) rows) = row_update key k (\<lambda>_. x) rows"
    if "key x = k" for key :: "job \<Rightarrow> uuid" and k x rows
    using that by (induction rows) auto
  then show ?thesis by (simp add: put_job_def)
qed

lemma write_requeued:
  assumes "job_at i db = Some j" and "j_status j = FAILED"
  shows "race_step\<^sup>*\<^sup>*
    \<lparr>table = put_job (requeued j) db, txns = ts @ map (\<lambda>now. Loaded (requeue i now) j (requeued j)) nows\<rparr>
    \<lparr>table = put_job (requeued j) db, txns = ts @ map (\<lambda>now. Ended (requeue i now) (Inr (requeued j))) nows\<rparr>"
proof (rule lift_txns)
  have "job_at i (put_job (requeued j) db) = Some (requeued j)"
    using assms(1) job_at_id [OF assms(1)] by (simp add: requeued_def)
  then show "txn_step (put_job (requeued j) db) (Loaded (requeue i now) j (requeued j)) =
      Some (put_job (requeued j) db, Ended (requeue i now) (Inr (requeued j)))" for now
    using assms(2) by (simp add: requeue_def flush_requeued put_requeued_twice)
qed

text \<open>Concurrent retries of one job count once. Any number of requeues of a FAILED job has an
  interleaving in which every one of them succeeds and the retry counter has gone up by one: each
  has read the same row, and each writes the counter it computed from it. Run one after the other,
  all but the first are refused, because a QUEUED job cannot be queued.\<close>

theorem concurrent_requeues_count_once:
  assumes "job_at i db = Some j" and "j_status j = FAILED"
  shows "\<exists>c. race_step\<^sup>*\<^sup>* (race_start db (map (requeue i) (now # nows))) c \<and>
    txns c = map (\<lambda>n. Ended (requeue i n) (Inr (requeued j))) (now # nows) \<and>
    job_at i (table c) = Some (requeued j) \<and> j_retry (requeued j) = j_retry j + 1"
proof -
  let ?load = "\<lambda>n. Loaded (requeue i n) j (requeued j)" and ?past = "\<lambda>n. Ended (requeue i n) (Inr (requeued j))"
  let ?db = "put_job (requeued j) db"
  let ?c = "\<lparr>table = ?db, txns = map ?past (now # nows)\<rparr>"
  have "race_step\<^sup>*\<^sup>* \<lparr>table = db, txns = [] @ map (\<lambda>n. Unread (requeue i n)) (now # nows)\<rparr>
      \<lparr>table = db, txns = [] @ map ?load (now # nows)\<rparr>"
    by (rule lift_txns) (use assms requeue_service in \<open>simp add: requeue_def\<close>)
  moreover have "race_step \<lparr>table = db, txns = [] @ ?load now # map ?load nows\<rparr>
      \<lparr>table = ?db, txns = [] @ ?past now # map ?load nows\<rparr>"
    by (rule race_step_middle) (use assms in \<open>simp add: requeue_def flush_requeued\<close>)
  moreover have "race_step\<^sup>*\<^sup>* \<lparr>table = ?db, txns = [?past now] @ map ?load nows\<rparr> ?c"
    using write_requeued [OF assms, of "[?past now]" nows] by simp
  ultimately have "race_step\<^sup>*\<^sup>* (race_start db (map (requeue i) (now # nows))) ?c"
    by (auto simp: race_start_def comp_def)
  moreover have "job_at i ?db = Some (requeued j)"
    using assms(1) job_at_id [OF assms(1)] by (simp add: requeued_def)
  ultimately show ?thesis by (intro exI [of _ ?c]) (simp add: requeued_def)
qed


text \<open>C10: a cancellation can overwrite a completed job. The call read the row while the job was
  DISPATCHED; the node then started and completed it, and both changes were committed; the
  cancellation, which knows nothing of that, succeeds and leaves the job FAILED, with the result it
  has produced. COMPLETED is final in the transition table only.\<close>

theorem cancel_overwrites_completed:
  assumes "job_at i db = Some j" and "j_status j = DISPATCHED"
    and "rs = [\<lparr>jq_operation = Cancel, jq_job = i, jq_now = now\<rparr>,
               \<lparr>jq_operation = Update RUNNING None None, jq_job = i, jq_now = started\<rparr>,
               \<lparr>jq_operation = Update COMPLETED (Some out) None, jq_job = i, jq_now = ended\<rparr>]"
  shows "\<exists>c1 c2 done_job last_job. race_step\<^sup>*\<^sup>* (race_start db rs) c1 \<and> race_step\<^sup>*\<^sup>* c1 c2 \<and>
    job_at i (table c1) = Some done_job \<and> j_status done_job = COMPLETED \<and>
    job_at i (table c2) = Some last_job \<and> j_status last_job = FAILED \<and>
    j_result last_job = Some out \<and>
    (\<exists>x y z. txns c2 = [Ended (rs ! 0) (Inr x), Ended (rs ! 1) (Inr y), Ended (rs ! 2) (Inr z)])"
proof -
  obtain ca ru co where rs: "rs = [ca, ru, co]"
    and req: "jq_operation ca = Cancel" "jq_operation ru = Update RUNNING None None"
      "jq_operation co = Update COMPLETED (Some out) None" "jq_now ca = now" "jq_now ru = started"
      "jq_now co = ended" "jq_job ca = i" "jq_job ru = i" "jq_job co = i"
    by (rule that [OF assms(3)]) simp_all
  define run fin can where defs: "run = transition_job started RUNNING None None j"
    "fin = transition_job ended COMPLETED (Some out) None run" "can = cancelled now j"
  let ?d1 = "put_job run db" and ?d2 = "put_job fin (put_job run db)" and ?past = "flush_job j can fin"
  have i [simp]: "j_id j = i" "j_id run = i" "j_id fin = i"
    using job_at_id [OF assms(1)] by (simp_all add: defs)
  have rows: "job_at i ?d1 = Some run" "job_at i ?d2 = Some fin" using assms(1) by simp_all
  have serve: "job_service ca db = Inr (can, put_job can db)" "job_service ru db = Inr (run, ?d1)"
    "job_service co ?d1 = Inr (fin, ?d2)"
    using assms(1,2) rows(1) req
    by (simp_all add: job_service_def cancel_job_def update_job_status_def Let_def defs)
  let ?R = "Ended ru (Inr run)" and ?C = "Ended co (Inr fin)"
  let ?c1 = "\<lparr>table = ?d2, txns = [Loaded ca j can, ?R, ?C]\<rparr>"
  let ?c2 = "\<lparr>table = put_job ?past ?d2, txns = [Ended ca (Inr can), ?R, ?C]\<rparr>"
  have "race_step (race_start db rs) \<lparr>table = db, txns = [Loaded ca j can, Unread ru, Unread co]\<rparr>"
    using load_txn [OF serve(1), of j "[]"] assms(1) req by (simp add: race_start_def rs)
  moreover have "race_step\<^sup>*\<^sup>* \<lparr>table = db, txns = [Loaded ca j can, Unread ru, Unread co]\<rparr>
      \<lparr>table = ?d1, txns = [Loaded ca j can, ?R, Unread co]\<rparr>"
    using serve_txn [OF serve(2), of "[Loaded ca j can]"] by simp
  moreover have "race_step\<^sup>*\<^sup>* \<lparr>table = ?d1, txns = [Loaded ca j can, ?R, Unread co]\<rparr> ?c1"
    using serve_txn [OF serve(3), of "[Loaded ca j can, ?R]" "[]"] by simp
  ultimately have 1: "race_step\<^sup>*\<^sup>* (race_start db rs) ?c1"
    by (meson converse_rtranclp_into_rtranclp rtranclp_trans)
  have 2: "race_step ?c1 ?c2"
    using write_txn [of ca ?d2 fin "[]"] rows(2) req by simp
  have "j_status ?past = FAILED" "j_result ?past = Some out" "j_status fin = COMPLETED"
    using assms(2) by (simp_all add: defs flush_job_def written_def cancelled_def)
  with 1 2 rows show ?thesis by (intro exI [of _ ?c1] exI [of _ ?c2]) (auto simp: rs)
qed


section \<open>Witnesses\<close>

definition race_row :: "job_status \<Rightarrow> job" where
  "race_row st = \<lparr>j_id = 9, j_node = 1, j_type = ''render'', j_payload = ''p'', j_status = st,
     j_queued_at = 5, j_dispatched_at = Some 5, j_completed_at = Some 6, j_result = None, j_error = None,
     j_retry = 0, j_created_at = 5\<rparr>"

definition race_table :: "job_status \<Rightarrow> sched_db" where
  "race_table st = \<lparr>sd_nodes = [], sd_jobs = [race_row st], sd_dlq = []\<rparr>"

lemmas race_demo = race_row_def race_table_def

theorem concurrent_requeues_count_once_witness:
  "\<exists>c. race_step\<^sup>*\<^sup>* (race_start (race_table FAILED) (map (requeue 9) [10, 11, 12])) c \<and>
     job_at 9 (table c) = Some (requeued (race_row FAILED)) \<and> j_retry (requeued (race_row FAILED)) = 1"
  using concurrent_requeues_count_once [of 9 "race_table FAILED" "race_row FAILED" 10 "[11, 12]"]
  by (auto simp: race_demo)

theorem concurrent_jobs_well_formed_witness:
  "\<exists>c. race_step\<^sup>*\<^sup>* (race_start (race_table FAILED) [requeue 9 10]) c \<and> c \<noteq> race_start (race_table FAILED) [requeue 9 10] \<and>
     jobs_ok (table c)"
proof -
  let ?c = "race_start (race_table FAILED) [requeue 9 10]"
  have "race_step ?c \<lparr>table = race_table FAILED, txns = [Loaded (requeue 9 10) (race_row FAILED) (requeued (race_row FAILED))]\<rparr>"
    using load_txn [of "requeue 9 10" "race_table FAILED" "requeued (race_row FAILED)" _ "race_row FAILED" "[]" "[]"]
      requeue_service [of 9 "race_table FAILED" "race_row FAILED"]
    by (simp add: race_start_def requeue_def race_demo)
  then have steps: "race_step\<^sup>*\<^sup>* ?c \<lparr>table = race_table FAILED, txns = [Loaded (requeue 9 10) (race_row FAILED) (requeued (race_row FAILED))]\<rparr>"
    by (rule r_into_rtranclp)
  have "jobs_ok (race_table FAILED)" by (simp add: jobs_ok_def job_ok_def race_demo)
  from concurrent_jobs_well_formed [OF this steps] steps show ?thesis
    by (intro exI [of _ "\<lparr>table = race_table FAILED, txns = [Loaded (requeue 9 10) (race_row FAILED) (requeued (race_row FAILED))]\<rparr>"])
      (simp add: race_start_def)
qed

theorem cancel_overwrites_completed_witness:
  "\<exists>c1 c2 j1 j2. race_step\<^sup>*\<^sup>* c1 c2 \<and> job_at 9 (table c1) = Some j1 \<and> j_status j1 = COMPLETED \<and>
     job_at 9 (table c2) = Some j2 \<and> j_status j2 = FAILED \<and> j_result j2 = Some ''s3://out''"
proof -
  have "job_at 9 (race_table DISPATCHED) = Some (race_row DISPATCHED)" "j_status (race_row DISPATCHED) = DISPATCHED"
    by (simp_all add: race_demo)
  from cancel_overwrites_completed [OF this refl, where out = "''s3://out''"] show ?thesis by blast
qed

end
