(* ===== verification/NodeConcurrency.thy ===== *)
theory NodeConcurrency
  imports Lifecycle
begin

text \<open>
  Concurrent calls of \<^verbatim>\<open>core/scheduler/service.py\<close>'s \<open>register_node\<close>. It looks the public key up
  and inserts a row when there is none; \<open>edge_nodes.public_key\<close> has no unique constraint, neither in
  \<^verbatim>\<open>core/scheduler/models.py\<close> nor in the migrations, so nothing ties the insertion to the lookup.
  Every call is a transaction of its own: one step looks up and answers when it found a row, one
  step inserts and commits. The steps of the calls interleave in any order.
\<close>

section \<open>Calls and their steps\<close>

record registration =
  rg_now :: instant
  rg_id :: uuid
  rg_jti :: uuid
  rg_challenge :: string
  rg_name :: string
  rg_key :: string
  rg_caps :: "string list"
  rg_metadata :: json

type_synonym registered = "edge_node \<times> string \<times> string"

datatype enrol =
    Asked registration
  | Unknown registration
  | Answered registration "py_exc + registered"

record enrol_race =
  fleet :: sched_db
  enrols :: "enrol list"

definition register_call :: "jwt_encode \<Rightarrow> registration \<Rightarrow> sched_db \<Rightarrow> py_exc + registered \<times> sched_db" where
  "register_call enc r db = register_node enc (rg_now r) (rg_id r) (rg_jti r) (rg_challenge r) (rg_name r)
     (rg_key r) (rg_caps r) (rg_metadata r) db"

definition with_key :: "string \<Rightarrow> sched_db \<Rightarrow> edge_node list" where
  "with_key pk db = filter (\<lambda>n. en_public_key n = pk) (sd_nodes db)"

text \<open>The first half of \<open>register_node\<close>: the lookup, and the answer for a known key.\<close>

definition look_up :: "jwt_encode \<Rightarrow> registration \<Rightarrow> sched_db \<Rightarrow> enrol" where
  "look_up enc r db =
     (case scalar_one_or_none (with_key (rg_key r) db) of
        Inl x \<Rightarrow> Answered r (Inl x)
      | Inr (Some n) \<Rightarrow>
          Answered r (Inr (n, rg_challenge r, create_node_token enc (rg_now r) (rg_jti r) (en_id n)
            (if rg_caps r \<noteq> [] then rg_caps r else json_strings (en_capabilities n))))
      | Inr None \<Rightarrow> Unknown r)"

text \<open>The second half: the insertion, whatever the table holds by then.\<close>

definition enrolled :: "registration \<Rightarrow> edge_node" where
  "enrolled r = new_node (rg_id r) (rg_now r) (rg_name r) (rg_key r) (rg_caps r) (rg_metadata r)"

definition insert_node :: "jwt_encode \<Rightarrow> registration \<Rightarrow> sched_db \<Rightarrow> registered \<times> sched_db" where
  "insert_node enc r db =
     ((enrolled r, rg_challenge r, create_node_token enc (rg_now r) (rg_jti r) (rg_id r) (rg_caps r)),
      db\<lparr>sd_nodes := sd_nodes db @ [enrolled r]\<rparr>)"

fun enrol_step :: "jwt_encode \<Rightarrow> sched_db \<Rightarrow> enrol \<Rightarrow> (sched_db \<times> enrol) option" where
  "enrol_step enc db (Asked r) = Some (db, look_up enc r db)"
| "enrol_step enc db (Unknown r) =
     (case insert_node enc r db of (out, db') \<Rightarrow> Some (db', Answered r (Inr out)))"
| "enrol_step enc db (Answered r x) = None"

inductive enrol_race_step :: "jwt_encode \<Rightarrow> enrol_race \<Rightarrow> enrol_race \<Rightarrow> bool" for enc where
  enrol: "i < length (enrols c) \<Longrightarrow> enrol_step enc (fleet c) (enrols c ! i) = Some (db, e) \<Longrightarrow>
     enrol_race_step enc c \<lparr>fleet = db, enrols = (enrols c)[i := e]\<rparr>"

inductive_cases enrol_race_stepE: "enrol_race_step enc c c'"

definition enrol_start :: "sched_db \<Rightarrow> registration list \<Rightarrow> enrol_race" where
  "enrol_start db rs = \<lparr>fleet = db, enrols = map Asked rs\<rparr>"

lemma enrol_step_middle:
  assumes "enrol_step enc db e = Some (db', e')"
  shows "enrol_race_step enc \<lparr>fleet = db, enrols = xs @ e # ys\<rparr> \<lparr>fleet = db', enrols = xs @ e' # ys\<rparr>"
proof -
  let ?c = "\<lparr>fleet = db, enrols = xs @ e # ys\<rparr>"
  have "enrol_race_step enc ?c \<lparr>fleet = db', enrols = (enrols ?c)[length xs := e']\<rparr>"
    by (rule enrol_race_step.enrol) (use assms in \<open>simp_all add: nth_append\<close>)
  then show ?thesis by simp
qed

section \<open>One call alone is the service\<close>

lemma register_call_halves:
  "register_call enc r db =
     (case look_up enc r db of
        Answered _ (Inl x) \<Rightarrow> Inl x
      | Answered _ (Inr out) \<Rightarrow> Inr (out, db)
      | _ \<Rightarrow> Inr (insert_node enc r db))"
  by (simp add: register_call_def register_node_def look_up_def with_key_def insert_node_def enrolled_def Let_def
      split: sum.splits option.splits)

lemma look_up_cases:
  obtains (refused) x where "look_up enc r db = Answered r (Inl x)"
  | (known) out where "look_up enc r db = Answered r (Inr out)"
  | (unknown) "look_up enc r db = Unknown r" "with_key (rg_key r) db = []"
proof (cases "scalar_one_or_none (with_key (rg_key r) db)")
  case (Inl x)
  then show ?thesis by (intro refused [of x]) (simp add: look_up_def)
next
  case (Inr found)
  then show ?thesis
    by (cases found) (auto simp: look_up_def scalar_one_or_none_None intro: known unknown)
qed

text \<open>A call that runs with no other transaction in between ends with what \<open>register_node\<close> answers
  and leaves the table it leaves.\<close>

theorem registration_alone:
  "case register_call enc r db of
     Inl x \<Rightarrow> (enrol_race_step enc)\<^sup>*\<^sup>* (enrol_start db [r]) \<lparr>fleet = db, enrols = [Answered r (Inl x)]\<rparr>
   | Inr (out, db') \<Rightarrow>
       (enrol_race_step enc)\<^sup>*\<^sup>* (enrol_start db [r]) \<lparr>fleet = db', enrols = [Answered r (Inr out)]\<rparr>"
proof -
  have start: "enrol_race_step enc (enrol_start db [r]) \<lparr>fleet = db, enrols = [look_up enc r db]\<rparr>"
    using enrol_step_middle [of enc db "Asked r" db _ "[]" "[]"] by (simp add: enrol_start_def)
  show ?thesis
  proof (cases rule: look_up_cases [of enc r db])
    case unknown
    obtain out db' where ins: "insert_node enc r db = (out, db')" by fastforce
    then have "enrol_race_step enc \<lparr>fleet = db, enrols = [Unknown r]\<rparr> \<lparr>fleet = db', enrols = [Answered r (Inr out)]\<rparr>"
      using enrol_step_middle [of enc db "Unknown r" db' _ "[]" "[]"] by simp
    with start unknown ins show ?thesis by (simp add: register_call_halves)
  qed (use start in \<open>auto simp: register_call_halves\<close>)
qed

section \<open>What every interleaving keeps\<close>

text \<open>Rows are added and never changed, and a node that a call has answered is in the table.\<close>

definition grows :: "sched_db \<Rightarrow> sched_db \<Rightarrow> bool" where
  "grows db db' \<longleftrightarrow> (\<exists>new. sd_nodes db' = sd_nodes db @ new)"

fun enrol_ok :: "sched_db \<Rightarrow> enrol \<Rightarrow> bool" where
  "enrol_ok db (Answered r (Inr (n, ch, tok))) \<longleftrightarrow> n \<in> set (with_key (rg_key r) db)"
| "enrol_ok db _ = True"

lemma grows_refl [simp]: "grows db db"
  by (simp add: grows_def)

lemma grows_trans: "grows a b \<Longrightarrow> grows b c \<Longrightarrow> grows a c"
  by (auto simp: grows_def)

lemma grows_with_key: "grows db db' \<Longrightarrow> set (with_key pk db) \<subseteq> set (with_key pk db')"
  by (auto simp: grows_def with_key_def)

lemma enrol_ok_later: "enrol_ok db e \<Longrightarrow> grows db db' \<Longrightarrow> enrol_ok db' e"
  by (cases "(db, e)" rule: enrol_ok.cases) (use grows_with_key in auto)

lemma look_up_ok: "enrol_ok db (look_up enc r db)"
  by (auto simp: look_up_def scalar_one_or_none_Some split: sum.split option.split)

lemma insert_node_ok:
  "insert_node enc r db = (out, db') \<Longrightarrow> grows db db' \<and> enrol_ok db' (Answered r (Inr out))"
  by (auto simp: insert_node_def grows_def with_key_def enrolled_def new_node_def)

lemma enrol_step_ok:
  assumes "enrol_ok db e" and "enrol_step enc db e = Some (db', e')"
  shows "grows db db' \<and> enrol_ok db' e'"
proof (cases e)
  case (Unknown r)
  with assms(2) insert_node_ok [of enc r db] show ?thesis by (auto split: prod.splits)
qed (use assms look_up_ok in auto)

interpretation enrol_fibers: shared_fibers enrol_step "\<lambda>_. True" enrol_ok grows
  by unfold_locales (blast dest: enrol_step_ok intro: enrol_ok_later)+

lemma enrol_race_keeps:
  assumes "(enrol_race_step enc)\<^sup>*\<^sup>* (enrol_start db rs) c"
  shows "grows db (fleet c) \<and> (\<forall>e \<in> set (enrols c). enrol_ok (fleet c) e)"
  using assms
proof (induction rule: rtranclp_induct)
  case base
  show ?case by (simp add: enrol_start_def)
next
  case (step c c')
  from step.hyps(2) show ?case
  proof (rule enrol_race_stepE)
    fix i db' e
    assume c': "c' = \<lparr>fleet = db', enrols = (enrols c)[i := e]\<rparr>" and i: "i < length (enrols c)"
      and adv: "enrol_step enc (fleet c) (enrols c ! i) = Some (db', e)"
    from i step.IH have "enrol_ok (fleet c) (enrols c ! i)" by simp
    from enrol_step_ok [OF this adv] step.IH have "grows db db'" by (blast intro: grows_trans)
    with enrol_fibers.advance_all [OF TrueI _ i adv] step.IH c' show ?thesis by simp
  qed
qed

text \<open>No interleaving loses a registration: the rows of before stay in front as they were, and
  every node that a call answered is in the table under the key of the call.\<close>

theorem registrations_kept:
  assumes "(enrol_race_step enc)\<^sup>*\<^sup>* (enrol_start db rs) c"
  shows "(\<exists>new. sd_nodes (fleet c) = sd_nodes db @ new) \<and>
    (\<forall>r n ch tok. Answered r (Inr (n, ch, tok)) \<in> set (enrols c) \<longrightarrow>
       n \<in> set (sd_nodes (fleet c)) \<and> en_public_key n = rg_key r)"
  using enrol_race_keeps [OF assms] by (fastforce simp: grows_def with_key_def)

section \<open>One key, two rows\<close>

text \<open>Every operation of the scheduler leaves the keys of the rows as they are and at most adds one.\<close>

lemma put_same_key:
  assumes "distinct (map en_id (sd_nodes db))" and "node_at (en_id n) db = Some cur"
    and "en_public_key n = en_public_key cur"
  shows "map en_public_key (sd_nodes (put_node n db)) = map en_public_key (sd_nodes db)"
proof -
  have "m = cur" if "m \<in> set (sd_nodes db)" "en_id m = en_id n" for m
    using row_at_distinct [OF assms(1) that(1)] that(2) assms(2) by simp
  with assms(3) show ?thesis by (auto simp: put_node_def row_update_def)
qed

lemma set_node_status_keys: "map en_public_key (sd_nodes (set_node_status n st db)) = map en_public_key (sd_nodes db)"
  by (simp add: set_node_status_def row_update_def set_status_def)

lemma mark_stale_keys: "map en_public_key (sd_nodes (snd (mark_stale_nodes now db))) = map en_public_key (sd_nodes db)"
  by (simp add: mark_stale_nodes_def update_where_def)

definition keys_grow :: "sched_db \<Rightarrow> sched_db \<Rightarrow> bool" where
  "keys_grow db db' \<longleftrightarrow>
     (\<exists>new. map en_public_key (sd_nodes db') = map en_public_key (sd_nodes db) @ new)"

lemma keys_growI [intro]: "map en_public_key (sd_nodes db') = map en_public_key (sd_nodes db) \<Longrightarrow> keys_grow db db'"
  by (simp add: keys_grow_def)

lemma register_keys:
  "register_node enc now nid jti ch name pk caps meta db = Inr (out, db') \<Longrightarrow> keys_grow db db'"
  by (auto simp: register_node_def Let_def keys_grow_def split: sum.splits option.splits)

lemma redistribute_nodes: "sd_nodes (snd (redistribute_jobs n db)) = sd_nodes db"
  by (simp add: redistribute_jobs_def Let_def)

lemma sched_step_keys:
  "sched_step enc w w' \<Longrightarrow> distinct (map en_id (sd_nodes (fst w))) \<Longrightarrow> keys_grow (fst w) (fst w')"
proof (induction rule: sched_step.induct)
  case (dispatch jid db now up t p q r db' q' b)
  then show ?case using dispatch_job_nodes [OF dispatch.hyps(2)] by auto
next
  case (status now i new res err db j db' q b)
  then show ?case using update_job_status_nodes [OF status.hyps(1)] by auto
next
  case (cancel now i db j db' q b)
  then show ?case using cancel_job_nodes [OF cancel.hyps(1)] by auto
next
  case (retry i db j did now up err' q rr db' q' b)
  then show ?case using schedule_retry_nodes [OF retry.hyps(2)] by auto
next
  case (failure now n b db st b' db' q)
  then show ?case
    using record_failure_db [of now n b db st b' db'] set_node_status_keys [of n UNHEALTHY db]
    by (auto simp: redistribute_nodes)
next
  case (success n b db b' db' q)
  then show ?case using set_node_status_keys by (auto simp: record_success_def)
next
  case (check now n b db st b' q)
  show ?case by auto
next
  case (register nid db now jti ch name pk caps meta out db' q b)
  then show ?case using register_keys by simp
next
  case (heartbeat n db node now load meta node' db' q b)
  then have "en_public_key node' = en_public_key node" "en_id node' = en_id node" "db' = put_node node' db"
    by (auto simp: process_heartbeat_def beat_def Let_def)
  with heartbeat put_same_key [of db node' node] row_at_SomeD show ?case by fastforce
next
  case (sweep now db k db' q b)
  then show ?case using mark_stale_keys [of now db] by auto
qed

definition key_lost :: "string \<Rightarrow> sched_db \<Rightarrow> bool" where
  "key_lost pk db \<longleftrightarrow> 2 \<le> length (with_key pk db)"

lemma with_key_count: "length (with_key pk db) = count_list (map en_public_key (sd_nodes db)) pk"
proof -
  have "length (filter (\<lambda>n. en_public_key n = pk) ns) = count_list (map en_public_key ns) pk" for ns
    by (induction ns) auto
  then show ?thesis by (simp add: with_key_def)
qed

lemma key_lost_grows: "key_lost pk db \<Longrightarrow> keys_grow db db' \<Longrightarrow> key_lost pk db'"
  by (auto simp: key_lost_def with_key_count keys_grow_def)

interpretation lost_key: step_invariant
    "\<lambda>w. sched_ok (fst w) \<and> key_lost pk (fst w)" "sched_step enc" "\<lambda>w. sched_ok (fst w) \<and> key_lost pk (fst w)"
  for pk enc
proof unfold_locales
  fix w w'
  assume inv: "sched_ok (fst w) \<and> key_lost pk (fst w)" and step: "sched_step enc w w'"
  then have "keys_grow (fst w) (fst w')"
    by (intro sched_step_keys [OF step]) (simp add: sched_ok_def nodes_ok_def)
  with inv step show "sched_ok (fst w') \<and> key_lost pk (fst w')"
    by (blast intro: sched_step_ok key_lost_grows)
qed simp

lemma key_lost_refused: "key_lost (rg_key r) db \<Longrightarrow> register_call enc r db = Inl MultipleResultsFound"
  by (cases "with_key (rg_key r) db" rule: scalar_one_or_none.cases)
     (auto simp: key_lost_def register_call_def register_node_def with_key_def)

text \<open>Two calls that look the key up before either inserts: both answer with a node of their own.\<close>

lemma two_registrations:
  assumes "with_key (rg_key r) db = []" and "rg_key r' = rg_key r"
  shows "\<exists>out out'. (enrol_race_step enc)\<^sup>*\<^sup>* (enrol_start db [r, r'])
    \<lparr>fleet = db\<lparr>sd_nodes := sd_nodes db @ [enrolled r, enrolled r']\<rparr>,
     enrols = [Answered r (Inr (enrolled r, out)), Answered r' (Inr (enrolled r', out'))]\<rparr>"
proof -
  let ?db1 = "db\<lparr>sd_nodes := sd_nodes db @ [enrolled r]\<rparr>"
  obtain out where ins: "insert_node enc r db = ((enrolled r, out), ?db1)" by (simp add: insert_node_def)
  obtain out' where ins': "insert_node enc r' ?db1 =
      ((enrolled r', out'), db\<lparr>sd_nodes := sd_nodes db @ [enrolled r, enrolled r']\<rparr>)"
    by (simp add: insert_node_def)
  have "look_up enc r db = Unknown r" "look_up enc r' db = Unknown r'"
    using assms by (simp_all add: look_up_def)
  then have "enrol_race_step enc (enrol_start db [r, r']) \<lparr>fleet = db, enrols = [Unknown r, Asked r']\<rparr>"
    "enrol_race_step enc \<lparr>fleet = db, enrols = [Unknown r, Asked r']\<rparr> \<lparr>fleet = db, enrols = [Unknown r, Unknown r']\<rparr>"
    using enrol_step_middle [of enc db "Asked r" db _ "[]" "[Asked r']"]
      enrol_step_middle [of enc db "Asked r'" db _ "[Unknown r]" "[]"] by (simp_all add: enrol_start_def)
  moreover have "enrol_race_step enc \<lparr>fleet = db, enrols = [Unknown r, Unknown r']\<rparr>
      \<lparr>fleet = ?db1, enrols = [Answered r (Inr (enrolled r, out)), Unknown r']\<rparr>"
    using enrol_step_middle [of enc db "Unknown r" ?db1 _ "[]" "[Unknown r']"] ins by simp
  moreover have "enrol_race_step enc \<lparr>fleet = ?db1, enrols = [Answered r (Inr (enrolled r, out)), Unknown r']\<rparr>
      \<lparr>fleet = db\<lparr>sd_nodes := sd_nodes db @ [enrolled r, enrolled r']\<rparr>,
       enrols = [Answered r (Inr (enrolled r, out)), Answered r' (Inr (enrolled r', out'))]\<rparr>"
    using enrol_step_middle [of enc ?db1 "Unknown r'" _ _ "[Answered r (Inr (enrolled r, out))]" "[]"] ins' by simp
  ultimately show ?thesis by (blast intro: converse_rtranclp_into_rtranclp)
qed

lemma two_new_nodes_ok:
  "sched_ok db \<Longrightarrow> node_at (rg_id r) db = None \<Longrightarrow> node_at (rg_id r') db = None \<Longrightarrow> rg_id r \<noteq> rg_id r' \<Longrightarrow>
   sched_ok (db\<lparr>sd_nodes := sd_nodes db @ [enrolled r, enrolled r']\<rparr>)"
  by (auto simp: sched_ok_def jobs_ok_def dlq_ok_def nodes_ok_def enrolled_def new_node_def row_at_None_iff)

text \<open>Two concurrent registrations of one new key both succeed, under two identifiers, and
  afterwards the key is lost: whatever the scheduler does, every registration of that key
  raises, because the lookup finds two rows. Nothing ever removes one.\<close>

theorem concurrent_registration_locks_key:
  assumes "sched_ok db" and "with_key (rg_key r) db = []" and "rg_key r' = rg_key r"
    and "node_at (rg_id r) db = None" and "node_at (rg_id r') db = None" and "rg_id r \<noteq> rg_id r'"
  shows "\<exists>out out' db'. (enrol_race_step enc)\<^sup>*\<^sup>* (enrol_start db [r, r'])
      \<lparr>fleet = db', enrols = [Answered r (Inr (enrolled r, out)), Answered r' (Inr (enrolled r', out'))]\<rparr> \<and>
    (\<forall>q b db1 q1 b1 again. (sched_step enc)\<^sup>*\<^sup>* (db', q, b) (db1, q1, b1) \<longrightarrow> rg_key again = rg_key r \<longrightarrow>
       register_call enc again db1 = Inl MultipleResultsFound)"
proof -
  let ?db = "db\<lparr>sd_nodes := sd_nodes db @ [enrolled r, enrolled r']\<rparr>"
  have "key_lost (rg_key r) ?db"
    using assms(3) by (simp add: key_lost_def with_key_def enrolled_def new_node_def)
  moreover have "sched_ok ?db" by (rule two_new_nodes_ok) (use assms in simp_all)
  ultimately have "register_call enc again db1 = Inl MultipleResultsFound"
    if "(sched_step enc)\<^sup>*\<^sup>* (?db, q, b) (db1, q1, b1)" "rg_key again = rg_key r" for q b db1 q1 b1 again
    using lost_key.inv_reachable [of "(?db, q, b)" "rg_key r" enc "(db1, q1, b1)"] that key_lost_refused [of again db1]
    by simp
  with two_registrations [OF assms(2,3), of enc] show ?thesis by blast
qed

definition demo_enrol :: "uuid \<Rightarrow> registration" where
  "demo_enrol i = \<lparr>rg_now = 0, rg_id = i, rg_jti = i, rg_challenge = ''c'', rg_name = ''n'', rg_key = ''pk'',
     rg_caps = [''render''], rg_metadata = JNull\<rparr>"

theorem concurrent_registration_locks_key_witness:
  "\<exists>out out' db'. (enrol_race_step unary_encode)\<^sup>*\<^sup>* (enrol_start (fst empty_sched) [demo_enrol 1, demo_enrol 2])
      \<lparr>fleet = db', enrols = [Answered (demo_enrol 1) (Inr (enrolled (demo_enrol 1), out)),
         Answered (demo_enrol 2) (Inr (enrolled (demo_enrol 2), out'))]\<rparr> \<and>
    register_call unary_encode (demo_enrol 3) db' = Inl MultipleResultsFound"
proof -
  have ok: "sched_ok (fst empty_sched)" by (rule empty_sched_ok)
  have "with_key (rg_key (demo_enrol 1)) (fst empty_sched) = []"
    "node_at (rg_id (demo_enrol 1)) (fst empty_sched) = None" "node_at (rg_id (demo_enrol 2)) (fst empty_sched) = None"
    "rg_key (demo_enrol 2) = rg_key (demo_enrol 1)" "rg_id (demo_enrol 1) \<noteq> rg_id (demo_enrol 2)"
    "rg_key (demo_enrol 3) = rg_key (demo_enrol 1)"
    by (simp_all add: empty_sched_def with_key_def demo_enrol_def)
  with concurrent_registration_locks_key [OF ok, of "demo_enrol 1" "demo_enrol 2" unary_encode]
  show ?thesis by blast
qed

end
