(* ===== verification/Gateway.thy ===== *)
theory Gateway
  imports Routing App Credits_Api Jobs_Api Nodes
begin

text \<open>
  Requests with their credentials: the route table of \<^verbatim>\<open>Routing\<close>, the security dependency of every
  endpoint, and the endpoints of the credits, jobs, dispatch and nodes routers and the logout behind
  them, over one state.

  The framework resolves the dependencies of an endpoint before it runs it; what a dependency raises
  is the answer. \<open>bearer\<close> is the framework's \<open>HTTPBearer\<close>: the credentials of an Authorization
  header, or the error it raises without them. The session dependency (\<open>get_db_session\<close>) discards
  what the endpoint did not commit. A body that does not fit the endpoint is answered with 422 after
  the dependencies. The endpoints of the other routers are the parameter \<open>others\<close>.
\<close>

section \<open>Who may call what\<close>

datatype guard = Anyone | UserAccess | AnyToken | NodeAccess | SocketToken | SignedBody

text \<open>The security dependency in each endpoint's signature, router by router: \<open>Depends(get_current_user)\<close>,
  \<open>Depends(get_current_node)\<close>, \<open>Depends(_bearer_scheme)\<close>. The relay socket checks a token of its query,
  the webhook the signature of its body. No router adds a dependency of its own.\<close>

definition auth_guards :: "(endpoint \<times> guard) list" where
  "auth_guards = [(RegisterUser, Anyone), (Login, Anyone), (RefreshToken, Anyone), (Logout, AnyToken)]"

definition credits_guards :: "(endpoint \<times> guard) list" where
  "credits_guards = [(CreditsBalance, UserAccess), (CreditsHistory, UserAccess), (CreditsDeduct, UserAccess)]"

definition nodes_guards :: "(endpoint \<times> guard) list" where
  "nodes_guards = [(RegisterNode, Anyone), (NodeHeartbeat, NodeAccess)]"

definition dispatch_guards :: "(endpoint \<times> guard) list" where
  "dispatch_guards = [(DispatchJob, UserAccess)]"

definition jobs_guards :: "(endpoint \<times> guard) list" where
  "jobs_guards = [(ListJobs, UserAccess), (ReadJob, UserAccess), (CancelJob, UserAccess), (JobResult, UserAccess)]"

definition certs_guards :: "(endpoint \<times> guard) list" where
  "certs_guards = [(IssueCertificate, Anyone), (CaCertificate, Anyone), (RenewCertificate, Anyone)]"

definition ledger_guards :: "(endpoint \<times> guard) list" where
  "ledger_guards = [(EntryProof, UserAccess), (EntryVerification, UserAccess), (AnchorRecords, UserAccess)]"

definition fleet_guards :: "(endpoint \<times> guard) list" where
  "fleet_guards = [(FleetNodes, UserAccess), (FleetNodeHealth, UserAccess)]"

definition guard_table :: "(endpoint \<times> guard) list" where
  "guard_table = auth_guards @ credits_guards @ nodes_guards @ dispatch_guards @ jobs_guards @ certs_guards @
     ledger_guards @ fleet_guards @ [(StripeWebhook, SignedBody), (RelaySocket, SocketToken)]"

text \<open>Probes, metrics, version and the payment routes have no dependency.\<close>

definition guard_of :: "endpoint \<Rightarrow> guard" where
  "guard_of ep = (case map_of guard_table ep of Some g \<Rightarrow> g | None \<Rightarrow> Anyone)"

lemmas guard_tables = guard_table_def auth_guards_def credits_guards_def nodes_guards_def dispatch_guards_def
  jobs_guards_def certs_guards_def ledger_guards_def fleet_guards_def

lemma guard_of_served [simp]:
  "guard_of CreditsBalance = UserAccess" "guard_of CreditsHistory = UserAccess" "guard_of CreditsDeduct = UserAccess"
  "guard_of DispatchJob = UserAccess" "guard_of ListJobs = UserAccess" "guard_of ReadJob = UserAccess"
  "guard_of CancelJob = UserAccess" "guard_of JobResult = UserAccess" "guard_of NodeHeartbeat = NodeAccess"
  "guard_of Logout = AnyToken"
  by (simp_all add: guard_of_def guard_tables)

section \<open>State, requests and replies\<close>

record gateway =
  gw_users :: user_db
  gw_revoked :: expiring_keys
  gw_sched :: sched_db
  gw_queues :: queues
  gw_ledger :: ledger_db

text \<open>What one request finds around it: the clock, whether Redis answers and the database commits, and
  the identifier it would draw.\<close>

record 's surroundings =
  sr_decode :: jwt_decode
  sr_bearer :: "string option \<Rightarrow> py_exc + string"
  sr_now :: instant
  sr_redis :: bool
  sr_commits :: bool
  sr_fresh :: uuid
  sr_numeric :: numeric
  sr_isoformat :: "instant \<Rightarrow> string"
  sr_s3 :: "'s s3_client"
  sr_bucket :: 's

datatype call_body = NoBody | DispatchBody string string | DeductBody deduct_request | HeartbeatBody pyfloat json

record gateway_call =
  gc_verb :: string
  gc_path :: string
  gc_authorization :: "string option"
  gc_status :: "string option"
  gc_limit :: int
  gc_offset :: int
  gc_body :: call_body

datatype reply =
    BalanceReply balance_response | HistoryReply history_response | DeductReply deduct_reply
  | DispatchReply dispatch_response | JobsReply job_list_response | JobReply job_response
  | ResultReply job_result_response | HeartbeatReply "string \<times> string" | MessageReply string
  | OtherReply json

section \<open>Serving a request\<close>

abbreviation malformed :: py_exc where
  "malformed \<equiv> HTTPException 422 ''validation error''"

definition user_auth :: "'s surroundings \<Rightarrow> gateway \<Rightarrow> gateway_call \<Rightarrow> py_exc + user" where
  "user_auth e g rq = err_bind (sr_bearer e (gc_authorization rq))
     (get_current_user (sr_decode e) (sr_now e) (sr_redis e) (gw_revoked g) (gw_users g))"

definition with_body :: "(py_exc + 'u) \<Rightarrow> ('u \<Rightarrow> (py_exc + reply) \<times> gateway) option \<Rightarrow> gateway \<Rightarrow> (py_exc + reply) \<times> gateway" where
  "with_body auth endpoint g =
     (case (auth, endpoint) of
        (Inl x, _) \<Rightarrow> (Inl x, g)
      | (Inr u, None) \<Rightarrow> (Inl malformed, g)
      | (Inr u, Some f) \<Rightarrow> f u)"

definition result_reply :: "result_error + job_result_response \<Rightarrow> py_exc + reply" where
  "result_reply r =
     (case r of Inl (Refused x) \<Rightarrow> Inl x | Inl (Unhandled x) \<Rightarrow> Inl (OtherError ''storage'')
      | Inr rr \<Rightarrow> Inr (ResultReply rr))"

definition deduct_call :: "'s surroundings \<Rightarrow> gateway \<Rightarrow> deduct_request \<Rightarrow> user \<Rightarrow> (py_exc + reply) \<times> gateway" where
  "deduct_call e g p u =
     (case get_db_session (credit_deduct (Inr u) (sr_numeric e) (sr_isoformat e) (sr_fresh e) (sr_now e)
             (sr_commits e) p) (gw_ledger g) of
        (r, l) \<Rightarrow> (map_sum id DeductReply r, g\<lparr>gw_ledger := l\<rparr>))"

definition dispatch_call :: "'s surroundings \<Rightarrow> gateway \<Rightarrow> string \<Rightarrow> string \<Rightarrow> (py_exc + reply) \<times> gateway" where
  "dispatch_call e g t p =
     (case dispatch (sr_fresh e) (sr_now e) (sr_redis e) (sr_commits e) t p
             (open_session (gw_sched g), gw_queues g) of
        (r, s, q) \<Rightarrow> (map_sum id DispatchReply r, g\<lparr>gw_sched := committed s, gw_queues := q\<rparr>))"

definition cancel_call :: "'s surroundings \<Rightarrow> gateway \<Rightarrow> gateway_call \<Rightarrow> string \<Rightarrow> (py_exc + reply) \<times> gateway" where
  "cancel_call e g rq i =
     (case get_db_session (cancel_job_endpoint (user_auth e g rq) (sr_isoformat e) (sr_now e) (sr_commits e) i)
             (gw_sched g) of
        (r, d) \<Rightarrow> (map_sum id JobReply r, g\<lparr>gw_sched := d\<rparr>))"

definition heartbeat_call :: "'s surroundings \<Rightarrow> gateway \<Rightarrow> string \<Rightarrow> pyfloat \<Rightarrow> json \<Rightarrow> (py_exc + reply) \<times> gateway" where
  "heartbeat_call e g token load meta =
     (case get_db_session (heartbeat_endpoint (sr_decode e) (sr_now e) token load meta) (gw_sched g) of
        (r, d) \<Rightarrow> (map_sum id HeartbeatReply r, g\<lparr>gw_sched := d\<rparr>))"


definition serve_endpoint ::
  "(endpoint \<Rightarrow> gateway_call \<Rightarrow> gateway \<Rightarrow> (py_exc + reply) \<times> gateway) \<Rightarrow> 's surroundings \<Rightarrow> endpoint \<Rightarrow>
   string list \<Rightarrow> gateway_call \<Rightarrow> gateway \<Rightarrow> (py_exc + reply) \<times> gateway" where
  "serve_endpoint others e ep params rq g =
     (let auth = user_auth e g rq; job_id = (case params of p # _ \<Rightarrow> p | [] \<Rightarrow> '''')
      in case ep of
           CreditsBalance \<Rightarrow> (map_sum id BalanceReply (credit_balance auth (gw_ledger g)), g)
         | CreditsHistory \<Rightarrow>
             (map_sum id HistoryReply (credit_history auth (sr_isoformat e) (gc_limit rq) (gc_offset rq) (gw_ledger g)), g)
         | CreditsDeduct \<Rightarrow>
             with_body auth (case gc_body rq of DeductBody p \<Rightarrow> Some (deduct_call e g p) | _ \<Rightarrow> None) g
         | DispatchJob \<Rightarrow>
             with_body auth (case gc_body rq of DispatchBody t p \<Rightarrow> Some (\<lambda>_. dispatch_call e g t p) | _ \<Rightarrow> None) g
         | ListJobs \<Rightarrow>
             (map_sum id JobsReply (list_jobs_endpoint auth (sr_isoformat e) (gc_status rq) (gc_limit rq)
                (gc_offset rq) (gw_sched g)), g)
         | ReadJob \<Rightarrow> (map_sum id JobReply (get_job_endpoint auth (sr_isoformat e) job_id (gw_sched g)), g)
         | CancelJob \<Rightarrow> cancel_call e g rq job_id
         | JobResult \<Rightarrow> (result_reply (get_job_result auth (sr_s3 e) (sr_bucket e) job_id (gw_sched g)), g)
         | NodeHeartbeat \<Rightarrow>
             (case sr_bearer e (gc_authorization rq) of
                Inl x \<Rightarrow> (Inl x, g)
              | Inr token \<Rightarrow>
                  with_body (get_current_node (sr_decode e) (sr_now e) (gw_sched g) token)
                    (case gc_body rq of
                       HeartbeatBody load meta \<Rightarrow> Some (\<lambda>_. heartbeat_call e g token load meta)
                     | _ \<Rightarrow> None) g)
         | Logout \<Rightarrow>
             (case sr_bearer e (gc_authorization rq) of
                Inl x \<Rightarrow> (Inl x, g)
              | Inr token \<Rightarrow>
                  (case logout (sr_decode e) (sr_now e) (sr_redis e) token (gw_revoked g) of
                     (r, bl) \<Rightarrow> (map_sum id MessageReply r, g\<lparr>gw_revoked := bl\<rparr>)))
         | _ \<Rightarrow> others ep rq g)"

definition not_found :: py_exc where "not_found = HTTPException 404 ''Not Found''"

text \<open>The router in front: the framework answers what no route handles; a redirect is no answer of the
  application and changes nothing.\<close>

definition serve ::
  "(endpoint \<Rightarrow> gateway_call \<Rightarrow> gateway \<Rightarrow> (py_exc + reply) \<times> gateway) \<Rightarrow> 's surroundings \<Rightarrow> bool \<Rightarrow>
   gateway_call \<Rightarrow> gateway \<Rightarrow> (py_exc + reply) \<times> gateway" where
  "serve others e x402 rq g =
     (case resolve (app_routes x402) (gc_verb rq) (gc_path rq) of
        Handled ep params \<Rightarrow> serve_endpoint others e ep params rq g
      | MethodNotAllowed \<Rightarrow> (Inl (HTTPException 405 ''Method Not Allowed''), g)
      | RedirectTo p \<Rightarrow> (Inl (HTTPException 307 p), g)
      | Unrouted \<Rightarrow> (Inl not_found, g))"

definition served_here :: "endpoint set" where
  "served_here = {CreditsBalance, CreditsHistory, CreditsDeduct, DispatchJob, ListJobs, ReadJob, CancelJob,
     JobResult, NodeHeartbeat, Logout}"

section \<open>Nothing without a token\<close>

text \<open>The principal a request stands for: a user's access token, or a node's token.\<close>

definition no_user :: "'s surroundings \<Rightarrow> gateway \<Rightarrow> gateway_call \<Rightarrow> bool" where
  "no_user e g rq \<longleftrightarrow> is_error (user_auth e g rq)"

definition no_node_token :: "'s surroundings \<Rightarrow> gateway \<Rightarrow> gateway_call \<Rightarrow> bool" where
  "no_node_token e g rq \<longleftrightarrow> is_error (err_bind (sr_bearer e (gc_authorization rq))
     (get_current_node (sr_decode e) (sr_now e) (gw_sched g)))"

lemma is_error_iff: "is_error r \<longleftrightarrow> (\<exists>x. r = Inl x)"
  by (cases r) auto

lemma endpoint_refuses_user:
  assumes "user_auth e g rq = Inl x" and "ep \<in> served_here" and "guard_of ep = UserAccess"
  shows "serve_endpoint others e ep params rq g = (Inl x, g)"
  using assms by (auto simp: served_here_def serve_endpoint_def Let_def with_body_def credit_balance_def
      credit_history_def list_jobs_endpoint_def get_job_endpoint_def get_job_result_def result_reply_def
      cancel_call_def cancel_job_endpoint_def get_db_session_def)

lemma endpoint_refuses_node:
  assumes "no_node_token e g rq"
  shows "\<exists>x. serve_endpoint others e NodeHeartbeat params rq g = (Inl x, g)"
  using assms by (auto simp: no_node_token_def is_error_iff serve_endpoint_def Let_def with_body_def
      split: sum.splits)

text \<open>C24: no request gets anything from, or changes anything through, an endpoint of the credits, jobs
  and dispatch routers without the access token of an active user, or through the heartbeat without
  the token of a node that is not offline. The answer is the error of the security dependency, and
  users, revoked tokens, nodes, jobs, queues and ledger are as they were, whatever the request's path,
  parameters and body.\<close>

theorem guarded_without_token:
  assumes "resolve (app_routes x402) (gc_verb rq) (gc_path rq) = Handled ep params" and "ep \<in> served_here"
    and "guard_of ep = UserAccess \<and> no_user e g rq \<or> guard_of ep = NodeAccess \<and> no_node_token e g rq"
  shows "snd (serve others e x402 rq g) = g \<and> is_error (fst (serve others e x402 rq g))"
proof (cases "guard_of ep = UserAccess")
  case True
  with assms(3) obtain x where "user_auth e g rq = Inl x" by (auto simp: no_user_def is_error_iff)
  with assms(1,2) True show ?thesis by (simp add: serve_def endpoint_refuses_user)
next
  case False
  with assms(2,3) have "ep = NodeHeartbeat" "no_node_token e g rq" by (auto simp: served_here_def)
  with assms(1) endpoint_refuses_node [of e g rq others params] show ?thesis by (auto simp: serve_def)
qed


section \<open>What an access token gives\<close>

text \<open>Jobs belong to nobody. The dispatch and job endpoints ask for a user and then ignore which:
  two active users who send the same request get the same answer and leave the same state, so each of
  them lists, reads, cancels and downloads the results of all the others' jobs.\<close>

theorem jobs_shared_by_all_users:
  assumes "resolve (app_routes x402) (gc_verb rq) (gc_path rq) = Handled ep params"
    and "ep \<in> {DispatchJob, ListJobs, ReadJob, CancelJob, JobResult}"
    and "user_auth e g (rq\<lparr>gc_authorization := h\<rparr>) = Inr u"
    and "user_auth e g (rq\<lparr>gc_authorization := h'\<rparr>) = Inr u'"
  shows "serve others e x402 (rq\<lparr>gc_authorization := h\<rparr>) g = serve others e x402 (rq\<lparr>gc_authorization := h'\<rparr>) g"
  using assms by (auto simp: serve_def serve_endpoint_def Let_def with_body_def list_jobs_endpoint_def
      get_job_endpoint_def cancel_call_def cancel_job_endpoint_def get_db_session_def get_job_result_def
      split: call_body.splits)

lemma deduct_credits_others:
  assumes "deduct_credits num nid now user amount source ref desc (open_session db) = (r, s)" and "v \<noteq> user"
  shows "committed s = db \<and> user_entries v (working s) = user_entries v db"
  using assms by (auto simp: deduct_credits_def deduct_prepare_def ledger_finish_def flush_entry_def Let_def
      split: if_splits sum.splits option.splits py_exc.splits)

lemma credit_deduct_others:
  assumes "v \<noteq> u_id u"
  shows "user_entries v (committed (snd (credit_deduct (Inr u) num isof nid now c p (open_session db)))) =
    user_entries v db"
proof -
  have "committed s = db \<and> user_entries v (working s) = user_entries v db"
    if "deduct_credits num nid now (u_id u) x USAGE (dq_reference_id p) (dq_description p) (open_session db) = (r, s)"
    for x r s
    using deduct_credits_others [OF that assms] .
  then show ?thesis
    by (auto simp: credit_deduct_def split: option.splits decimal.splits prod.splits sum.splits
        deduct_reply.splits py_exc.splits bool.splits)
qed


section \<open>The open routes\<close>

text \<open>The routes that ask for no credentials at all. Besides registration, login, the refresh (whose
  token is its body), probes, prices and metrics these are the registration of nodes and, although
  its documentation expects the authentication of the caller, the issue and the renewal of node
  certificates.\<close>

theorem open_routes:
  "map rt_path (filter (\<lambda>r. guard_of (rt_endpoint r) = Anyone) (app_routes False)) =
   [''/metrics'', ''/api/v1/health'', ''/api/v1/health/ready'', ''/api/v1/auth/register'', ''/api/v1/auth/login'',
    ''/api/v1/auth/refresh'', ''/api/v1/nodes/register'', ''/api/v1/certs/issue'', ''/api/v1/certs/ca'',
    ''/api/v1/certs/renew'', ''/health'', ''/version'']"
  by code_simp


section \<open>Witnesses\<close>

text \<open>Tokens that are their user's identifier, two users, and the empty tables.\<close>

definition plain_decode :: jwt_decode where
  "plain_decode now s = Some \<lparr>cl_sub = Some s, cl_exp = Some 9, cl_iat = Some 1, cl_type = Some ''access'',
     cl_jti = None, cl_capabilities = None\<rparr>"

definition plain_bearer :: "string option \<Rightarrow> py_exc + string" where
  "plain_bearer h = (case h of None \<Rightarrow> Inl (HTTPException 403 ''Not authenticated'') | Some s \<Rightarrow> Inr (drop 7 s))"

definition plain_around :: "unit surroundings" where
  "plain_around = \<lparr>sr_decode = plain_decode, sr_bearer = plain_bearer, sr_now = 5, sr_redis = True, sr_commits = True,
     sr_fresh = 3, sr_numeric = numeric_12_4, sr_isoformat = show_int, sr_s3 = signing_s3, sr_bucket = ()\<rparr>"

definition two_users :: gateway where
  "two_users = \<lparr>gw_users = [demo_user, demo_user\<lparr>u_id := 8\<rparr>], gw_revoked = Map.empty,
     gw_sched = \<lparr>sd_nodes = [], sd_jobs = [], sd_dlq = []\<rparr>, gw_queues = (\<lambda>_. []), gw_ledger = demo_ledger\<rparr>"

definition plain_call :: "string \<Rightarrow> string \<Rightarrow> call_body \<Rightarrow> uuid option \<Rightarrow> gateway_call" where
  "plain_call verb path b who = \<lparr>gc_verb = verb, gc_path = path,
     gc_authorization = map_option (\<lambda>i. ''Bearer '' @ uuid_str i) who, gc_status = None, gc_limit = 50, gc_offset = 0,
     gc_body = b\<rparr>"

lemma plain_auth:
  "user_auth plain_around two_users (plain_call verb path b (Some 7)) = Inr demo_user"
  "user_auth plain_around two_users (plain_call verb path b (Some 8)) = Inr (demo_user\<lparr>u_id := 8\<rparr>)"
  "user_auth plain_around two_users (plain_call verb path b None) = Inl (HTTPException 403 ''Not authenticated'')"
  by (simp_all add: user_auth_def plain_around_def two_users_def plain_call_def plain_bearer_def plain_decode_def
      get_current_user_def verify_token_def token_type_of_def user_by_id_def demo_user_def)

theorem guarded_without_token_witness:
  "is_error (fst (serve (\<lambda>ep rq g. (Inr (OtherReply JNull), g)) plain_around False
     (plain_call ''POST'' ''/api/v1/jobs/dispatch'' (DispatchBody ''render'' ''s3://a'') None) two_users))"
  using guarded_without_token [of False "plain_call ''POST'' ''/api/v1/jobs/dispatch'' (DispatchBody ''render'' ''s3://a'') None"
      DispatchJob "[]" plain_around two_users "\<lambda>ep rq g. (Inr (OtherReply JNull), g)"]
  by (simp add: plain_call_def fixed_paths served_here_def no_user_def
      plain_auth(3) [unfolded plain_call_def, simplified])

theorem jobs_shared_by_all_users_witness:
  "serve (\<lambda>ep rq g. (Inr (OtherReply JNull), g)) plain_around False (plain_call ''GET'' ''/api/v1/jobs'' NoBody (Some 7)) two_users =
   serve (\<lambda>ep rq g. (Inr (OtherReply JNull), g)) plain_around False (plain_call ''GET'' ''/api/v1/jobs'' NoBody (Some 8)) two_users"
  using jobs_shared_by_all_users [of False "plain_call ''GET'' ''/api/v1/jobs'' NoBody None" ListJobs "[]" plain_around two_users
      "Some (''Bearer '' @ uuid_str 7)" demo_user "Some (''Bearer '' @ uuid_str 8)" "demo_user\<lparr>u_id := 8\<rparr>"]
    plain_auth(1,2) [of "''GET''" "''/api/v1/jobs''" NoBody]
  by (simp add: plain_call_def fixed_paths)


end
