(* ===== verification/Views.thy ===== *)
theory Views
  imports Nodes Anchoring App
begin

text \<open>
  What the read endpoints show: the summaries of \<^verbatim>\<open>core/scheduler/fleet.py\<close>, the anchor list of
  \<^verbatim>\<open>core/api/v1/ledger.py\<close> and the scrape endpoint of \<^verbatim>\<open>core/metrics.py\<close>, and the requests they
  take. \<open>isof\<close> is \<open>datetime.isoformat\<close>, \<open>latest\<close> the exposition text of the metrics library.
\<close>

section \<open>Fleet views\<close>

record node_summary =
  ns_id :: string
  ns_name :: string
  ns_status :: string
  ns_capabilities :: "string list"
  ns_current_load :: pyfloat
  ns_last_heartbeat :: "string option"

record node_detail = node_summary +
  nd_uptime :: rat
  nd_metadata :: json
  nd_created_at :: string

record fleet_list_response =
  fl_nodes :: "node_summary list"
  fl_total :: nat
  fl_limit :: nat
  fl_offset :: nat

text \<open>\<open>list(n.capabilities or [])\<close>, for the lists of names that registration stores.\<close>

definition summary_of :: "(instant \<Rightarrow> string) \<Rightarrow> edge_node \<Rightarrow> node_summary" where
  "summary_of isof n =
     \<lparr>ns_id = uuid_str (en_id n), ns_name = en_name n, ns_status = node_status_value (en_status n),
      ns_capabilities = json_strings (en_capabilities n), ns_current_load = en_current_load n,
      ns_last_heartbeat = map_option isof (en_last_heartbeat n)\<rparr>"

definition list_nodes_endpoint ::
  "py_exc + user \<Rightarrow> (instant \<Rightarrow> string) \<Rightarrow> string option \<Rightarrow> nat \<Rightarrow> nat \<Rightarrow> sched_db \<Rightarrow> py_exc + fleet_list_response" where
  "list_nodes_endpoint auth isof status_filter limit offset db =
     err_bind auth (\<lambda>u. err_bind (fleet_list_nodes u status_filter limit offset db)
       (\<lambda>p. Inr \<lparr>fl_nodes = map (summary_of isof) (fp_nodes p), fl_total = fp_total p,
                 fl_limit = fp_limit p, fl_offset = fp_offset p\<rparr>))"

definition node_health_endpoint ::
  "py_exc + user \<Rightarrow> (instant \<Rightarrow> string) \<Rightarrow> instant \<Rightarrow> string \<Rightarrow> sched_db \<Rightarrow> py_exc + node_detail" where
  "node_health_endpoint auth isof now node_id db =
     err_bind auth (\<lambda>_. err_bind (node_health now node_id db)
       (\<lambda>(n, up). Inr (node_summary.extend (summary_of isof n)
          \<lparr>nd_uptime = of_int up / 1000000, nd_metadata = en_metadata n, nd_created_at = isof (en_created_at n)\<rparr>)))"

section \<open>The anchor list\<close>

record anchor_record_response =
  an_id :: string
  an_root :: string
  an_tx :: string
  an_block :: int
  an_entry_count :: nat
  an_anchored_at :: string

record anchor_list_response =
  al_anchors :: "anchor_record_response list"
  al_count :: nat
  al_page :: nat
  al_per_page :: nat

definition anchor_response_of :: "(instant \<Rightarrow> string) \<Rightarrow> anchor_record \<Rightarrow> anchor_record_response" where
  "anchor_response_of isof r =
     \<lparr>an_id = uuid_str (ar_id r), an_root = ar_root r, an_tx = ar_tx r, an_block = ar_block r,
      an_entry_count = ar_count r, an_anchored_at = isof (ar_anchored_at r)\<rparr>"

definition list_anchors_endpoint ::
  "py_exc + user \<Rightarrow> (instant \<Rightarrow> string) \<Rightarrow> (string \<Rightarrow> instant option) \<Rightarrow> nat \<Rightarrow> nat \<Rightarrow> string option \<Rightarrow> anchor_db \<Rightarrow>
   py_exc + anchor_list_response" where
  "list_anchors_endpoint auth isof fromiso page per_page since db =
     err_bind auth (\<lambda>_. err_bind (list_anchors fromiso page per_page since db)
       (\<lambda>rows. let rs = map (anchor_response_of isof) rows
               in Inr \<lparr>al_anchors = rs, al_count = length rs, al_page = page, al_per_page = per_page\<rparr>))"

section \<open>The scrape endpoint\<close>

definition metrics_endpoint :: "(metrics \<Rightarrow> string) \<Rightarrow> metrics \<Rightarrow> app_response" where
  "metrics_endpoint latest m =
     \<lparr>hp_status = 200, hp_headers = [(''content-type'', ''text/plain; version=0.0.4; charset=utf-8'')],
      hp_body = JStr (latest m)\<rparr>"

text \<open>A challenge: the hexadecimal text of the random bytes it is drawn from.\<close>

definition generate_challenge :: "bytes \<Rightarrow> string" where
  "generate_challenge drawn = hex_of drawn"

section \<open>Pages\<close>

lemma pages_cover:
  "length xs \<le> k * n \<Longrightarrow> concat (map (\<lambda>p. take n (drop (p * n) xs)) [0..<k]) = xs"
proof (induction k arbitrary: xs)
  case (Suc k)
  have "concat (map (\<lambda>p. take n (drop (p * n) (drop n xs))) [0..<k]) = drop n xs"
    using Suc.prems by (intro Suc.IH) simp
  moreover have "[0..<Suc k] = 0 # map Suc [0..<k]" by (simp add: map_Suc_upt upt_conv_Cons del: upt_Suc)
  ultimately show ?case by (simp add: comp_def add.commute del: upt_Suc)
qed simp

text \<open>Paging through the anchors shows each of them once. The pages of one size, asked for in turn up
  to a page that covers the number of records, are together the records that are not older than the
  date asked for, newest first, each page no longer than its size.\<close>

theorem anchor_pages_cover:
  assumes "1 \<le> n" and "n \<le> 100" and "length (ad_records db) \<le> k * n"
    and "\<forall>s. since = Some s \<longrightarrow> fromiso s = Some t"
  shows "\<exists>pages. map (\<lambda>p. list_anchors_endpoint (Inr u) isof fromiso (Suc p) n since db) [0..<k] = map Inr pages \<and>
    (\<forall>p \<in> set pages. al_count p \<le> n) \<and>
    concat (map al_anchors pages) = map (anchor_response_of isof) (sort_key (\<lambda>r. - ar_anchored_at r)
      (if since = None then ad_records db else filter (\<lambda>r. t \<le> ar_anchored_at r) (ad_records db)))"
proof -
  define rows where "rows = sort_key (\<lambda>r. - ar_anchored_at r)
    (if since = None then ad_records db else filter (\<lambda>r. t \<le> ar_anchored_at r) (ad_records db))"
  let ?cut = "\<lambda>p. take n (drop (p * n) rows)" and ?f = "anchor_response_of isof"
  let ?pages = "map (\<lambda>p. \<lparr>al_anchors = map ?f (?cut p), al_count = length (?cut p), al_page = Suc p, al_per_page = n\<rparr>) [0..<k]"
  have "list_anchors_endpoint (Inr u) isof fromiso (Suc p) n since db =
      Inr \<lparr>al_anchors = map ?f (?cut p), al_count = length (?cut p), al_page = Suc p, al_per_page = n\<rparr>" for p
    using assms(1,2,4) by (cases since) (simp_all add: list_anchors_endpoint_def list_anchors_def Let_def rows_def)
  then have "map (\<lambda>p. list_anchors_endpoint (Inr u) isof fromiso (Suc p) n since db) [0..<k] = map Inr ?pages"
    by simp
  moreover have "length rows \<le> k * n"
    using assms(3) order_trans [OF length_filter_le assms(3)] by (simp add: rows_def)
  then have "concat (map al_anchors ?pages) = map ?f rows"
  proof -
    have "map al_anchors ?pages = map (map ?f) (map ?cut [0..<k])" by simp
    then have "concat (map al_anchors ?pages) = map ?f (concat (map ?cut [0..<k]))"
      by (simp only: map_concat)
    also have "concat (map ?cut [0..<k]) = rows" by (rule pages_cover) fact
    finally show ?thesis .
  qed
  moreover have "\<forall>p \<in> set ?pages. al_count p \<le> n" by auto
  ultimately show ?thesis unfolding rows_def by blast
qed

text \<open>The health view of a node is its summary in the listing and what only it shows.\<close>

lemma detail_extends_summary:
  "node_health_endpoint (Inr u) isof now i db = Inr d \<Longrightarrow>
   \<exists>n. node_at (the (uuid_parse i)) db = Some n \<and> node_summary.truncate d = summary_of isof n"
  by (auto simp: node_health_endpoint_def node_health_def node_summary.defs summary_of_def
      split: option.splits)

lemma challenge_length: "length drawn = 32 \<Longrightarrow> length (generate_challenge drawn) = 64"
  by (simp add: generate_challenge_def)

end
