(* ===== verification/Migration_Env.thy ===== *)
theory Migration_Env
  imports Migrations App
begin

text \<open>
  The migration environment \<^verbatim>\<open>alembic/env.py\<close>: the override of the database URL by the environment, and
  the offline and online runs.

  Alembic keeps its options in a \<open>ConfigParser\<close> of the standard library with the basic interpolation:
  \<^verbatim>\<open>%%\<close> stands for a percent sign, \<^verbatim>\<open>%(name)s\<close> for the option \<open>name\<close>, and any other percent sign
  is an error, when a value is set as when it is read. \<open>options\<close> looks the other options up. What
  \<open>run_migrations\<close> does to a database is the parameter \<open>run\<close>, which fails or gives the new schema;
  \<open>reachable\<close> tells whether the server at a URL accepts the connection.
\<close>

section \<open>The option parser\<close>

text \<open>A reference at the beginning of a text: its name and what follows.\<close>

definition option_ref :: "string \<Rightarrow> (string \<times> string) option" where
  "option_ref s =
     (let name = takeWhile (\<lambda>c. c \<noteq> CHR '')'') (drop 2 s); rest = dropWhile (\<lambda>c. c \<noteq> CHR '')'') (drop 2 s)
      in if starts_with ''%('' s \<and> name \<noteq> '''' \<and> starts_with '')s'' rest then Some (name, drop 2 rest) else None)"

lemma option_ref_shorter: "option_ref s = Some (n, t) \<Longrightarrow> length t < length s"
  using length_dropWhile_le [of "\<lambda>c. c \<noteq> CHR '')''" "drop 2 s"]
  by (cases s) (auto simp: option_ref_def Let_def starts_with_def split: if_splits)

function drop_refs :: "string \<Rightarrow> string" where
  "drop_refs s =
     (case option_ref s of
        Some (_, t) \<Rightarrow> drop_refs t
      | None \<Rightarrow> (case s of [] \<Rightarrow> [] | c # t \<Rightarrow> c # drop_refs t))"
  by pat_completeness auto
termination
  by (relation "measure length") (auto dest: option_ref_shorter)

declare drop_refs.simps [simp del]

definition config_set :: "string \<Rightarrow> py_exc + string" where
  "config_set v =
     (if CHR ''%'' \<in> set (drop_refs (remove_sub ''%%'' v)) then Inl (ValueError ''invalid interpolation syntax'') else Inr v)"

function interpolate :: "(string \<Rightarrow> string option) \<Rightarrow> string \<Rightarrow> py_exc + string" where
  "interpolate options s =
     (case s of
        [] \<Rightarrow> Inr []
      | c # t \<Rightarrow>
          if c \<noteq> CHR ''%'' then err_bind (interpolate options t) (\<lambda>u. Inr (c # u))
          else if starts_with ''%'' t then err_bind (interpolate options (tl t)) (\<lambda>u. Inr (CHR ''%'' # u))
          else case option_ref s of
                 None \<Rightarrow> Inl (OtherError ''InterpolationSyntaxError'')
               | Some (n, rest) \<Rightarrow>
                   (case options (py_lower n) of
                      None \<Rightarrow> Inl (OtherError ''InterpolationMissingOptionError'')
                    | Some v \<Rightarrow> err_bind (interpolate options rest) (\<lambda>u. Inr (v @ u))))"
  by pat_completeness auto
termination
  by (relation "measure (length \<circ> snd)") (auto dest: option_ref_shorter)

declare interpolate.simps [simp del]

section \<open>The environment\<close>

text \<open>\<open>ini\<close> is the URL of \<^verbatim>\<open>alembic.ini\<close>.\<close>

definition override_url :: "environ \<Rightarrow> string \<Rightarrow> py_exc + string" where
  "override_url env ini =
     (case env ''DATABASE_URL'' of
        None \<Rightarrow> Inr ini
      | Some u \<Rightarrow> if u = '''' then Inr ini else config_set u)"

datatype migration_run = OfflineScript string | OnlineRun string

definition run_migrations_offline ::
  "(string \<Rightarrow> string option) \<Rightarrow> string \<Rightarrow> 'd \<Rightarrow> (py_exc + migration_run) \<times> 'd" where
  "run_migrations_offline options url d =
     (case interpolate options url of Inl x \<Rightarrow> (Inl x, d) | Inr u \<Rightarrow> (Inr (OfflineScript u), d))"

text \<open>The migrations of an online run are one transaction.\<close>

definition do_run_migrations :: "('d \<Rightarrow> py_exc + 'd) \<Rightarrow> 'd \<Rightarrow> (py_exc + unit) \<times> 'd" where
  "do_run_migrations run d =
     (case run d of Inl x \<Rightarrow> (Inl x, committed (rollback (open_session d)))
      | Inr d' \<Rightarrow> (Inr (), committed (commit ((open_session d)\<lparr>working := d'\<rparr>))))"

definition run_migrations_online ::
  "(string \<Rightarrow> bool) \<Rightarrow> ('d \<Rightarrow> py_exc + 'd) \<Rightarrow> (string \<Rightarrow> string option) \<Rightarrow> string \<Rightarrow> 'd \<Rightarrow> (py_exc + migration_run) \<times> 'd" where
  "run_migrations_online reachable run options url d =
     (case interpolate options url of
        Inl x \<Rightarrow> (Inl x, d)
      | Inr u \<Rightarrow>
          if \<not> reachable u then (Inl (OtherError ''OperationalError''), d)
          else case do_run_migrations run d of
                 (Inl x, d') \<Rightarrow> (Inl x, d')
               | (Inr _, d') \<Rightarrow> (Inr (OnlineRun u), d'))"

definition migration_env ::
  "bool \<Rightarrow> environ \<Rightarrow> string \<Rightarrow> (string \<Rightarrow> bool) \<Rightarrow> ('d \<Rightarrow> py_exc + 'd) \<Rightarrow> (string \<Rightarrow> string option) \<Rightarrow> 'd \<Rightarrow>
   (py_exc + migration_run) \<times> 'd" where
  "migration_env offline env ini reachable run options d =
     (case override_url env ini of
        Inl x \<Rightarrow> (Inl x, d)
      | Inr url \<Rightarrow>
          if offline then run_migrations_offline options url d
          else run_migrations_online reachable run options url d)"

section \<open>Properties\<close>

lemma no_ref: "CHR ''%'' \<notin> set s \<Longrightarrow> option_ref s = None"
  by (cases s) (auto simp: option_ref_def Let_def starts_with_def)

lemma drop_refs_plain: "CHR ''%'' \<notin> set s \<Longrightarrow> drop_refs s = s"
  by (induction s) (simp_all add: drop_refs.simps no_ref)

lemma remove_sub_plain: "CHR ''%'' \<notin> set s \<Longrightarrow> remove_sub ''%%'' s = s"
  by (rule remove_sub_none) (auto simp: has_sub_iff)

lemma plain_url:
  assumes "CHR ''%'' \<notin> set u"
  shows "config_set u = Inr u" and "interpolate options u = Inr u"
proof -
  show "config_set u = Inr u" using assms by (simp add: config_set_def remove_sub_plain drop_refs_plain)
  show "interpolate options u = Inr u"
    using assms by (induction u) (subst interpolate.simps; auto)+
qed

text \<open>What a migration run touches. With a \<open>DATABASE_URL\<close> without percent signs the online run
  connects to exactly that URL, whatever \<^verbatim>\<open>alembic.ini\<close> says, and the database afterwards is what the
  migrations made of it or, when the connection or a migration fails, what it was; the offline run
  writes the script for that URL and touches nothing.\<close>

theorem migration_env_effect:
  assumes "env ''DATABASE_URL'' = Some url" and "url \<noteq> ''''" and "CHR ''%'' \<notin> set url"
  shows "migration_env True env ini reachable run options d = (Inr (OfflineScript url), d)"
    and "migration_env False env ini reachable run options d =
      (if \<not> reachable url then (Inl (OtherError ''OperationalError''), d)
       else case run d of Inl x \<Rightarrow> (Inl x, d) | Inr d' \<Rightarrow> (Inr (OnlineRun url), d'))"
  using assms by (simp_all add: migration_env_def override_url_def plain_url run_migrations_offline_def
      run_migrations_online_def do_run_migrations_def split: sum.splits)

lemma remove_sub_keeps_lone:
  assumes "CHR ''%'' \<notin> set a" and "CHR ''%'' \<notin> set b"
  shows "remove_sub ''%%'' (a @ CHR ''%'' # b) = a @ CHR ''%'' # b"
proof (rule remove_sub_none)
  show "\<not> has_sub ''%%'' (a @ CHR ''%'' # b)"
  proof
    assume "has_sub ''%%'' (a @ CHR ''%'' # b)"
    then obtain x y where "a @ CHR ''%'' # b = x @ CHR ''%'' # CHR ''%'' # y" by (auto simp: has_sub_iff)
    then have "count_list (a @ CHR ''%'' # b) CHR ''%'' = count_list (x @ CHR ''%'' # CHR ''%'' # y) CHR ''%''" by simp
    with assms show False by simp
  qed
qed

lemma drop_refs_keeps_lone:
  assumes "CHR ''%'' \<notin> set a" and "h \<noteq> CHR ''(''"
  shows "CHR ''%'' \<in> set (drop_refs (a @ CHR ''%'' # h # b))"
  using assms(1)
proof (induction a)
  case Nil
  have "option_ref (CHR ''%'' # h # b) = None" using assms(2) by (simp add: option_ref_def starts_with_def)
  then show ?case by (subst drop_refs.simps) simp
next
  case (Cons c a)
  then have "option_ref ((c # a) @ CHR ''%'' # h # b) = None" by (auto simp: option_ref_def starts_with_def)
  with Cons show ?case by (subst drop_refs.simps) simp
qed

text \<open>A percent-encoded password stops every migration. A \<open>DATABASE_URL\<close> with a percent sign
  that is neither doubled nor the start of a reference, which is how a URL spells a special
  character of its password, is refused by the option parser, before any run, with the database as it
  was; the engine of the application takes the same URL as it is.\<close>

theorem percent_url_refused:
  assumes "env ''DATABASE_URL'' = Some (a @ CHR ''%'' # h # b)" and "h \<noteq> CHR ''(''"
    and "CHR ''%'' \<notin> set a" and "CHR ''%'' \<notin> set (h # b)" and "st_database_url st = a @ CHR ''%'' # h # b"
  shows "migration_env offline env ini reachable run options d =
      (Inl (ValueError ''invalid interpolation syntax''), d) \<and>
    eo_url (create_engine st) = a @ CHR ''%'' # h # b"
  using assms remove_sub_keeps_lone [OF assms(3,4)] drop_refs_keeps_lone [OF assms(3,2), of b]
  by (simp add: migration_env_def override_url_def config_set_def create_engine_def Let_def)

theorem percent_url_refused_witness:
  "migration_env False (\<lambda>_. Some ''postgresql://u:p%40ss@db/x'') '''' (\<lambda>_. True) Inr (\<lambda>_. None) empty_schema =
     (Inl (ValueError ''invalid interpolation syntax''), empty_schema)"
  using percent_url_refused [of "\<lambda>_. Some ''postgresql://u:p%40ss@db/x''" "''postgresql://u:p''" "CHR ''4''" "''0ss@db/x''"
      "default_settings\<lparr>st_database_url := ''postgresql://u:p%40ss@db/x''\<rparr>" False "''''" "\<lambda>_. True" Inr "\<lambda>_. None" empty_schema]
  by simp

theorem migration_env_effect_witness:
  "\<exists>s. migration_env False (\<lambda>_. Some ''postgresql://u@db/x'') '''' (\<lambda>_. True)
     (\<lambda>d. case upgrade_all [] d of None \<Rightarrow> Inl DataError | Some s \<Rightarrow> Inr s) (\<lambda>_. None) empty_schema =
   (case upgrade_all [] empty_schema of None \<Rightarrow> (Inl DataError, empty_schema) | Some s \<Rightarrow> (Inr (OnlineRun ''postgresql://u@db/x''), s))"
  using migration_env_effect(2) [of "\<lambda>_. Some ''postgresql://u@db/x''" "''postgresql://u@db/x''" "''''" "\<lambda>_. True"
      "\<lambda>d. case upgrade_all [] d of None \<Rightarrow> Inl DataError | Some s \<Rightarrow> Inr s" "\<lambda>_. None" empty_schema]
  by (simp split: option.splits)

end
