(* ===== verification/Spec2Isabelle.thy ===== *)
theory Spec2Isabelle
  imports LedgerConcurrency Lifecycle Rate_Limit Autoscale Payouts Anchoring Rollup_Bundler Encryption Credits_Api
    Stripe_Webhook Edge_Relay Metrics Poller Sdk_Server Edge_Certs Edge_Cli Edge_Node Migrations App Routing Edge_Process
    Legacy Auth_Api LedgerLocks JobConcurrency NodeConcurrency Gateway Views Migration_Env
begin

text \<open>
  RenderTrust: a gateway (\<^verbatim>\<open>core/\<close>) that sells compute time for prepaid credits and dispatches the jobs
  to edge nodes; the software of an edge node (\<^verbatim>\<open>edgekit/\<close>); a client library
  (\<^verbatim>\<open>sdk/python/rendertrust/\<close>); the anchoring of ledger entries on a chain (\<^verbatim>\<open>core/ledger/anchor/\<close>,
  \<^verbatim>\<open>rollup_anchor/\<close>); and the schema migrations (\<^verbatim>\<open>alembic/versions/\<close>). The theories model the Python
  code, one group of definitions per component in the order of its module, and prove what makes each
  component correct. All paths are relative to \<^verbatim>\<open>src/\<close>.

  \<^bold>\<open>How the parts interact.\<close> A user registers and logs in (\<^verbatim>\<open>Auth\<close>), buys credits (\<^verbatim>\<open>Stripe_Webhook\<close>,
  which allocates on the \<^verbatim>\<open>CreditLedger\<close>) and dispatches jobs (\<^verbatim>\<open>Dispatch\<close>) through the SDK (\<^verbatim>\<open>Sdk\<close>). The
  scheduler keeps nodes (\<^verbatim>\<open>Nodes\<close>), jobs (\<^verbatim>\<open>Jobs\<close>, \<^verbatim>\<open>Jobs_Api\<close>), retries (\<^verbatim>\<open>Retry\<close>) and a circuit breaker
  (\<^verbatim>\<open>Circuit_Breaker\<close>) over one set of tables; \<^verbatim>\<open>Lifecycle\<close> composes all of them into runs. An edge node
  registers (\<^verbatim>\<open>Edge_Cli\<close>), connects to the relay (\<^verbatim>\<open>Relay\<close>) with its client (\<^verbatim>\<open>Edge_Client\<close>) and runs the jobs
  in its workers (\<^verbatim>\<open>Workers\<close>); \<^verbatim>\<open>Edge_Relay\<close> puts both ends of the socket together. A completed job is
  charged (\<^verbatim>\<open>Usage\<close>) and paid out to the operator (\<^verbatim>\<open>Payouts\<close>). Results are stored encrypted
  (\<^verbatim>\<open>Storage\<close>, \<^verbatim>\<open>Encryption\<close>), ledger entries are anchored through Merkle trees (\<^verbatim>\<open>Merkle\<close>, \<^verbatim>\<open>Anchoring\<close>,
  \<^verbatim>\<open>Rollup_Bundler\<close>). The application assembles the routers (\<^verbatim>\<open>Routing\<close>) behind its middlewares (\<^verbatim>\<open>App\<close>).

  \<^bold>\<open>Conventions\<close> (\<^verbatim>\<open>Prelude\<close>, \<^verbatim>\<open>Py_Strings\<close>, \<^verbatim>\<open>Py_Decimal\<close>). A class with state is a record, an enumeration a
  datatype, a table a list of rows in insertion order with its constraints as checks at the flush. An
  operation that may raise answers \<open>py_exc + 'a\<close>. A database session is a pair of the committed and the
  working state, so that a missing commit shows. Instants are microseconds, identifiers 128-bit words,
  decimals exact rationals with the column's rounding as a parameter, Python floats exact rationals with
  both infinities and NaN. Clock readings, fresh identifiers, and the outcome of a commit or of a call to
  Redis are arguments of the operation that reads them. Lists of dictionaries read from the network are
  \<open>json\<close> values; the reader and the printer of JSON are parameters.

  \<^bold>\<open>Theories and sources.\<close>
  \<^item> Ledger: \<^verbatim>\<open>CreditLedger\<close> (\<^verbatim>\<open>core/ledger/service.py\<close>, \<^verbatim>\<open>core/models/base.py\<close>) as an instance of the
    idempotent service of \<^verbatim>\<open>Prelude\<close>; \<^verbatim>\<open>LedgerConcurrency\<close> runs several allocations in every interleaving of
    their database calls, \<^verbatim>\<open>LedgerLocks\<close> several deductions with the row locks of \<open>FOR UPDATE\<close>; \<^verbatim>\<open>Usage\<close>, \<^verbatim>\<open>Payouts\<close> (\<^verbatim>\<open>core/billing/\<close>), \<^verbatim>\<open>Stripe_Webhook\<close>, \<^verbatim>\<open>Credits_Api\<close>.
  \<^item> Scheduler: \<^verbatim>\<open>Scheduler_Models\<close>, \<^verbatim>\<open>Jobs\<close>, \<^verbatim>\<open>Dispatch\<close>, \<^verbatim>\<open>Retry\<close>, \<^verbatim>\<open>Circuit_Breaker\<close>, \<^verbatim>\<open>Nodes\<close>, \<^verbatim>\<open>Autoscale\<close>
    (\<^verbatim>\<open>core/scheduler/\<close>), \<^verbatim>\<open>Jobs_Api\<close> (\<^verbatim>\<open>core/api/v1/jobs.py\<close>) and \<^verbatim>\<open>Lifecycle\<close>, the step function over all of
    their operations with its invariant; there each operation is atomic; \<^verbatim>\<open>JobConcurrency\<close> interleaves the
    reads and writes of status changes and cancellations, \<^verbatim>\<open>NodeConcurrency\<close> the lookups and insertions of
    registrations.
  \<^item> Access: \<^verbatim>\<open>Auth\<close> (\<^verbatim>\<open>core/auth/\<close>, \<^verbatim>\<open>core/api/v1/auth.py\<close>), \<^verbatim>\<open>Rate_Limit\<close>; \<^verbatim>\<open>Login_Guard\<close> and \<^verbatim>\<open>Auth_Api\<close>,
    the routes behind their limiters; \<^verbatim>\<open>Certs\<close> (\<^verbatim>\<open>core/relay/tls.py\<close>, \<^verbatim>\<open>core/api/v1/certs.py\<close>); \<^verbatim>\<open>Gateway\<close>, which serves
    requests through the route table and the security dependency of each endpoint.
  \<^item> Anchoring: \<^verbatim>\<open>Merkle\<close>, \<^verbatim>\<open>Anchoring\<close> (\<^verbatim>\<open>core/ledger/anchor/\<close>, \<^verbatim>\<open>core/api/v1/ledger.py\<close>), \<^verbatim>\<open>Rollup_Bundler\<close>.
  \<^item> Storage: \<^verbatim>\<open>Storage\<close>, \<^verbatim>\<open>Encryption\<close> (\<^verbatim>\<open>core/storage/\<close>), \<^verbatim>\<open>Migrations\<close> (\<^verbatim>\<open>alembic/versions/\<close> against the models),
    \<^verbatim>\<open>Migration_Env\<close> (\<^verbatim>\<open>alembic/env.py\<close>).
  \<^item> Edge: \<^verbatim>\<open>Workers\<close>, \<^verbatim>\<open>Edge_Client\<close>, \<^verbatim>\<open>Poller\<close>, \<^verbatim>\<open>Edge_Certs\<close>, \<^verbatim>\<open>Edge_Cli\<close>, \<^verbatim>\<open>Edge_Node\<close>, \<^verbatim>\<open>Edge_Process\<close> (\<^verbatim>\<open>edgekit/\<close>),
    \<^verbatim>\<open>Relay\<close> (\<^verbatim>\<open>core/relay/\<close>) and \<^verbatim>\<open>Edge_Relay\<close>.
  \<^item> Application: \<^verbatim>\<open>App\<close> (\<^verbatim>\<open>core/main.py\<close>, \<^verbatim>\<open>core/config.py\<close>, \<^verbatim>\<open>core/database.py\<close>, \<^verbatim>\<open>core/gateway/x402/\<close>), \<^verbatim>\<open>Metrics\<close>,
    \<^verbatim>\<open>Routing\<close>, \<^verbatim>\<open>Views\<close> (what the read endpoints show); the client library in \<^verbatim>\<open>Sdk\<close>, with the gateway at its other end in \<^verbatim>\<open>Sdk_Server\<close>.
  \<^item> \<^verbatim>\<open>Legacy\<close>: the small services beside the application (usage webhook, invoices, token rotator, fleet
    gateway, CPU filter).

  \<^bold>\<open>What the lemmas show.\<close> Invariants of every reachable state: the ledger's balances, the scheduler's
  tables, the relay's registry, the tasks of an edge process, and of every interleaving of concurrent
  ledger calls, job calls and registrations (through \<open>shared_fibers\<close>, the interface of calls that share data). Refinement: credits against an account that
  is a number, the breaker against a counter of consecutive failures. Equivalence: the two SDK clients,
  the sieve against the count of primes, the migrated schema against the models, the loop of the Merkle
  tree against its recursion, a route behind its limiter against the handlers of the requests let through,
  a call alone, step by step, against its service. Round trips: encryption, encrypted storage, each migration and its
  downgrade, identifiers and their texts. Safety of the Merkle proofs up to a collision of the hash
  function. Error behaviour of the endpoints, bounds of retries and windows, and the termination of the
  backlog, of a shutdown and of the heartbeat of a silent node. Where the code does not do what it means
  to, a theorem states what it does: lost registrations, payouts that cannot be booked, first
  allocations that lose an update, concurrent deductions that overdraw, completed jobs that are cancelled,
  node keys that two registrations make useless,
  routes without credentials, queued jobs of a failed commit, sessions that end each other, jobs
  that outlive their connection, shutdowns that miss a connection, certificates without their key.

  \<^bold>\<open>Bounds and fuel.\<close> There is no fuel: recursion is structural or has a measure. Loops that never end by
  themselves (the bundler, the poller, the run loop of the relay client, the heartbeat task) are runs
  over the list of what the environment does, of any length; the loop of the Merkle tree is shown to
  end by \<open>while_option\<close>.

  \<^bold>\<open>What is assumed.\<close> Each law is a named hypothesis or a locale: tokens decode to their claims until they
  expire (\<open>codec_ok\<close>); encryption is authenticated (\<open>gcm_ok\<close>); a bucket returns what was stored (\<open>store_ok\<close>);
  signatures and encodings of certificates (\<open>lib_ok\<close>); SHA-256 has 32-byte digests, and no collision where
  a theorem says so; the chain client keeps what was submitted (\<open>chain_client\<close>, interpreted on the no-op
  client and, under what a node promises, on the web3 client). Of the database, READ COMMITTED: a statement
  sees what is committed when it begins, one that waited for a row lock looks again at that row alone,
  and an \<open>UPDATE\<close> writes the changed columns over the row as it is then. The flush of an insert and its
  commit are one step.

  \<^bold>\<open>Not modelled.\<close> Logging and its configuration and the start-up hook that calls it;
  \<^verbatim>\<open>scripts/export-openapi.py\<close>, which only hands an object to its library; type declarations of the SDK
  (\<^verbatim>\<open>models.py\<close>) and package markers, which do nothing at run time; the module template of the SDK; the
  templates, PDF files and presigned links of the invoices; the Solidity contract, the Go poller and the
  web pages, which are other languages. Rounding of floats and of decimal contexts is exact arithmetic
  where nothing else is said, and text is ASCII where case or digits matter.

  \<^bold>\<open>What is left.\<close> In \<^verbatim>\<open>Gateway\<close> the endpoints of registration, certificates, anchors and webhook are a
  parameter, as their states are those of their own theories; retries and dispatches are atomic in every
  run; deadlocks of the database are not considered; settings of the \<^verbatim>\<open>.env\<close> file that the model of the
  settings does not know.
\<close>

section \<open>Properties across components\<close>

text \<open>C31: Credits that are paid for can be spent. After an acknowledged delivery of a new checkout, the
  pre-flight check of a job admits the user exactly when the price is covered by the old balance and
  the credits of the SKU together; a charge of that job is then not refused for lack of credits, and
  when it succeeds the balance is the old one plus the credits minus the price, and nobody else's
  balance has changed.\<close>

theorem checkout_funds_job:
  assumes "construct_event body h = Event ev" and "h \<noteq> []"
    and "event_request py_str ev = Inr (Some (u, ref, sku, n))"
    and "ledger_balanced db" and "keeps_scale4 num" and "clock_after db u t1" and "posted db (ref, CREDIT) = None"
    and "stripe_hook construct_event py_str num nid t1 True (Some h) body (open_session db) = (Inr ack, s)"
    and "get_job_price pricing (j_type j) = Inr p" and "0 < p" and "scale4 p"
    and "clock_after (committed s) u t2" and "posted db (job_reference (j_id j), DEBIT) = None"
    and "deduct_on_completion num nid' t2 pricing j u (open_session (committed s)) = (r, s2)"
  shows "check_sufficient_credits pricing (committed s) u (j_type j) = Inr (p \<le> get_balance db u + n) \<and>
    (r = Inl (InsufficientCreditsError u p (get_balance db u + n)) \<longleftrightarrow> get_balance db u + n < p) \<and>
    (\<forall>e. r = Inr e \<longrightarrow> get_balance (working s2) = (get_balance db)(u := get_balance db u + n - p))"
proof -
  have n: "0 < n" "scale4 n"
    using assms(3) by (auto simp: event_request_def err_bind_Inr split: if_splits dest: checkout_request_pos)
  note hook = stripe_hook_event [where construct_event = construct_event and body = body and h = h, OF assms(1,2), unfolded assms(3)]
  obtain e s1 where call: "allocate_credits num nid t1 u n STRIPE ref (Some (''Stripe checkout: '' @ sku)) (open_session db) = (Inr e, s1)"
    and s: "s = commit s1"
    using assms(8) unfolding hook assms(3) by (auto split: prod.splits sum.splits)
  have bal: "ledger_balanced (working s1)" and get: "get_balance (working s1) i = get_balance db i + (if i = u then n else 0)" for i
    using allocate_balanced [OF assms(4,5) n(2) assms(6) call] assms(7) by auto
  have fresh: "posted (working s1) (job_reference (j_id j), DEBIT) = None"
    by (rule allocate_Inr_cases [OF balanced_session [OF assms(4)] call]) (use assms(13) in \<open>simp_all add: posted_append entry_key_def\<close>)
  have c: "committed s = working s1" by (simp add: s)
  have ded: "deduct_credits num nid' t2 u p USAGE (job_reference (j_id j)) (Some (charge_description j)) (open_session (working s1)) = (r, s2)"
    using assms(9,14) by (simp add: deduct_on_completion_def c)
  from deduct_decides [OF bal assms(5,11) _ assms(10) fresh ded] assms(12)
  have D: "(get_balance (working s1) u < p \<longleftrightarrow> r = Inl (InsufficientCreditsError u p (get_balance (working s1) u))) \<and>
      (\<forall>e. r = Inr e \<longrightarrow> get_balance (working s2) = (get_balance (working s1))(u := get_balance (working s1) u - p))"
    by (simp add: c)
  have "check_sufficient_credits pricing (committed s) u (j_type j) = Inr (p \<le> get_balance db u + n)"
    using assms(9,10) get [of u] by (simp add: check_sufficient_credits_def c)
  moreover have "get_balance (working s2) = (get_balance db)(u := get_balance db u + n - p)" if "r = Inr e" for e
    using D that get by (auto simp: fun_eq_iff)
  ultimately show ?thesis using D get [of u] by auto
qed


theorem checkout_funds_job_witness:
  "\<exists>s. stripe_hook (demo_construct 7) (\<lambda>_. []) numeric_12_4 3 9 True (Some ''sig'') ''body'' (open_session demo_ledger) = (Inr True, s) \<and>
    check_sufficient_credits [\<lparr>jp_job_type = ''render'', jp_credits_per_unit = 100, jp_unit_type = ''job'', jp_is_active = True\<rparr>]
      demo_ledger 7 ''render'' = Inr False \<and>
    check_sufficient_credits [\<lparr>jp_job_type = ''render'', jp_credits_per_unit = 100, jp_unit_type = ''job'', jp_is_active = True\<rparr>]
      (committed s) 7 ''render'' = Inr True"
proof -
  let ?pr = "[\<lparr>jp_job_type = ''render'', jp_credits_per_unit = 100, jp_unit_type = ''job'', jp_is_active = True\<rparr>]"
  have c: "demo_construct 7 ''body'' ''sig'' = Event (demo_event 7)" "''sig'' \<noteq> []" by (simp_all add: demo_construct_def)
  have k: "clock_after demo_ledger 7 9" "posted demo_ledger (''cs_1'', CREDIT) = None" "get_balance demo_ledger 7 = 12"
    by (simp_all add: demo_ledger_defs)
  have "\<exists>s'. stripe_hook (demo_construct 7) (\<lambda>_. []) numeric_12_4 3 9 True (Some ''sig'') ''body'' (open_session demo_ledger) =
      (Inr True, s') \<and> clock_after (committed s') 7 20"
    unfolding stripe_hook_event [where construct_event = "demo_construct 7" and body = "''body''" and h = "''sig''", OF c] demo_request
    by (simp add: demo_ledger_defs clock_after_def user_entries_def, auto)
  then obtain s' where r: "stripe_hook (demo_construct 7) (\<lambda>_. []) numeric_12_4 3 9 True (Some ''sig'') ''body''
      (open_session demo_ledger) = (Inr True, s')" and t: "clock_after (committed s') 7 20" by blast
  have price: "get_job_price ?pr (j_type demo_job) = Inr 100" by (simp add: get_job_price_def demo_job_def)
  have f: "posted demo_ledger (job_reference (j_id demo_job), DEBIT) = None"
    by (simp add: posted_def demo_ledger_def demo_entry_def entry_key_def)
  obtain out s2 where d: "deduct_on_completion numeric_12_4 5 20 ?pr demo_job 7 (open_session (committed s')) = (out, s2)" by fastforce
  from checkout_funds_job [where construct_event = "demo_construct 7" and body = "''body''" and h = "''sig''",
      OF c demo_request demo_ledger_balanced keeps_scale4_numeric k(1,2) r price _ scale4_numeral t f d] k(3)
  have "check_sufficient_credits ?pr (committed s') 7 ''render'' = Inr True" by (simp add: demo_job_def)
  moreover have "check_sufficient_credits ?pr demo_ledger 7 ''render'' = Inr False"
    by (simp add: check_sufficient_credits_def get_job_price_def k(3))
  ultimately show ?thesis using r by blast
qed

end
